(* ===== verification/QkdPrelude.thy ===== *)
theory QkdPrelude
  imports Complex_Main "HOL-Library.List_Lexorder" "HOL-Library.Char_ord"
    "HOL-Library.Product_Lexorder" "HOL-Library.Word"
begin

text \<open>
  What every component shares: the values Python raises, the string methods the code calls
  (\<open>partition\<close>, \<open>rpartition\<close>, \<open>split\<close>, \<open>strip\<close>, \<open>str\<close>, \<open>int\<close>), frozensets kept as sorted
  lists, and the generic lemmas about them. A Python string is a \<open>string\<close> (its code points,
  which the model limits to 0..255), a Python integer an \<open>int\<close>, bytes are \<open>8 word list\<close>.
\<close>

type_synonym byte = "8 word"
type_synonym bytes = "8 word list"

section \<open>Exceptions as values\<close>

text \<open>
  The exceptions that the modelled code raises or lets through, apart from the ones a module
  defines itself. A function that may raise returns \<open>py_error + 'a\<close>.
\<close>

datatype py_error =
    ValueError
  | KeyError
  | TypeError
  | IndexError
  | AssertionError
  | ZeroDivisionError
  | RuntimeError string
  | OtherError string

definition OSError :: py_error where
  "OSError = OtherError ''OSError''"

definition OverflowError :: py_error where
  "OverflowError = OtherError ''OverflowError''"

type_synonym 'a py = "py_error + 'a"

fun bind_py :: "'e + 'a \<Rightarrow> ('a \<Rightarrow> 'e + 'b) \<Rightarrow> 'e + 'b" where
  "bind_py (Inl e) f = Inl e"
| "bind_py (Inr x) f = f x"

lemma bind_py_eq_Inr: "bind_py m f = Inr y \<longleftrightarrow> (\<exists>x. m = Inr x \<and> f x = Inr y)"
  by (cases m) auto

lemma bind_py_eq_Inl: "bind_py m f = Inl e \<longleftrightarrow> m = Inl e \<or> (\<exists>x. m = Inr x \<and> f x = Inl e)"
  by (cases m) auto

lemma bind_py_assoc: "bind_py (bind_py m f) g = bind_py m (\<lambda>x. bind_py (f x) g)"
  by (cases m) auto

fun map_py :: "('a \<Rightarrow> 'e + 'b) \<Rightarrow> 'a list \<Rightarrow> 'e + 'b list" where
  "map_py f [] = Inr []"
| "map_py f (x # xs) = bind_py (f x) (\<lambda>y. bind_py (map_py f xs) (\<lambda>ys. Inr (y # ys)))"

lemma map_py_total: "(\<And>x. x \<in> set xs \<Longrightarrow> f x = Inr (g x)) \<Longrightarrow> map_py f xs = Inr (map g xs)"
  by (induction xs) auto

lemma map_py_length: "map_py f xs = Inr ys \<Longrightarrow> length ys = length xs"
  by (induction xs arbitrary: ys) (auto simp: bind_py_eq_Inr)

lemma find_SomeD: "find P xs = Some x \<Longrightarrow> x \<in> set xs \<and> P x"
  by (auto simp: find_Some_iff)

section \<open>Strings\<close>

text \<open>\<open>s.partition(c)\<close>, \<open>s.rpartition(c)\<close> and \<open>s.split(c)\<close> for a separator of one character.\<close>

definition partition_at :: "char \<Rightarrow> string \<Rightarrow> string \<times> string \<times> string" where
  "partition_at c s =
     (let h = takeWhile (\<lambda>x. x \<noteq> c) s; t = dropWhile (\<lambda>x. x \<noteq> c) s
      in case t of [] \<Rightarrow> (s, [], []) | x # xs \<Rightarrow> (h, [x], xs))"

definition rpartition_at :: "char \<Rightarrow> string \<Rightarrow> string \<times> string \<times> string" where
  "rpartition_at c s =
     (let t = rev (takeWhile (\<lambda>x. x \<noteq> c) (rev s)); h = dropWhile (\<lambda>x. x \<noteq> c) (rev s)
      in case h of [] \<Rightarrow> ([], [], s) | x # xs \<Rightarrow> (rev xs, [x], t))"

fun split_on :: "char \<Rightarrow> string \<Rightarrow> string list" where
  "split_on c [] = [[]]"
| "split_on c (x # xs) =
     (if x = c then [] # split_on c xs
      else case split_on c xs of [] \<Rightarrow> [[x]] | w # ws \<Rightarrow> (x # w) # ws)"

definition startswith :: "string \<Rightarrow> string \<Rightarrow> bool" where
  "startswith s p \<longleftrightarrow> take (length p) s = p"

definition removeprefix :: "string \<Rightarrow> string \<Rightarrow> string" where
  "removeprefix s p = (if startswith s p then drop (length p) s else s)"

lemma startswith_iff: "startswith s p \<longleftrightarrow> (\<exists>t. s = p @ t)"
  unfolding startswith_def by (metis append_eq_conv_conj append_take_drop_id)

lemma startswith_append [simp]: "startswith (p @ t) p"
  by (simp add: startswith_def)

lemma removeprefix_append [simp]: "removeprefix (p @ t) p = t"
  by (simp add: removeprefix_def)

text \<open>White space as \<open>str.isspace\<close> has it below 256.\<close>

definition is_space :: "char \<Rightarrow> bool" where
  "is_space c \<longleftrightarrow>
     (let n = of_char c :: nat in n = 32 \<or> (9 \<le> n \<and> n \<le> 13) \<or> (28 \<le> n \<and> n \<le> 31) \<or> n = 133 \<or> n = 160)"

definition strip :: "string \<Rightarrow> string" where
  "strip s = rev (dropWhile is_space (rev (dropWhile is_space s)))"

lemma split_on_not_Nil: "split_on c s \<noteq> []"
  by (induction s) (auto split: list.splits)

lemma split_on_prefix:
  "c \<notin> set w \<Longrightarrow> split_on c (w @ c # s) = w # split_on c s"
  by (induction w) auto

lemma split_on_word: "c \<notin> set w \<Longrightarrow> split_on c w = [w]"
  by (induction w) auto

lemma hd_split_on: "hd (split_on c s) = takeWhile (\<lambda>x. x \<noteq> c) s"
  by (induction s) (auto split: list.splits simp: split_on_not_Nil)

lemma takeWhile_until: "c \<notin> set w \<Longrightarrow> takeWhile (\<lambda>x. x \<noteq> c) (w @ c # s) = w"
  by (induction w) auto

lemma dropWhile_until: "c \<notin> set w \<Longrightarrow> dropWhile (\<lambda>x. x \<noteq> c) (w @ c # s) = c # s"
  by (induction w) auto

lemma dropWhile_never: "c \<notin> set w \<Longrightarrow> dropWhile (\<lambda>x. x \<noteq> c) w = []"
  by (induction w) auto

lemma partition_at_prefix:
  "c \<notin> set w \<Longrightarrow> partition_at c (w @ c # s) = (w, [c], s)"
  by (simp add: partition_at_def takeWhile_until dropWhile_until)

lemma partition_at_word: "c \<notin> set w \<Longrightarrow> partition_at c w = (w, [], [])"
  by (simp add: partition_at_def dropWhile_never)

lemma rpartition_at_suffix:
  assumes "c \<notin> set w"
  shows "rpartition_at c (s @ c # w) = (s, [c], w)"
  using takeWhile_until [of c "rev w" "rev s"] dropWhile_until [of c "rev w" "rev s"] assms
  by (simp add: rpartition_at_def)

lemma rpartition_at_word: "c \<notin> set w \<Longrightarrow> rpartition_at c w = ([], [], w)"
  by (simp add: rpartition_at_def dropWhile_never)

section \<open>Decimal numbers\<close>

text \<open>\<open>str(n)\<close> of an integer, and \<open>int(s)\<close> of a string: white space around, a sign, and digits
  with single underscores between them.\<close>

definition digit_char :: "nat \<Rightarrow> char" where
  "digit_char d = char_of (48 + d)"

definition digit_val :: "char \<Rightarrow> nat option" where
  "digit_val c = (let n = of_char c :: nat in if 48 \<le> n \<and> n \<le> 57 then Some (n - 48) else None)"

fun str_nat :: "nat \<Rightarrow> string" where
  "str_nat n = (if n < 10 then [digit_char n] else str_nat (n div 10) @ [digit_char (n mod 10)])"

declare str_nat.simps [simp del]

definition str_int :: "int \<Rightarrow> string" where
  "str_int i = (if i < 0 then CHR ''-'' # str_nat (nat (- i)) else str_nat (nat i))"

fun digits_from :: "nat \<Rightarrow> string \<Rightarrow> nat option" where
  "digits_from acc [] = Some acc"
| "digits_from acc (c # cs) =
     (case digit_val c of
        Some d \<Rightarrow> digits_from (acc * 10 + d) cs
      | None \<Rightarrow>
          if c = CHR ''_'' then
            (case cs of
               [] \<Rightarrow> None
             | d # ds \<Rightarrow> (case digit_val d of None \<Rightarrow> None | Some v \<Rightarrow> digits_from acc cs))
          else None)"

definition parse_nat :: "string \<Rightarrow> nat option" where
  "parse_nat s = (case s of [] \<Rightarrow> None
     | c # cs \<Rightarrow> (case digit_val c of None \<Rightarrow> None | Some d \<Rightarrow> digits_from d cs))"

definition py_int :: "string \<Rightarrow> int option" where
  "py_int s = (case strip s of
       [] \<Rightarrow> None
     | c # cs \<Rightarrow>
         if c = CHR ''-'' then map_option (\<lambda>n. - int n) (parse_nat cs)
         else if c = CHR ''+'' then map_option int (parse_nat cs)
         else map_option int (parse_nat (c # cs)))"

lemma of_char_digit: "d < 10 \<Longrightarrow> (of_char (digit_char d) :: nat) = 48 + d"
  by (simp add: digit_char_def of_char_of)

lemma digit_val_digit [simp]: "d < 10 \<Longrightarrow> digit_val (digit_char d) = Some d"
  by (simp add: digit_val_def of_char_digit Let_def)

lemma digit_not_special:
  assumes "d < 10"
  shows "digit_char d \<noteq> CHR ''-''" "digit_char d \<noteq> CHR ''+''" "digit_char d \<noteq> CHR '':''"
    "digit_char d \<noteq> CHR ''/''" "\<not> is_space (digit_char d)"
proof -
  have v: "(of_char (digit_char d) :: nat) = 48 + d" by (rule of_char_digit [OF assms])
  show "digit_char d \<noteq> CHR ''-''" "digit_char d \<noteq> CHR ''+''" "digit_char d \<noteq> CHR '':''"
    "digit_char d \<noteq> CHR ''/''"
    using v assms by auto
  show "\<not> is_space (digit_char d)" using v assms by (simp add: is_space_def Let_def)
qed

lemma digits_from_append:
  "digits_from acc s = Some n \<Longrightarrow> d < 10 \<Longrightarrow> digits_from acc (s @ [digit_char d]) = Some (n * 10 + d)"
proof (induction acc s arbitrary: n rule: digits_from.induct)
  case (1 acc)
  then show ?case by simp
next
  case (2 acc c cs)
  then show ?case
    by (cases cs) (auto split: option.splits if_splits)
qed

lemma str_nat_not_Nil: "str_nat n \<noteq> []"
  by (subst str_nat.simps) simp

lemma parse_nat_append:
  "parse_nat s = Some n \<Longrightarrow> d < 10 \<Longrightarrow> parse_nat (s @ [digit_char d]) = Some (n * 10 + d)"
  by (auto simp: parse_nat_def digits_from_append split: list.splits option.splits)

lemma parse_str_nat [simp]: "parse_nat (str_nat n) = Some n"
proof (induction n rule: str_nat.induct)
  case (1 n)
  show ?case
  proof (cases "n < 10")
    case True
    then show ?thesis by (subst str_nat.simps) (simp add: parse_nat_def)
  next
    case False
    then have "parse_nat (str_nat (n div 10) @ [digit_char (n mod 10)]) = Some (n div 10 * 10 + n mod 10)"
      using 1 by (intro parse_nat_append) auto
    with False show ?thesis by (subst str_nat.simps) simp
  qed
qed

lemma str_nat_digits: "c \<in> set (str_nat n) \<Longrightarrow> \<exists>d<10. c = digit_char d"
proof (induction n rule: str_nat.induct)
  case (1 n)
  show ?case
  proof (cases "n < 10")
    case True
    with 1 show ?thesis by (subst (asm) str_nat.simps) auto
  next
    case False
    with 1 show ?thesis
      by (subst (asm) str_nat.simps) (auto intro: exI [of _ "n mod 10"])
  qed
qed

lemma strip_no_space: "(\<And>c. c \<in> set s \<Longrightarrow> \<not> is_space c) \<Longrightarrow> strip s = s"
proof -
  assume *: "\<And>c. c \<in> set s \<Longrightarrow> \<not> is_space c"
  have "dropWhile is_space t = t" if "\<And>c. c \<in> set t \<Longrightarrow> \<not> is_space c" for t
    using that by (cases t) auto
  from this [of s] this [of "rev s"] * show ?thesis by (simp add: strip_def)
qed

lemma py_int_str_int [simp]: "py_int (str_int i) = Some i"
proof -
  have minus: "\<not> is_space CHR ''-''" by (simp add: is_space_def)
  have nosp: "\<not> is_space c" if "c \<in> set (str_nat n)" for c n
    using str_nat_digits [OF that] digit_not_special(5) by auto
  show ?thesis
  proof (cases "i < 0")
    case True
    then have "strip (str_int i) = str_int i"
      by (intro strip_no_space) (auto simp: str_int_def minus dest: nosp)
    with True show ?thesis by (simp add: py_int_def str_int_def)
  next
    case False
    then have st: "strip (str_int i) = str_nat (nat i)"
      by (simp add: str_int_def strip_no_space nosp)
    obtain c cs where c: "str_nat (nat i) = c # cs"
      using str_nat_not_Nil by (cases "str_nat (nat i)") auto
    then obtain d where "d < 10" "c = digit_char d"
      using str_nat_digits [of c "nat i"] by auto
    then have "c \<noteq> CHR ''-''" "c \<noteq> CHR ''+''" using digit_not_special by auto
    moreover have "parse_nat (c # cs) = Some (nat i)" using c parse_str_nat [of "nat i"] by simp
    ultimately show ?thesis using False st c by (simp add: py_int_def)
  qed
qed

lemma str_int_inject [simp]: "str_int i = str_int j \<longleftrightarrow> i = j"
  using py_int_str_int by (metis option.inject)

lemma str_int_no_colon: "CHR '':'' \<notin> set (str_int i)"
proof
  assume "CHR '':'' \<in> set (str_int i)"
  then have "CHR '':'' \<in> set (str_nat (nat \<bar>i\<bar>))"
    by (auto simp: str_int_def split: if_splits)
  then obtain d where "d < 10" "CHR '':'' = digit_char d" using str_nat_digits by blast
  then show False using digit_not_special(3) [of d] by simp
qed

section \<open>Frozensets as sorted lists\<close>

text \<open>
  A frozenset of strings whose elements the code sorts, counts and compares is kept as the sorted
  list of its elements: \<open>fs_insert k\<close> is \<open>s | {k}\<close>, \<open>fs_remove k\<close> is \<open>s - {k}\<close>, and equality of
  the lists is equality of the sets (\<open>fset_ok\<close> is kept by both operations).
\<close>

definition fset_ok :: "string list \<Rightarrow> bool" where
  "fset_ok xs \<longleftrightarrow> sorted xs \<and> distinct xs"

definition fs_insert :: "string \<Rightarrow> string list \<Rightarrow> string list" where
  "fs_insert k xs = (if k \<in> set xs then xs else insort k xs)"

definition fs_remove :: "string \<Rightarrow> string list \<Rightarrow> string list" where
  "fs_remove k xs = filter (\<lambda>x. x \<noteq> k) xs"

lemma set_fs_insert [simp]: "set (fs_insert k xs) = insert k (set xs)"
  by (auto simp: fs_insert_def set_insort_key)

lemma set_fs_remove [simp]: "set (fs_remove k xs) = set xs - {k}"
  by (auto simp: fs_remove_def)

lemma fset_ok_Nil [simp, intro]: "fset_ok []"
  by (simp add: fset_ok_def)

lemma fset_ok_insert [simp, intro]: "fset_ok xs \<Longrightarrow> fset_ok (fs_insert k xs)"
  by (auto simp: fset_ok_def fs_insert_def sorted_insort distinct_insort)

lemma fset_ok_remove [simp, intro]: "fset_ok xs \<Longrightarrow> fset_ok (fs_remove k xs)"
  by (auto simp: fset_ok_def fs_remove_def sorted_filter [of id, simplified])

lemma fset_ok_eq: "fset_ok xs \<Longrightarrow> fset_ok ys \<Longrightarrow> set xs = set ys \<Longrightarrow> xs = ys"
  by (simp add: fset_ok_def sorted_distinct_set_unique)

lemma fset_ok_sort: "fset_ok xs \<Longrightarrow> sort xs = xs"
  by (simp add: fset_ok_def sorted_sort_id)

end
