(* ===== verification/Lifecycle.thy ===== *)
theory Lifecycle
  imports QkdPrelude
begin

text \<open>
  \<open>src/qkd_ekm/ekm/lifecycle.py\<close>: the derivation of the lifecycle mode and of the consequence
  vector, which the running EKM (\<open>EkmApp\<close>) and the reference model (\<open>ModelState\<close>) share. The
  dictionary that \<open>derive\<close> returns has four fixed keys, one field of the record each; modes are
  the strings of the source.
\<close>

record derived =
  d_mode :: string
  d_storage :: bool
  d_fresh_allocation :: bool
  d_established_vpn :: string

definition derive ::
  "bool \<Rightarrow> bool \<Rightarrow> nat \<Rightarrow> bool \<Rightarrow> bool \<Rightarrow> bool \<Rightarrow> bool \<Rightarrow> derived" where
  "derive source_available ekm_reachable pool_size has_authoritative_binding
      continuity_authority recovery_pending policy_suspended =
     (let mode =
        (if recovery_pending then ''RECOVERY''
         else if policy_suspended then ''SUSPENDED''
         else if source_available \<and> ekm_reachable then ''READY''
         else if ekm_reachable \<and> pool_size > 0 then ''BUFFERED''
         else if \<not> continuity_authority then ''SUSPENDED''
         else if has_authoritative_binding then ''BINDING_HOLDOVER''
         else ''EXHAUSTED'')
      in \<lparr> d_mode = mode,
           d_storage = ekm_reachable,
           d_fresh_allocation =
             (ekm_reachable \<and> pool_size > 0 \<and> mode \<notin> {''SUSPENDED'', ''RECOVERY''}),
           d_established_vpn = ''distinct'' \<rparr>)"

definition MODES :: "string list" where
  "MODES = [''READY'', ''BUFFERED'', ''BINDING_HOLDOVER'', ''EXHAUSTED'', ''RECOVERY'', ''SUSPENDED'']"

lemma derive_storage [simp]: "d_storage (derive a e n b c r p) = e"
  by (simp add: derive_def Let_def)

lemma derive_vpn [simp]: "d_established_vpn (derive a e n b c r p) = ''distinct''"
  by (simp add: derive_def Let_def)

lemma derive_mode_in_MODES: "d_mode (derive a e n b c r p) \<in> set MODES"
  by (simp add: derive_def Let_def MODES_def)

lemma derive_mode_cases:
  "d_mode (derive a e n b c r p) = ''RECOVERY'' \<longleftrightarrow> r"
  "d_mode (derive a e n b c r p) = ''READY'' \<longleftrightarrow> \<not> r \<and> \<not> p \<and> a \<and> e"
  "d_mode (derive a e n b c r p) = ''BUFFERED'' \<longleftrightarrow> \<not> r \<and> \<not> p \<and> \<not> a \<and> e \<and> n > 0"
  "d_mode (derive a e n b c r p) = ''SUSPENDED'' \<longleftrightarrow>
     \<not> r \<and> (p \<or> \<not> c \<and> (\<not> e \<or> \<not> a \<and> n = 0))"
  "d_mode (derive a e n b c r p) = ''BINDING_HOLDOVER'' \<longleftrightarrow>
     \<not> r \<and> \<not> p \<and> c \<and> b \<and> (\<not> e \<or> \<not> a \<and> n = 0)"
  "d_mode (derive a e n b c r p) = ''EXHAUSTED'' \<longleftrightarrow>
     \<not> r \<and> \<not> p \<and> c \<and> \<not> b \<and> (\<not> e \<or> \<not> a \<and> n = 0)"
  by (auto simp: derive_def Let_def)

lemma derive_fresh_iff:
  "d_fresh_allocation (derive a e n b c r p) \<longleftrightarrow> e \<and> n > 0 \<and> \<not> r \<and> \<not> p"
  by (auto simp: derive_def Let_def)

end
