(* ===== verification/ModelState.thy ===== *)
theory ModelState
  imports Lifecycle
begin

text \<open>
  \<open>src/qkd_ekm/model/state.py\<close>: the lifecycle control state X = (SQ, SE, B, M, KE, KP, KV, E, C, R)
  of the reference model, its initial value, and the mode and consequences it derives. The
  frozenset \<open>pool\<close> is the sorted list of its elements (\<open>QkdPrelude\<close>), so that the seeded state
  whose pool is a tuple with a repeated entry is a value of the same type.
\<close>

definition IDS :: "string list" where
  "IDS = [''k1'', ''k2'', ''k3'', ''k4'']"

definition VERSIONS :: "string list" where
  "VERSIONS = [''v1'', ''v2'']"

definition MAX_EPOCH :: int where
  "MAX_EPOCH = 3"

type_synonym binding = "string \<times> string \<times> string"

record lc_state =
  sq :: bool
  se :: bool
  pool :: "string list"
  bindings :: "binding set"
  ke :: "string option"
  kp :: "(string \<times> int) option"
  kv :: "(string \<times> int) option"
  epoch :: int
  authority :: bool
  recovery :: bool
  expired :: "string set"
  suspended :: bool
  detected :: bool
  alloc_order :: "string list"

definition initial :: lc_state where
  "initial = \<lparr> sq = True, se = True, pool = [], bindings = {}, ke = None, kp = None, kv = None,
     epoch = 0, authority = True, recovery = False, expired = {}, suspended = False,
     detected = False, alloc_order = [] \<rparr>"

definition consumed :: "lc_state \<Rightarrow> string set" where
  "consumed s = fst ` bindings s"

definition derived_of :: "lc_state \<Rightarrow> derived" where
  "derived_of s =
     derive (sq s) (se s) (length (pool s)) (ke s \<noteq> None \<or> kv s \<noteq> None) (authority s)
       (recovery s \<or> detected s) (suspended s)"

definition mode :: "lc_state \<Rightarrow> string" where
  "mode s = d_mode (derived_of s)"

text \<open>
  The consequence vector is a dictionary, which the checks compare by its keys, by the types of
  its values and with a stored copy; \<open>pyval\<close> are the values it holds.
\<close>

datatype pyval = PBool bool | PStr string

type_synonym pydict = "(string \<times> pyval) list"

definition consequences :: "lc_state \<Rightarrow> pydict" where
  "consequences s =
     (let d = derived_of s in
      [(''storage'', PBool (d_storage d)),
       (''fresh_allocation'', PBool (d_fresh_allocation d)),
       (''established_vpn'', PStr (d_established_vpn d))])"

lemma consumed_iff: "i \<in> consumed s \<longleftrightarrow> (\<exists>p ob. (i, p, ob) \<in> bindings s)"
  by (force simp: consumed_def)

lemma mode_in_MODES: "mode s \<in> set MODES"
  by (simp add: mode_def derived_of_def derive_mode_in_MODES)

end
