(* ===== verification/ModelEvents.thy ===== *)
theory ModelEvents
  imports ModelState
begin

text \<open>
  \<open>src/qkd_ekm/model/events.py\<close>: the semantic knobs (\<open>Rules\<close>) and the labelled transitions
  \<open>enabled\<close> lists, one definition per family of events in the order of the code. Labels are the
  strings the code builds. \<open>_vpn_objects\<close> parses the binding objects with \<open>int\<close> and raises
  ValueError on any other string, so \<open>enabled\<close> may raise.
\<close>

record rules =
  reject_stale_needs_active :: bool
  ingest_needs_ekm :: bool
  expire_needs_source_down :: bool
  alloc_ekm_needs_source :: bool
  restore_sets_recovery :: bool
  restore_recovery_needs_full :: bool
  authority_only_when_degraded :: bool
  alloc_vpn_needs_no_active :: bool
  vpn_pending_replaceable :: bool
  recover_clears_pending :: bool
  recover_needs_authority :: bool
  dep_toggles_unconditional :: bool
  activate_merged :: bool
  ekm_down_clears_active :: bool
  expire_marks_used :: bool
  suspend_state :: bool
  restoration_detected :: bool
  abandon_pending :: bool
  abandon_consumes_epoch :: bool
  down_clears_pending :: bool
  session_end :: bool
  recover_clears_active :: bool
  fifo_pool :: bool
  alloc_vpn_any_future_epoch :: bool
  reject_stale_per_epoch :: bool

definition base_rules :: rules where
  "base_rules = \<lparr>
     reject_stale_needs_active = True,
     ingest_needs_ekm = False,
     expire_needs_source_down = False,
     alloc_ekm_needs_source = False,
     restore_sets_recovery = True,
     restore_recovery_needs_full = False,
     authority_only_when_degraded = False,
     alloc_vpn_needs_no_active = False,
     vpn_pending_replaceable = False,
     recover_clears_pending = False,
     recover_needs_authority = False,
     dep_toggles_unconditional = False,
     activate_merged = False,
     ekm_down_clears_active = False,
     expire_marks_used = False,
     suspend_state = False,
     restoration_detected = False,
     abandon_pending = False,
     abandon_consumes_epoch = False,
     down_clears_pending = False,
     session_end = False,
     recover_clears_active = False,
     fifo_pool = False,
     alloc_vpn_any_future_epoch = False,
     reject_stale_per_epoch = False \<rparr>"

definition DEFAULT_RULES :: rules where
  "DEFAULT_RULES = base_rules\<lparr>alloc_vpn_any_future_epoch := True, reject_stale_per_epoch := True\<rparr>"

section \<open>Helpers\<close>

definition vpn_objects :: "lc_state \<Rightarrow> int set py" where
  "vpn_objects s =
     (let objs = (\<lambda>(i, p, ob). py_int ob) ` {b \<in> bindings s. fst (snd b) = ''vpn''}
      in if None \<in> objs then Inl ValueError else Inr (the ` objs))"

definition ekm_objects :: "lc_state \<Rightarrow> string set" where
  "ekm_objects s = (\<lambda>(i, p, ob). ob) ` {b \<in> bindings s. fst (snd b) = ''ekm''}"

definition max_default :: "int \<Rightarrow> int set \<Rightarrow> int" where
  "max_default d xs = (if xs = {} then d else Max xs)"

definition pool_add :: "rules \<Rightarrow> string \<Rightarrow> lc_state \<Rightarrow> lc_state" where
  "pool_add r k s =
     (if fifo_pool r then s\<lparr>pool := fs_insert k (pool s), alloc_order := alloc_order s @ [k]\<rparr>
      else s\<lparr>pool := fs_insert k (pool s)\<rparr>)"

definition pool_take :: "rules \<Rightarrow> string \<Rightarrow> lc_state \<Rightarrow> lc_state" where
  "pool_take r k s =
     (if fifo_pool r then
        s\<lparr>pool := fs_remove k (pool s), alloc_order := filter (\<lambda>x. x \<noteq> k) (alloc_order s)\<rparr>
      else s\<lparr>pool := fs_remove k (pool s)\<rparr>)"

definition retained :: "rules \<Rightarrow> lc_state \<Rightarrow> string list" where
  "retained r s = (if fifo_pool r then take 1 (alloc_order s) else sort (pool s))"

definition interrupt :: "rules \<Rightarrow> bool option \<Rightarrow> bool option \<Rightarrow> lc_state \<Rightarrow> lc_state" where
  "interrupt r sq' se' s =
     (let down = s\<lparr>sq := (case sq' of None \<Rightarrow> sq s | Some b \<Rightarrow> b),
                   se := (case se' of None \<Rightarrow> se s | Some b \<Rightarrow> b)\<rparr>
      in if down_clears_pending r then down\<lparr>kp := None\<rparr> else down)"

definition restore :: "rules \<Rightarrow> bool option \<Rightarrow> bool option \<Rightarrow> lc_state \<Rightarrow> lc_state" where
  "restore r sq' se' s =
     (let up = s\<lparr>sq := (case sq' of None \<Rightarrow> sq s | Some b \<Rightarrow> b),
                 se := (case se' of None \<Rightarrow> se s | Some b \<Rightarrow> b)\<rparr>
      in if restore_sets_recovery r \<and> (\<not> restore_recovery_needs_full r \<or> (sq up \<and> se up))
         then (if restoration_detected r then up\<lparr>detected := True\<rparr> else up\<lparr>recovery := True\<rparr>)
         else up)"

section \<open>The families of events\<close>

type_synonym event = "string \<times> lc_state"

definition ingest_events :: "rules \<Rightarrow> lc_state \<Rightarrow> event list" where
  "ingest_events r s =
     (if sq s \<and> (se s \<or> \<not> ingest_needs_ekm r) then
        map (\<lambda>k. (''ingest:'' @ k, pool_add r k s))
          (filter (\<lambda>k. k \<notin> set (pool s) \<and> k \<notin> consumed s \<and> k \<notin> expired s) IDS)
      else [])"

definition expire_events :: "rules \<Rightarrow> lc_state \<Rightarrow> event list" where
  "expire_events r s =
     (if \<not> expire_needs_source_down r \<or> \<not> sq s then
        map (\<lambda>k. (''expire:'' @ k,
               let dropped = pool_take r k s
               in if expire_marks_used r then dropped\<lparr>expired := insert k (expired s)\<rparr> else dropped))
          (retained r s)
      else [])"

definition alloc_ekm_events :: "rules \<Rightarrow> lc_state \<Rightarrow> event list" where
  "alloc_ekm_events r s =
     (if se s \<and> (sq s \<or> \<not> alloc_ekm_needs_source r) then
        concat (map (\<lambda>k.
            map (\<lambda>v. (''alloc_ekm:'' @ k @ '':'' @ v,
                   (pool_take r k s)\<lparr>bindings := insert (k, ''ekm'', v) (bindings s), ke := Some v\<rparr>))
              (filter (\<lambda>v. Some v \<noteq> ke s \<and> v \<notin> ekm_objects s) VERSIONS))
          (retained r s))
      else [])"

definition alloc_vpn_state :: "rules \<Rightarrow> lc_state \<Rightarrow> string \<Rightarrow> int \<Rightarrow> lc_state" where
  "alloc_vpn_state r s k e =
     (let bound = insert (k, ''vpn'', str_int e) (bindings s)
      in if activate_merged r
         then (pool_take r k s)\<lparr>bindings := bound, kp := None, kv := Some (k, e), epoch := e\<rparr>
         else (pool_take r k s)\<lparr>bindings := bound, kp := Some (k, e)\<rparr>)"

definition alloc_vpn_events :: "rules \<Rightarrow> lc_state \<Rightarrow> int \<Rightarrow> event list" where
  "alloc_vpn_events r s nxt =
     (let pending_ok = (kp s = None \<or> vpn_pending_replaceable r);
          active_ok = (kv s = None \<or> \<not> alloc_vpn_needs_no_active r);
          epochs = (if alloc_vpn_any_future_epoch r then [nxt..MAX_EPOCH] else [nxt])
      in if se s \<and> nxt \<le> MAX_EPOCH \<and> pending_ok \<and> active_ok then
           concat (map (\<lambda>k.
               map (\<lambda>e. (''alloc_vpn:'' @ k @
                           (if alloc_vpn_any_future_epoch r then '':'' @ str_int e else []),
                         alloc_vpn_state r s k e))
                 epochs)
             (retained r s))
         else [])"

definition activate_events :: "rules \<Rightarrow> lc_state \<Rightarrow> event list" where
  "activate_events r s =
     (case kp s of
        Some (k, e) \<Rightarrow>
          if \<not> activate_merged r \<and> e > epoch s
          then [(''activate_vpn'', s\<lparr>kv := kp s, epoch := e, kp := None\<rparr>)] else []
      | None \<Rightarrow> [])"

definition abandon_events :: "rules \<Rightarrow> lc_state \<Rightarrow> event list" where
  "abandon_events r s =
     (case kp s of
        Some (k, e) \<Rightarrow>
          if abandon_pending r
          then [(''abandon_pending'',
                 let left = s\<lparr>kp := None\<rparr>
                 in if abandon_consumes_epoch r then left\<lparr>epoch := e, kv := None\<rparr> else left)]
          else []
      | None \<Rightarrow> [])"

definition session_end_events :: "rules \<Rightarrow> lc_state \<Rightarrow> event list" where
  "session_end_events r s =
     (if session_end r \<and> kv s \<noteq> None then [(''session_end'', s\<lparr>kv := None\<rparr>)] else [])"

definition reject_events :: "rules \<Rightarrow> lc_state \<Rightarrow> event list" where
  "reject_events r s =
     (let stale = (if reject_stale_needs_active r then kv s \<noteq> None else epoch s > 0)
      in if stale \<and> reject_stale_per_epoch r
         then map (\<lambda>e. (''reject_stale:'' @ str_int e, s)) [1..epoch s]
         else if stale then [(''reject_stale'', s)] else [])"

definition dependency_events :: "rules \<Rightarrow> lc_state \<Rightarrow> event list" where
  "dependency_events r s =
     (if sq s \<or> dep_toggles_unconditional r
      then [(''src_down'', interrupt r (Some False) None s)] else []) @
     (if \<not> sq s \<or> dep_toggles_unconditional r
      then [(''src_up'', restore r (Some True) None s)] else []) @
     (if se s \<or> dep_toggles_unconditional r
      then [(''ekm_down'',
             let down = interrupt r None (Some False) s
             in if ekm_down_clears_active r then down\<lparr>ke := None\<rparr> else down)] else []) @
     (if \<not> se s \<or> dep_toggles_unconditional r
      then [(''ekm_up'', restore r None (Some True) s)] else [])"

definition authority_events :: "rules \<Rightarrow> lc_state \<Rightarrow> event list" where
  "authority_events r s =
     (let policy_ok = (\<not> authority_only_when_degraded r \<or> mode s \<noteq> ''READY'')
      in if policy_ok then
           (if authority s \<or> dep_toggles_unconditional r
            then [(''authority_withdraw'',
                   let withdrawn = s\<lparr>authority := False\<rparr>
                   in if suspend_state r \<and> mode s \<in> {''BINDING_HOLDOVER'', ''EXHAUSTED''}
                      then withdrawn\<lparr>suspended := True\<rparr> else withdrawn)] else []) @
           (if \<not> authority s \<or> dep_toggles_unconditional r
            then [(''authority_grant'', s\<lparr>authority := True\<rparr>)] else [])
         else [])"

definition reconcile_events :: "rules \<Rightarrow> lc_state \<Rightarrow> event list" where
  "reconcile_events r s =
     (if restoration_detected r \<and> detected s \<and> sq s \<and> se s
      then [(''reconcile'', s\<lparr>detected := False, recovery := True\<rparr>)] else [])"

definition recover_events :: "rules \<Rightarrow> lc_state \<Rightarrow> event list" where
  "recover_events r s =
     (if sq s \<and> se s \<and> recovery s \<and> (authority s \<or> \<not> recover_needs_authority r)
      then [(''recover'',
             let done1 = s\<lparr>recovery := False, suspended := False\<rparr>;
                 done2 = (if recover_clears_pending r then done1\<lparr>kp := None\<rparr> else done1)
             in if recover_clears_active r then done2\<lparr>kv := None\<rparr> else done2)]
      else [])"

section \<open>\<open>enabled\<close>\<close>

definition next_epoch :: "lc_state \<Rightarrow> int set \<Rightarrow> int" where
  "next_epoch s objs = max (max_default 0 objs) (epoch s) + 1"

definition events_of :: "rules \<Rightarrow> lc_state \<Rightarrow> int set \<Rightarrow> event list" where
  "events_of r s objs =
     ingest_events r s @ expire_events r s @ alloc_ekm_events r s @
     alloc_vpn_events r s (next_epoch s objs) @
     activate_events r s @ abandon_events r s @ session_end_events r s @ reject_events r s @
     dependency_events r s @ authority_events r s @ reconcile_events r s @ recover_events r s"

definition enabled :: "rules \<Rightarrow> lc_state \<Rightarrow> event list py" where
  "enabled r s = (case vpn_objects s of Inl e \<Rightarrow> Inl e | Inr objs \<Rightarrow> Inr (events_of r s objs))"

text \<open>The labelled transition relation, and the states it reaches from \<open>initial\<close>.\<close>

inductive lc_step :: "rules \<Rightarrow> lc_state \<Rightarrow> string \<Rightarrow> lc_state \<Rightarrow> bool" for r where
  lc_step: "enabled r s = Inr out \<Longrightarrow> (l, t) \<in> set out \<Longrightarrow> lc_step r s l t"

inductive lc_reachable :: "rules \<Rightarrow> lc_state \<Rightarrow> bool" for r where
  start: "lc_reachable r initial"
| step: "lc_reachable r s \<Longrightarrow> lc_step r s l t \<Longrightarrow> lc_reachable r t"

inductive_simps lc_step_iff: "lc_step r s l t"

end
