(* ===== verification/ModelChecks.thy ===== *)
theory ModelChecks
  imports ModelState
begin

text \<open>
  \<open>src/qkd_ekm/model/checks.py\<close>: the state properties I1..I9 and the transition guards G1..G4, each
  named when it is violated. They read the state fields only, never the transition generator.
  A seeded state (a subclass in \<open>seeded.py\<close>) carries a stored mode and stored consequences, which
  \<open>getattr\<close> finds there and not on a plain state: they are two optional arguments here.
\<close>

definition INVARIANTS :: "(string \<times> string) list" where
  "INVARIANTS =
     [(''I1'', ''Available identifiers remain unique throughout every temporary pool transition.''),
      (''I2'', ''Every consumed identifier appears within at most one persistent purpose binding.''),
      (''I3'', ''A consumed identifier never re-enters the available allocation pool.''),
      (''I4'', ''Every purpose-and-object pair resolves toward at most one consumed identifier.''),
      (''I5'', ''Every active EKM version resolves toward its matching persistent binding.''),
      (''I6'', ''Every pending VPN activation resolves toward a matching fresh purpose binding.''),
      (''I7'', ''Every active VPN state matches its binding and authoritative activation epoch.''),
      (''I8'', ''Every modeled condition resolves toward one derived lifecycle mode.''),
      (''I9'', ''Storage, fresh allocation, and established VPN indicators match dependencies.'')]"

definition GUARDS :: "(string \<times> string) list" where
  "GUARDS =
     [(''G1'', ''Ingestion requires an available QKD source.''),
      (''G2'', ''Fresh allocation requires EKM reachability and retained inventory.''),
      (''G3'', ''Stale VPN rejection preserves authoritative lifecycle state.''),
      (''G4'', ''Recovery reconciliation requires restored dependencies and pending recovery.'')]"

text \<open>Dictionaries compare by their keys and values, whatever their order.\<close>

definition dict_eq :: "pydict \<Rightarrow> pydict \<Rightarrow> bool" where
  "dict_eq a b \<longleftrightarrow> (\<forall>k \<in> set (map fst a) \<union> set (map fst b). map_of a k = map_of b k)"

definition is_bool :: "pyval option \<Rightarrow> bool" where
  "is_bool v = (case v of Some (PBool b) \<Rightarrow> True | _ \<Rightarrow> False)"

definition bad_I1 :: "lc_state \<Rightarrow> bool" where
  "bad_I1 s \<longleftrightarrow>
     length (pool s) \<noteq> length (remdups (pool s)) \<or>
     (alloc_order s \<noteq> [] \<and> sort (alloc_order s) \<noteq> sort (remdups (pool s)))"

definition bad_I2 :: "lc_state \<Rightarrow> bool" where
  "bad_I2 s \<longleftrightarrow> card (bindings s) \<noteq> card (fst ` bindings s)"

definition bad_I3 :: "lc_state \<Rightarrow> bool" where
  "bad_I3 s \<longleftrightarrow>
     (let bound_ids = fst ` bindings s
      in set (pool s) \<inter> bound_ids \<noteq> {} \<or> expired s \<inter> (set (pool s) \<union> bound_ids) \<noteq> {})"

definition bad_I4 :: "lc_state \<Rightarrow> bool" where
  "bad_I4 s \<longleftrightarrow> card (bindings s) \<noteq> card (snd ` bindings s)"

definition bad_I5 :: "lc_state \<Rightarrow> bool" where
  "bad_I5 s \<longleftrightarrow>
     (case ke s of None \<Rightarrow> False
      | Some v \<Rightarrow> \<not> (\<exists>(i, p, ob) \<in> bindings s. p = ''ekm'' \<and> ob = v))"

definition bad_I6 :: "lc_state \<Rightarrow> bool" where
  "bad_I6 s \<longleftrightarrow>
     (case kp s of None \<Rightarrow> False
      | Some (k, e) \<Rightarrow>
          (k, ''vpn'', str_int e) \<notin> bindings s \<or> \<not> (epoch s < e \<and> e \<le> MAX_EPOCH))"

definition bad_I7 :: "bool \<Rightarrow> lc_state \<Rightarrow> bool" where
  "bad_I7 retained_epoch s \<longleftrightarrow>
     (case kv s of
        Some (k, e) \<Rightarrow> (k, ''vpn'', str_int e) \<notin> bindings s \<or> e \<noteq> epoch s
      | None \<Rightarrow> epoch s \<noteq> 0 \<and> \<not> retained_epoch)"

definition bad_I8 :: "string option \<Rightarrow> lc_state \<Rightarrow> bool" where
  "bad_I8 stored_mode s \<longleftrightarrow>
     mode s \<notin> set MODES \<or> (case stored_mode of None \<Rightarrow> False | Some m \<Rightarrow> m \<noteq> mode s)"

definition bad_I9 :: "pydict option \<Rightarrow> lc_state \<Rightarrow> bool" where
  "bad_I9 stored s \<longleftrightarrow>
     (let c = consequences s;
          consistent =
            (set (map fst c) = {''storage'', ''fresh_allocation'', ''established_vpn''} \<and>
             is_bool (map_of c ''storage'') \<and> is_bool (map_of c ''fresh_allocation'') \<and>
             map_of c ''established_vpn'' = Some (PStr ''distinct'') \<and>
             map_of c ''storage'' = Some (PBool (se s)))
      in \<not> consistent \<or> (case stored of None \<Rightarrow> False | Some d \<Rightarrow> \<not> dict_eq (rev d) c))"

definition named :: "bool \<Rightarrow> string \<Rightarrow> string list" where
  "named b name = (if b then [name] else [])"

definition invariants_of ::
  "string option \<Rightarrow> pydict option \<Rightarrow> bool \<Rightarrow> lc_state \<Rightarrow> string list" where
  "invariants_of stored_mode stored retained_epoch s =
     named (bad_I1 s) ''I1'' @ named (bad_I2 s) ''I2'' @ named (bad_I3 s) ''I3'' @
     named (bad_I4 s) ''I4'' @ named (bad_I5 s) ''I5'' @ named (bad_I6 s) ''I6'' @
     named (bad_I7 retained_epoch s) ''I7'' @ named (bad_I8 stored_mode s) ''I8'' @
     named (bad_I9 stored s) ''I9''"

definition invariants :: "bool \<Rightarrow> lc_state \<Rightarrow> string list" where
  "invariants retained_epoch s = invariants_of None None retained_epoch s"

definition guards :: "string \<Rightarrow> lc_state \<Rightarrow> lc_state \<Rightarrow> string list" where
  "guards label s s2 =
     (case partition_at CHR '':'' label of (family, sep, arg) \<Rightarrow>
        named (family = ''ingest'' \<and> \<not> sq s) ''G1'' @
        (if family \<in> {''alloc_ekm'', ''alloc_vpn''} then
           let identifier = hd (split_on CHR '':'' arg)
           in named (\<not> se s \<or> pool s = [] \<or> identifier \<notin> set (pool s)) ''G2''
         else []) @
        named (family = ''reject_stale'' \<and> s2 \<noteq> s) ''G3'' @
        named (family = ''recover'' \<and> \<not> (sq s \<and> se s \<and> recovery s)) ''G4'')"

section \<open>When nothing is violated\<close>

lemma named_eq_Nil [simp]: "named b n = [] \<longleftrightarrow> \<not> b"
  by (simp add: named_def)

lemma set_named [simp]: "set (named b n) = (if b then {n} else {})"
  by (simp add: named_def)

lemma card_image_eq_iff: "finite A \<Longrightarrow> card A = card (f ` A) \<longleftrightarrow> inj_on f A"
  by (metis card_image eq_card_imp_inj_on)

lemma bad_I8_plain [simp]: "\<not> bad_I8 None s"
  by (simp add: bad_I8_def mode_in_MODES)

lemma bad_I9_plain [simp]: "\<not> bad_I9 None s"
  by (auto simp: bad_I9_def consequences_def derived_of_def is_bool_def Let_def)

lemma invariants_Nil_iff:
  "invariants re s = [] \<longleftrightarrow>
     \<not> bad_I1 s \<and> \<not> bad_I2 s \<and> \<not> bad_I3 s \<and> \<not> bad_I4 s \<and> \<not> bad_I5 s \<and> \<not> bad_I6 s \<and> \<not> bad_I7 re s"
  by (simp add: invariants_def invariants_of_def)

lemma not_bad_I5:
  "\<not> bad_I5 s \<longleftrightarrow> (\<forall>v. ke s = Some v \<longrightarrow> (\<exists>i. (i, ''ekm'', v) \<in> bindings s))"
  by (auto simp: bad_I5_def split: option.splits)

lemma not_bad_I6:
  "\<not> bad_I6 s \<longleftrightarrow>
     (\<forall>k e. kp s = Some (k, e) \<longrightarrow>
        (k, ''vpn'', str_int e) \<in> bindings s \<and> epoch s < e \<and> e \<le> MAX_EPOCH)"
  by (auto simp: bad_I6_def split: option.splits)

lemma not_bad_I7:
  "\<not> bad_I7 re s \<longleftrightarrow>
     (kv s = None \<longrightarrow> epoch s = 0 \<or> re) \<and>
     (\<forall>k e. kv s = Some (k, e) \<longrightarrow> (k, ''vpn'', str_int e) \<in> bindings s \<and> e = epoch s)"
  by (auto simp: bad_I7_def split: option.splits)

end
