(* ===== verification/ModelInvariants.thy ===== *)
theory ModelInvariants
  imports ModelEvents ModelChecks
begin

text \<open>
  The inductive invariant of the reference model, for every reading (every value of \<open>Rules\<close>), and
  what it gives: no reachable state violates I1..I9, no transition violates G1..G4, and \<open>enabled\<close>
  never raises. \<open>core_ok\<close> is about pool, bindings, retired identifiers and the FIFO order;
  \<open>refs_ok\<close> about the active version, the pending and the active VPN binding and the epoch.
\<close>

section \<open>The invariant\<close>

definition binding_ok :: "binding \<Rightarrow> bool" where
  "binding_ok b \<longleftrightarrow>
     (case b of (i, p, ob) \<Rightarrow>
        i \<in> set IDS \<and>
        (p = ''ekm'' \<and> ob \<in> set VERSIONS \<or>
         p = ''vpn'' \<and> (\<exists>e \<in> {1..MAX_EPOCH}. ob = str_int e)))"

definition core_ok :: "rules \<Rightarrow> lc_state \<Rightarrow> bool" where
  "core_ok r s \<longleftrightarrow>
     fset_ok (pool s) \<and> set (pool s) \<subseteq> set IDS \<and>
     (\<forall>b \<in> bindings s. binding_ok b) \<and>
     inj_on fst (bindings s) \<and>
     inj_on snd (bindings s) \<and>
     set (pool s) \<inter> consumed s = {} \<and>
     expired s \<subseteq> set IDS \<and> expired s \<inter> (set (pool s) \<union> consumed s) = {} \<and>
     distinct (alloc_order s) \<and> set (alloc_order s) = (if fifo_pool r then set (pool s) else {})"

definition retains :: "rules \<Rightarrow> bool" where
  "retains r \<longleftrightarrow> session_end r \<or> recover_clears_active r \<or> abandon_consumes_epoch r"

definition refs_ok :: "rules \<Rightarrow> lc_state \<Rightarrow> bool" where
  "refs_ok r s \<longleftrightarrow>
     0 \<le> epoch s \<and> epoch s \<le> MAX_EPOCH \<and>
     \<not> bad_I5 s \<and> \<not> bad_I6 s \<and> \<not> bad_I7 (retains r) s"

definition lc_ok :: "rules \<Rightarrow> lc_state \<Rightarrow> bool" where
  "lc_ok r s \<longleftrightarrow> core_ok r s \<and> refs_ok r s"

lemmas ref_defs = refs_ok_def not_bad_I5 not_bad_I6 not_bad_I7

lemma lc_ok_initial: "lc_ok r initial"
  by (simp add: lc_ok_def core_ok_def ref_defs initial_def consumed_def MAX_EPOCH_def)

section \<open>Identifiers move from the pool into one binding\<close>

lemma retained_in_pool: "core_ok r s \<Longrightarrow> k \<in> set (retained r s) \<Longrightarrow> k \<in> set (pool s)"
  by (auto simp: core_ok_def retained_def split: if_splits dest: in_set_takeD)

lemma pool_add_simps [simp]:
  "sq (pool_add r k s) = sq s" "se (pool_add r k s) = se s"
  "bindings (pool_add r k s) = bindings s" "ke (pool_add r k s) = ke s"
  "kp (pool_add r k s) = kp s" "kv (pool_add r k s) = kv s" "epoch (pool_add r k s) = epoch s"
  "expired (pool_add r k s) = expired s" "pool (pool_add r k s) = fs_insert k (pool s)"
  "alloc_order (pool_add r k s) = (if fifo_pool r then alloc_order s @ [k] else alloc_order s)"
  "consumed (pool_add r k s) = consumed s"
  by (auto simp: pool_add_def consumed_def)

lemma pool_take_simps [simp]:
  "sq (pool_take r k s) = sq s" "se (pool_take r k s) = se s"
  "bindings (pool_take r k s) = bindings s" "ke (pool_take r k s) = ke s"
  "kp (pool_take r k s) = kp s" "kv (pool_take r k s) = kv s" "epoch (pool_take r k s) = epoch s"
  "expired (pool_take r k s) = expired s" "pool (pool_take r k s) = fs_remove k (pool s)"
  "alloc_order (pool_take r k s) =
     (if fifo_pool r then filter (\<lambda>x. x \<noteq> k) (alloc_order s) else alloc_order s)"
  "consumed (pool_take r k s) = consumed s"
  by (auto simp: pool_take_def consumed_def)

lemma core_ok_pool_add:
  "core_ok r s \<Longrightarrow> k \<in> set IDS \<Longrightarrow> k \<notin> set (pool s) \<Longrightarrow> k \<notin> consumed s \<Longrightarrow> k \<notin> expired s \<Longrightarrow>
   core_ok r (pool_add r k s)"
  unfolding core_ok_def by auto

lemma core_ok_pool_take: "core_ok r s \<Longrightarrow> core_ok r (pool_take r k s)"
  unfolding core_ok_def by auto

lemma core_ok_frame:
  "core_ok r s \<Longrightarrow> pool t = pool s \<Longrightarrow> bindings t = bindings s \<Longrightarrow> expired t = expired s \<Longrightarrow>
   alloc_order t = alloc_order s \<Longrightarrow> core_ok r t"
  by (simp add: core_ok_def consumed_def)

lemma core_ok_expire:
  "core_ok r s \<Longrightarrow> k \<in> set (pool s) \<Longrightarrow>
   core_ok r ((pool_take r k s)\<lparr>expired := insert k (expired s)\<rparr>)"
  unfolding core_ok_def by (auto simp: consumed_def)

lemma inj_on_insert_fresh:
  "inj_on f A \<Longrightarrow> f x \<notin> f ` A \<Longrightarrow> inj_on f (insert x A)"
  by (auto simp: inj_on_insert)

lemma core_ok_bind:
  assumes ok: "core_ok r s" and k: "k \<in> set (pool s)" and b: "binding_ok (k, p, ob)"
    and fresh: "\<And>i. (i, p, ob) \<notin> bindings s"
    and t: "pool t = fs_remove k (pool s)" "bindings t = insert (k, p, ob) (bindings s)"
      "expired t = expired s"
      "alloc_order t = (if fifo_pool r then filter (\<lambda>x. x \<noteq> k) (alloc_order s) else alloc_order s)"
  shows "core_ok r t"
proof -
  have nk: "k \<notin> consumed s" using ok k by (auto simp: core_ok_def)
  then have "inj_on fst (insert (k, p, ob) (bindings s))"
    using ok by (intro inj_on_insert_fresh) (auto simp: core_ok_def consumed_def)
  moreover have "inj_on snd (insert (k, p, ob) (bindings s))"
    using ok fresh by (intro inj_on_insert_fresh) (auto simp: core_ok_def)
  moreover have "consumed t = insert k (consumed s)" using t by (simp add: consumed_def)
  ultimately show ?thesis using ok k b t unfolding core_ok_def by auto
qed


section \<open>The bindings are finite and their VPN objects are numbers\<close>

definition binding_universe :: "binding set" where
  "binding_universe =
     set IDS \<times> ({''ekm''} \<times> set VERSIONS \<union> {''vpn''} \<times> str_int ` {1..MAX_EPOCH})"

lemma finite_binding_universe: "finite binding_universe"
  by (simp add: binding_universe_def)

lemma bindings_in_universe: "core_ok r s \<Longrightarrow> bindings s \<subseteq> binding_universe"
  by (auto simp: core_ok_def binding_ok_def binding_universe_def)

lemma finite_bindings: "core_ok r s \<Longrightarrow> finite (bindings s)"
  using bindings_in_universe finite_binding_universe finite_subset by blast

lemma vpn_object_is_number:
  "core_ok r s \<Longrightarrow> (i, ''vpn'', ob) \<in> bindings s \<Longrightarrow> \<exists>e. 1 \<le> e \<and> e \<le> MAX_EPOCH \<and> ob = str_int e"
  by (fastforce simp: core_ok_def binding_ok_def)

lemma vpn_objects_total:
  assumes ok: "core_ok r s"
  shows "vpn_objects s = Inr {e. \<exists>i. (i, ''vpn'', str_int e) \<in> bindings s}"
proof -
  have none: "None \<notin> (\<lambda>(i, p, ob). py_int ob) ` {b \<in> bindings s. fst (snd b) = ''vpn''}"
    using vpn_object_is_number [OF ok] by fastforce
  have "the ` (\<lambda>(i, p, ob). py_int ob) ` {b \<in> bindings s. fst (snd b) = ''vpn''}
        = {e. \<exists>i. (i, ''vpn'', str_int e) \<in> bindings s}"
    using vpn_object_is_number [OF ok] by (fastforce simp: image_iff)
  with none show ?thesis by (simp add: vpn_objects_def Let_def)
qed

lemma enabled_total:
  "core_ok r s \<Longrightarrow>
   enabled r s = Inr (events_of r s {e. \<exists>i. (i, ''vpn'', str_int e) \<in> bindings s})"
  by (simp add: enabled_def vpn_objects_total)

lemma next_epoch_fresh:
  assumes ok: "core_ok r s" and objs: "vpn_objects s = Inr objs" and e: "next_epoch s objs \<le> e"
  shows "(i, ''vpn'', str_int e) \<notin> bindings s" "epoch s < e" "0 < e"
proof -
  have objs': "objs = {e. \<exists>i. (i, ''vpn'', str_int e) \<in> bindings s}"
    using vpn_objects_total [OF ok] objs by simp
  have "objs \<subseteq> {1..MAX_EPOCH}"
    using vpn_object_is_number [OF ok] by (fastforce simp: objs')
  then have fin: "finite objs" and pos: "\<And>e. e \<in> objs \<Longrightarrow> 1 \<le> e" by (auto intro: finite_subset)
  have d: "max_default 0 objs < e" "epoch s < e" using e by (auto simp: next_epoch_def)
  then show "epoch s < e" by simp
  have "0 \<le> max_default 0 objs"
  proof (cases "objs = {}")
    case False
    then have "1 \<le> Max objs" using Max_in [OF fin] pos by blast
    with False show ?thesis by (simp add: max_default_def)
  qed (simp add: max_default_def)
  with d show "0 < e" by simp
  show "(i, ''vpn'', str_int e) \<notin> bindings s"
  proof
    assume "(i, ''vpn'', str_int e) \<in> bindings s"
    then have "e \<in> objs" by (auto simp: objs')
    then have "e \<le> max_default 0 objs" using fin by (auto simp: max_default_def)
    with d show False by simp
  qed
qed

section \<open>Every family of events keeps the invariant\<close>

lemma bad_I5_frame:
  "\<not> bad_I5 s \<Longrightarrow> bindings s \<subseteq> bindings t \<Longrightarrow> ke t = ke s \<or> ke t = None \<Longrightarrow> \<not> bad_I5 t"
  unfolding not_bad_I5 by fastforce

lemma bad_I6_frame:
  "\<not> bad_I6 s \<Longrightarrow> bindings s \<subseteq> bindings t \<Longrightarrow> epoch t = epoch s \<Longrightarrow> kp t = kp s \<or> kp t = None \<Longrightarrow>
   \<not> bad_I6 t"
  unfolding not_bad_I6 by fastforce

lemma bad_I7_frame:
  assumes ok: "\<not> bad_I7 re s" and sub: "bindings s \<subseteq> bindings t" and ep: "epoch t = epoch s"
    and kv: "kv t = kv s \<or> kv t = None \<and> re"
  shows "\<not> bad_I7 re t"
proof (cases "kv t")
  case None
  then have "epoch s = 0 \<or> re" using ok kv by (auto simp: not_bad_I7)
  with None ep show ?thesis by (simp add: not_bad_I7)
next
  case (Some b)
  then have "kv s = Some b" using kv by simp
  with ok sub ep Some show ?thesis by (cases b) (auto simp: not_bad_I7)
qed

lemma refs_ok_frame:
  assumes "refs_ok r s" "bindings s \<subseteq> bindings t" "epoch t = epoch s"
    "kv t = kv s \<or> kv t = None \<and> retains r"
    "ke t = ke s \<or> ke t = None" "kp t = kp s \<or> kp t = None"
  shows "refs_ok r t"
  unfolding refs_ok_def
proof (intro conjI)
  from assms(1) have s: "0 \<le> epoch s" "epoch s \<le> MAX_EPOCH" "\<not> bad_I5 s" "\<not> bad_I6 s"
    "\<not> bad_I7 (retains r) s" by (simp_all add: refs_ok_def)
  show "0 \<le> epoch t" "epoch t \<le> MAX_EPOCH" using s assms(3) by simp_all
  show "\<not> bad_I5 t" using s(3) assms(2,5) by (rule bad_I5_frame)
  show "\<not> bad_I6 t" using s(4) assms(2,3,6) by (rule bad_I6_frame)
  show "\<not> bad_I7 (retains r) t" using s(5) assms(2,3,4) by (rule bad_I7_frame)
qed

lemma lc_ok_frame:
  assumes "lc_ok r s" "pool t = pool s" "bindings t = bindings s" "expired t = expired s"
    "alloc_order t = alloc_order s" "epoch t = epoch s"
    "kv t = kv s \<or> kv t = None \<and> retains r"
    "ke t = ke s \<or> ke t = None" "kp t = kp s \<or> kp t = None"
  shows "lc_ok r t"
  using assms core_ok_frame [of r s t] refs_ok_frame [of r s t] by (simp add: lc_ok_def)

lemma lc_okI: "core_ok r t \<Longrightarrow> refs_ok r t \<Longrightarrow> lc_ok r t"
  by (simp add: lc_ok_def)

lemma lc_ok_ingest: "(l, t) \<in> set (ingest_events r s) \<Longrightarrow> lc_ok r s \<Longrightarrow> lc_ok r t"
  by (auto simp: ingest_events_def lc_ok_def split: if_splits
      intro!: core_ok_pool_add refs_ok_frame [of r s])

lemma lc_ok_expire:
  assumes t: "(l, t) \<in> set (expire_events r s)" and ok: "lc_ok r s"
  shows "lc_ok r t"
proof (rule lc_okI)
  have core: "core_ok r s" using ok by (simp add: lc_ok_def)
  show "core_ok r t"
    using t retained_in_pool [OF core] core_ok_expire [OF core] core_ok_pool_take [OF core]
    by (auto simp: expire_events_def Let_def split: if_splits)
  show "refs_ok r t"
    using ok t by (auto simp: lc_ok_def expire_events_def Let_def split: if_splits
        intro!: refs_ok_frame [of r s])
qed

lemma lc_ok_alloc_ekm:
  assumes t: "(l, t) \<in> set (alloc_ekm_events r s)" and ok: "lc_ok r s"
  shows "lc_ok r t"
proof -
  from t obtain k v where k: "k \<in> set (retained r s)" and v: "v \<in> set VERSIONS" "v \<notin> ekm_objects s"
    and t': "t = (pool_take r k s)\<lparr>bindings := insert (k, ''ekm'', v) (bindings s), ke := Some v\<rparr>"
    by (auto simp: alloc_ekm_events_def split: if_splits)
  have core: "core_ok r s" using ok by (simp add: lc_ok_def)
  have kp: "k \<in> set (pool s)" using retained_in_pool [OF core k] .
  have fresh: "(i, ''ekm'', v) \<notin> bindings s" for i using v by (force simp: ekm_objects_def)
  have "binding_ok (k, ''ekm'', v)"
    using core kp v by (auto simp: binding_ok_def core_ok_def)
  then have "core_ok r t" by (rule core_ok_bind [OF core kp _ fresh]) (simp_all add: t')
  moreover have "refs_ok r t"
    using ok t' unfolding lc_ok_def ref_defs by (auto split: option.splits)
  ultimately show ?thesis by (simp add: lc_ok_def)
qed

lemma lc_ok_alloc_vpn:
  assumes t: "(l, t) \<in> set (alloc_vpn_events r s (next_epoch s objs))" and ok: "lc_ok r s"
    and objs: "vpn_objects s = Inr objs"
  shows "lc_ok r t"
proof -
  from t obtain k e where k: "k \<in> set (retained r s)"
    and e: "next_epoch s objs \<le> e" "e \<le> MAX_EPOCH"
    and t': "t = alloc_vpn_state r s k e"
    by (auto simp: alloc_vpn_events_def Let_def split: if_splits)
  have core: "core_ok r s" using ok by (simp add: lc_ok_def)
  have kp: "k \<in> set (pool s)" using retained_in_pool [OF core k] .
  note fresh = next_epoch_fresh [OF core objs e(1)]
  have "binding_ok (k, ''vpn'', str_int e)"
    using core kp e fresh(3) by (auto simp: binding_ok_def core_ok_def)
  then have "core_ok r t"
    by (rule core_ok_bind [OF core kp _ fresh(1)]) (simp_all add: t' alloc_vpn_state_def Let_def)
  moreover have "refs_ok r t"
    using ok e fresh(2,3) unfolding lc_ok_def ref_defs t' alloc_vpn_state_def Let_def
    by (auto split: option.splits)
  ultimately show ?thesis by (simp add: lc_ok_def)
qed

lemma lc_ok_activate:
  assumes t: "(l, t) \<in> set (activate_events r s)" and ok: "lc_ok r s"
  shows "lc_ok r t"
proof -
  from t obtain k e where kp: "kp s = Some (k, e)" and "epoch s < e"
    and t': "t = s\<lparr>kv := kp s, epoch := e, kp := None\<rparr>"
    by (cases "kp s") (auto simp: activate_events_def split: if_splits)
  then have "refs_ok r t" using ok by (auto simp: lc_ok_def ref_defs)
  moreover have "core_ok r t" using ok t' core_ok_frame [of r s t] by (simp add: lc_ok_def)
  ultimately show ?thesis by (simp add: lc_ok_def)
qed

lemma lc_ok_abandon:
  assumes t: "(l, t) \<in> set (abandon_events r s)" and ok: "lc_ok r s"
  shows "lc_ok r t"
proof (cases "abandon_consumes_epoch r")
  case True
  with t obtain k e where kp: "kp s = Some (k, e)"
    and t': "t = s\<lparr>kp := None, epoch := e, kv := None\<rparr>"
    by (cases "kp s") (auto simp: abandon_events_def Let_def split: if_splits)
  then have "refs_ok r t" using ok True by (auto simp: lc_ok_def ref_defs retains_def)
  moreover have "core_ok r t" using ok t' core_ok_frame [of r s t] by (simp add: lc_ok_def)
  ultimately show ?thesis by (simp add: lc_ok_def)
next
  case False
  with t have "t = s\<lparr>kp := None\<rparr>"
    by (cases "kp s") (auto simp: abandon_events_def Let_def split: if_splits)
  then show ?thesis by (intro lc_ok_frame [OF ok]) simp_all
qed

lemma lc_ok_session_end: "(l, t) \<in> set (session_end_events r s) \<Longrightarrow> lc_ok r s \<Longrightarrow> lc_ok r t"
  by (rule lc_ok_frame [of r s t]) (auto simp: session_end_events_def retains_def split: if_splits)

lemma lc_ok_reject: "(l, t) \<in> set (reject_events r s) \<Longrightarrow> lc_ok r s \<Longrightarrow> lc_ok r t"
  by (auto simp: reject_events_def Let_def split: if_splits)

lemma interrupt_simps [simp]:
  "pool (interrupt r a b s) = pool s" "bindings (interrupt r a b s) = bindings s"
  "expired (interrupt r a b s) = expired s" "alloc_order (interrupt r a b s) = alloc_order s"
  "epoch (interrupt r a b s) = epoch s" "kv (interrupt r a b s) = kv s"
  "ke (interrupt r a b s) = ke s"
  "kp (interrupt r a b s) = (if down_clears_pending r then None else kp s)"
  by (simp_all add: interrupt_def Let_def)

lemma restore_simps [simp]:
  "pool (restore r a b s) = pool s" "bindings (restore r a b s) = bindings s"
  "expired (restore r a b s) = expired s" "alloc_order (restore r a b s) = alloc_order s"
  "epoch (restore r a b s) = epoch s" "kv (restore r a b s) = kv s"
  "ke (restore r a b s) = ke s" "kp (restore r a b s) = kp s"
  by (simp_all add: restore_def Let_def)

lemma lc_ok_dependency:
  assumes t: "(l, t) \<in> set (dependency_events r s)" and ok: "lc_ok r s"
  shows "lc_ok r t"
proof -
  have "t \<in> {interrupt r (Some False) None s, restore r (Some True) None s,
      interrupt r None (Some False) s, (interrupt r None (Some False) s)\<lparr>ke := None\<rparr>,
      restore r None (Some True) s}"
    using t by (auto simp: dependency_events_def Let_def split: if_splits)
  then show ?thesis by (elim insertE emptyE) (rule lc_ok_frame [OF ok], simp_all)+
qed

lemma lc_ok_authority: "(l, t) \<in> set (authority_events r s) \<Longrightarrow> lc_ok r s \<Longrightarrow> lc_ok r t"
  by (rule lc_ok_frame [of r s t]) (auto simp: authority_events_def Let_def split: if_splits)

lemma lc_ok_reconcile: "(l, t) \<in> set (reconcile_events r s) \<Longrightarrow> lc_ok r s \<Longrightarrow> lc_ok r t"
  by (rule lc_ok_frame [of r s t]) (auto simp: reconcile_events_def split: if_splits)

lemma lc_ok_recover: "(l, t) \<in> set (recover_events r s) \<Longrightarrow> lc_ok r s \<Longrightarrow> lc_ok r t"
  by (rule lc_ok_frame [of r s t])
     (auto simp: recover_events_def retains_def Let_def split: if_splits)

lemmas lc_ok_families =
  lc_ok_ingest lc_ok_expire lc_ok_alloc_ekm lc_ok_alloc_vpn lc_ok_activate lc_ok_abandon
  lc_ok_session_end lc_ok_reject lc_ok_dependency lc_ok_authority lc_ok_reconcile lc_ok_recover

lemma lc_ok_events:
  "(l, t) \<in> set (events_of r s objs) \<Longrightarrow> vpn_objects s = Inr objs \<Longrightarrow> lc_ok r s \<Longrightarrow> lc_ok r t"
  unfolding events_of_def set_append by (blast intro: lc_ok_families)

lemma lc_step_ok: "lc_step r s l t \<Longrightarrow> lc_ok r s \<Longrightarrow> lc_ok r t"
  by (auto simp: lc_step_iff enabled_def split: sum.splits intro: lc_ok_events)

lemma lc_reachable_ok: "lc_reachable r s \<Longrightarrow> lc_ok r s"
  by (induction rule: lc_reachable.induct) (auto intro: lc_ok_initial lc_step_ok)


section \<open>What the invariant says of the checks\<close>

lemma core_ok_checks:
  assumes ok: "core_ok r s"
  shows "\<not> bad_I1 s" "\<not> bad_I2 s" "\<not> bad_I3 s" "\<not> bad_I4 s"
proof -
  have pool: "distinct (pool s)" "sort (pool s) = pool s"
    using ok by (auto simp: core_ok_def fset_ok_sort fset_ok_def)
  have ord: "sort (alloc_order s) = pool s" if "alloc_order s \<noteq> []"
  proof -
    have "set (alloc_order s) = set (pool s)" "distinct (alloc_order s)"
      using ok that by (auto simp: core_ok_def split: if_splits)
    then show ?thesis
      using ok by (intro fset_ok_eq) (auto simp: core_ok_def fset_ok_def)
  qed
  show "\<not> bad_I1 s" using pool ord by (auto simp: bad_I1_def distinct_remdups_id)
  show "\<not> bad_I2 s" "\<not> bad_I4 s"
    using ok finite_bindings [OF ok] by (simp_all add: bad_I2_def bad_I4_def card_image_eq_iff core_ok_def)
  show "\<not> bad_I3 s" using ok by (simp add: bad_I3_def core_ok_def consumed_def Let_def)
qed

lemma lc_ok_invariants: "lc_ok r s \<Longrightarrow> invariants (retains r) s = []"
  using core_ok_checks by (auto simp: lc_ok_def refs_ok_def invariants_Nil_iff)

section \<open>The guards, label by label\<close>

lemma IDS_no_colon: "k \<in> set IDS \<Longrightarrow> CHR '':'' \<notin> set k"
  by (auto simp: IDS_def)

lemma guards_tagged:
  assumes "CHR '':'' \<notin> set f"
  shows "guards (f @ CHR '':'' # arg) s t = [] \<longleftrightarrow>
     (f = ''ingest'' \<longrightarrow> sq s) \<and>
     (f \<in> {''alloc_ekm'', ''alloc_vpn''} \<longrightarrow>
        se s \<and> takeWhile (\<lambda>x. x \<noteq> CHR '':'') arg \<in> set (pool s)) \<and>
     (f = ''reject_stale'' \<longrightarrow> t = s) \<and>
     (f = ''recover'' \<longrightarrow> sq s \<and> se s \<and> recovery s)"
  using partition_at_prefix [OF assms, of arg] by (auto simp: guards_def hd_split_on Let_def)

lemma guards_plain:
  assumes "CHR '':'' \<notin> set f" "f \<notin> {''ingest'', ''alloc_ekm'', ''alloc_vpn''}"
  shows "guards f s t = [] \<longleftrightarrow>
     (f = ''reject_stale'' \<longrightarrow> t = s) \<and> (f = ''recover'' \<longrightarrow> sq s \<and> se s \<and> recovery s)"
  using partition_at_word [OF assms(1)] assms(2) by (auto simp: guards_def)

lemma guards_ingest: "(l, t) \<in> set (ingest_events r s) \<Longrightarrow> guards l s t = []"
  using guards_tagged [of "''ingest''"] by (auto simp: ingest_events_def split: if_splits)

lemma guards_expire: "(l, t) \<in> set (expire_events r s) \<Longrightarrow> guards l s t = []"
  using guards_tagged [of "''expire''"] by (auto simp: expire_events_def split: if_splits)

lemma guards_alloc:
  assumes ok: "core_ok r s" and k: "k \<in> set (retained r s)" and se: "se s"
    and f: "f \<in> {''alloc_ekm'', ''alloc_vpn''}" and rest: "rest = [] \<or> hd rest = CHR '':''"
  shows "guards (f @ CHR '':'' # k @ rest) s t = []"
proof -
  have kp: "k \<in> set (pool s)" using retained_in_pool [OF ok k] .
  then have nc: "CHR '':'' \<notin> set k" using ok IDS_no_colon by (auto simp: core_ok_def)
  have "takeWhile (\<lambda>x. x \<noteq> CHR '':'') (k @ rest) = k"
    using nc rest takeWhile_until [OF nc] by (cases rest) (auto simp: takeWhile_eq_all_conv)
  then show ?thesis using f se kp by (subst guards_tagged) auto
qed

lemma guards_alloc_ekm:
  "(l, t) \<in> set (alloc_ekm_events r s) \<Longrightarrow> core_ok r s \<Longrightarrow> guards l s t = []"
  using guards_alloc [where f = "''alloc_ekm''" and t = t]
  by (fastforce simp: alloc_ekm_events_def split: if_splits)

lemma guards_alloc_vpn:
  "(l, t) \<in> set (alloc_vpn_events r s n) \<Longrightarrow> core_ok r s \<Longrightarrow> guards l s t = []"
  using guards_alloc [where f = "''alloc_vpn''" and t = t and rest = "[]"]
    guards_alloc [where f = "''alloc_vpn''" and t = t and rest = "CHR '':'' # str_int e" for e]
  by (fastforce simp: alloc_vpn_events_def Let_def split: if_splits)

lemma guards_reject: "(l, t) \<in> set (reject_events r s) \<Longrightarrow> guards l s t = []"
  using guards_tagged [of "''reject_stale''"] guards_plain [of "''reject_stale''"]
  by (auto simp: reject_events_def Let_def split: if_splits)

lemma guards_recover: "(l, t) \<in> set (recover_events r s) \<Longrightarrow> guards l s t = []"
  using guards_plain [of "''recover''"] by (auto simp: recover_events_def split: if_splits)

lemma guards_other:
  "(l, t) \<in> set (activate_events r s @ abandon_events r s @ session_end_events r s @
     dependency_events r s @ authority_events r s @ reconcile_events r s) \<Longrightarrow> guards l s t = []"
proof -
  assume "(l, t) \<in> set (activate_events r s @ abandon_events r s @ session_end_events r s @
     dependency_events r s @ authority_events r s @ reconcile_events r s)"
  then have "l \<in> {''activate_vpn'', ''abandon_pending'', ''session_end'', ''src_down'', ''src_up'',
      ''ekm_down'', ''ekm_up'', ''authority_withdraw'', ''authority_grant'', ''reconcile''}"
    by (auto simp: activate_events_def abandon_events_def session_end_events_def
        dependency_events_def authority_events_def reconcile_events_def Let_def
        split: if_splits option.splits)
  then show ?thesis using guards_plain [of l s t] by auto
qed

lemma guards_events: "(l, t) \<in> set (events_of r s objs) \<Longrightarrow> core_ok r s \<Longrightarrow> guards l s t = []"
  unfolding events_of_def using guards_other
  by (auto dest: guards_ingest guards_expire guards_alloc_ekm guards_alloc_vpn guards_reject
      guards_recover)

lemma lc_step_guards: "lc_step r s l t \<Longrightarrow> lc_ok r s \<Longrightarrow> guards l s t = []"
  by (auto simp: lc_step_iff enabled_def lc_ok_def split: sum.splits intro: guards_events)

end
