(* ===== verification/ModelEnumerate.thy ===== *)
theory ModelEnumerate
  imports ModelInvariants
begin

text \<open>
  \<open>src/qkd_ekm/model/enumerate.py\<close>: the exhaustive breadth-first enumeration \<open>run\<close> and its
  \<open>Result\<close>. The dictionaries \<open>depth\<close> and \<open>index\<close> are association lists in insertion order, the set
  of edges is a set. The loop is a \<open>partial_function\<close>: that it returns is a theorem. The loop is
  written over the functions it calls (\<open>en\<close> for \<open>enabled\<close>, \<open>chk\<close>, \<open>grd\<close> for the checks); \<open>run\<close>
  instantiates it, and the locale \<open>finite_lts\<close> holds what breadth-first search needs of them.
\<close>

section \<open>The search\<close>

datatype violation =
    InvariantViolation string nat
  | GuardViolation string nat string

record 's search =
  depth :: "('s \<times> nat) list"
  index :: "('s \<times> nat) list"
  edges :: "(nat \<times> string \<times> nat) set"
  violations :: "violation list"
  queue :: "'s list"
  aborted :: bool

text \<open>One \<open>(label, nxt)\<close> of the inner loop, from the state \<open>s\<close> numbered \<open>src\<close>.\<close>

definition visit ::
  "('s \<Rightarrow> string list) \<Rightarrow> (string \<Rightarrow> 's \<Rightarrow> 's \<Rightarrow> string list) \<Rightarrow> 's \<Rightarrow> nat \<Rightarrow> nat \<Rightarrow>
   string \<times> 's \<Rightarrow> 's search \<Rightarrow> 's search" where
  "visit chk grd s src d ev b =
     (case ev of (label, nxt) \<Rightarrow>
        let b1 = b\<lparr>violations := violations b @ map (\<lambda>name. GuardViolation name src label) (grd label s nxt)\<rparr>
        in case map_of (index b1) nxt of
             Some known \<Rightarrow> b1\<lparr>edges := insert (src, label, known) (edges b1)\<rparr>
           | None \<Rightarrow>
               let known = length (index b1)
               in b1\<lparr>index := index b1 @ [(nxt, known)],
                     depth := depth b1 @ [(nxt, d)],
                     violations := violations b1 @ map (\<lambda>name. InvariantViolation name known) (chk nxt),
                     queue := queue b1 @ [nxt],
                     edges := insert (src, label, known) (edges b1)\<rparr>)"

text \<open>One round of the outer loop.\<close>

definition search_round ::
  "('s \<Rightarrow> (string \<times> 's) list py) \<Rightarrow> ('s \<Rightarrow> string list) \<Rightarrow> (string \<Rightarrow> 's \<Rightarrow> 's \<Rightarrow> string list) \<Rightarrow>
   nat option \<Rightarrow> 's search \<Rightarrow> 's search py" where
  "search_round en chk grd max_states b =
     (case queue b of
        [] \<Rightarrow> Inl IndexError
      | s # q \<Rightarrow>
          (case (map_of (index b) s, map_of (depth b) s) of
             (Some src, Some d0) \<Rightarrow>
               (case en s of
                  Inl e \<Rightarrow> Inl e
                | Inr out \<Rightarrow>
                    let b' = fold (visit chk grd s src (d0 + 1)) out (b\<lparr>queue := q\<rparr>)
                    in Inr (case max_states of
                          None \<Rightarrow> b'
                        | Some m \<Rightarrow> if length (index b') > m then b'\<lparr>aborted := True\<rparr> else b'))
           | _ \<Rightarrow> Inl KeyError))"

partial_function (option) search_loop ::
  "('s \<Rightarrow> (string \<times> 's) list py) \<Rightarrow> ('s \<Rightarrow> string list) \<Rightarrow> (string \<Rightarrow> 's \<Rightarrow> 's \<Rightarrow> string list) \<Rightarrow>
   nat option \<Rightarrow> 's search \<Rightarrow> 's search py option" where
  "search_loop en chk grd max_states b =
     (if queue b = [] \<or> aborted b then Some (Inr b)
      else case search_round en chk grd max_states b of
             Inl e \<Rightarrow> Some (Inl e)
           | Inr b' \<Rightarrow> search_loop en chk grd max_states b')"

definition search_start :: "('s \<Rightarrow> string list) \<Rightarrow> 's \<Rightarrow> 's search" where
  "search_start chk start =
     \<lparr> depth = [(start, 0)], index = [(start, 0)], edges = {},
       violations = map (\<lambda>name. InvariantViolation name 0) (chk start),
       queue = [start], aborted = False \<rparr>"

section \<open>\<open>run\<close> and its result\<close>

record result =
  r_states :: "(lc_state \<times> nat) list"
  r_transitions :: "(nat \<times> string \<times> nat) list"
  r_max_depth :: nat
  r_violations :: "violation list"
  r_index :: "(lc_state \<times> nat) list"
  r_aborted :: bool
  r_rules :: rules

definition run :: "rules \<Rightarrow> nat option \<Rightarrow> result py option" where
  "run r max_states =
     (let retained_epoch = (session_end r \<or> recover_clears_active r \<or> abandon_consumes_epoch r)
      in map_option (map_sum id (\<lambda>b.
           \<lparr> r_states = depth b, r_transitions = sorted_list_of_set (edges b),
             r_max_depth = Max (snd ` set (depth b)), r_violations = violations b,
             r_index = index b, r_aborted = aborted b, r_rules = r \<rparr>))
         (search_loop (enabled r) (invariants retained_epoch) guards max_states
            (search_start (invariants retained_epoch) initial)))"

section \<open>What breadth-first search computes\<close>

text \<open>\<open>reach_in en start n t\<close>: a path of \<open>n\<close> labelled transitions leads from \<open>start\<close> to \<open>t\<close>.\<close>

fun reach_in :: "('s \<Rightarrow> (string \<times> 's) list py) \<Rightarrow> 's \<Rightarrow> nat \<Rightarrow> 's \<Rightarrow> bool" where
  "reach_in en start 0 t \<longleftrightarrow> t = start"
| "reach_in en start (Suc n) t \<longleftrightarrow>
     (\<exists>s out l. reach_in en start n s \<and> en s = Inr out \<and> (l, t) \<in> set out)"

text \<open>The labelled transition \<open>u --l--> t\<close> is recorded: both ends are numbered, the edge is in the
  set, and \<open>t\<close> is at most one level deeper than \<open>u\<close>.\<close>

definition recorded :: "'s search \<Rightarrow> 's \<Rightarrow> string \<Rightarrow> 's \<Rightarrow> bool" where
  "recorded b u l t \<longleftrightarrow>
     (\<exists>i j du dt. map_of (index b) u = Some i \<and> map_of (index b) t = Some j \<and>
        map_of (depth b) u = Some du \<and> map_of (depth b) t = Some dt \<and> dt \<le> Suc du \<and>
        (i, l, j) \<in> edges b)"

definition extends :: "'s search \<Rightarrow> 's search \<Rightarrow> bool" where
  "extends b b' \<longleftrightarrow>
     map_of (index b) \<subseteq>\<^sub>m map_of (index b') \<and> map_of (depth b) \<subseteq>\<^sub>m map_of (depth b') \<and>
     edges b \<subseteq> edges b'"

lemma extends_refl: "extends b b"
  by (simp add: extends_def)

lemma extends_trans: "extends a b \<Longrightarrow> extends b c \<Longrightarrow> extends a c"
  by (auto simp: extends_def intro: map_le_trans)

lemma map_leD: "m \<subseteq>\<^sub>m m' \<Longrightarrow> m x = Some y \<Longrightarrow> m' x = Some y"
  by (metis domI map_le_def)

lemma recorded_extends: "recorded b u l t \<Longrightarrow> extends b b' \<Longrightarrow> recorded b' u l t"
  unfolding recorded_def extends_def by (meson map_leD subsetD)

lemma map_le_append_fresh: "k \<notin> fst ` set xs \<Longrightarrow> map_of xs \<subseteq>\<^sub>m map_of (xs @ [(k, v)])"
  by (auto simp: map_le_def map_of_append map_add_def split: option.splits)

text \<open>
  The interface of the search: a finite set \<open>U\<close> of states that holds the start and that \<open>en\<close>, which
  never raises there, never leaves; and states and transitions that pass the checks.
\<close>

locale finite_lts =
  fixes en :: "'s \<Rightarrow> (string \<times> 's) list py"
    and start :: 's
    and U :: "'s set"
  assumes fin: "finite U"
    and start_in: "start \<in> U"
    and total: "s \<in> U \<Longrightarrow> \<exists>out. en s = Inr out \<and> snd ` set out \<subseteq> U"
begin

lemma reach_in_U: "reach_in en start n t \<Longrightarrow> t \<in> U"
proof (induction n arbitrary: t)
  case 0
  then show ?case using start_in by simp
next
  case (Suc n)
  then obtain s out l where "reach_in en start n s" "en s = Inr out" "(l, t) \<in> set out" by auto
  with Suc.IH [of s] total [of s] show ?case by (auto simp: image_subset_iff)
qed

text \<open>
  The part of the invariant that holds inside a round too. \<open>d\<close> bounds the depths found so far,
  \<open>xs\<close> is the order of discovery.
\<close>

definition base_ok :: "'s search \<Rightarrow> 's list \<Rightarrow> nat \<Rightarrow> bool" where
  "base_ok b xs d \<longleftrightarrow>
     distinct xs \<and> depth b \<noteq> [] \<and> hd (depth b) = (start, 0) \<and> set xs \<subseteq> U \<and>
     index b = zip xs [0..<length xs] \<and> map fst (depth b) = xs \<and>
     sorted (map snd (depth b)) \<and> (\<forall>(t, dt) \<in> set (depth b). dt \<le> d \<and> reach_in en start dt t) \<and>
     (\<forall>(i, l, j) \<in> edges b. \<exists>u t out.
        map_of (index b) u = Some i \<and> map_of (index b) t = Some j \<and> en u = Inr out \<and> (l, t) \<in> set out)"

definition closed_for :: "'s search \<Rightarrow> 's \<Rightarrow> bool" where
  "closed_for b u \<longleftrightarrow> (\<forall>out l t. en u = Inr out \<longrightarrow> (l, t) \<in> set out \<longrightarrow> recorded b u l t)"

lemma closed_for_extends: "closed_for b u \<Longrightarrow> extends b b' \<Longrightarrow> closed_for b' u"
  by (auto simp: closed_for_def intro: recorded_extends)

lemma base_ok_aborted: "base_ok (b\<lparr>aborted := x\<rparr>) xs d \<longleftrightarrow> base_ok b xs d"
  by (simp add: base_ok_def)

lemma closed_for_aborted: "closed_for (b\<lparr>aborted := x\<rparr>) u \<longleftrightarrow> closed_for b u"
  by (simp add: closed_for_def recorded_def)

lemma fst_index: "base_ok b xs d \<Longrightarrow> map fst (index b) = xs"
  by (simp add: base_ok_def)

lemma index_dom: "base_ok b xs d \<Longrightarrow> map_of (index b) x = None \<longleftrightarrow> x \<notin> set xs"
  by (metis fst_index map_of_eq_None_iff set_map)

lemma depth_dom: "base_ok b xs d \<Longrightarrow> map_of (depth b) x = None \<longleftrightarrow> x \<notin> set xs"
  unfolding base_ok_def by (metis map_of_eq_None_iff set_map)

lemma depth_bound: "base_ok b xs d \<Longrightarrow> map_of (depth b) x = Some dx \<Longrightarrow> dx \<le> d \<and> reach_in en start dx x"
  unfolding base_ok_def by (auto dest: map_of_SomeD)

lemma visit_new:
  assumes "map_of (index b) nxt = None"
  shows "index (visit chk grd s src d (l, nxt) b) = index b @ [(nxt, length (index b))]"
    "depth (visit chk grd s src d (l, nxt) b) = depth b @ [(nxt, d)]"
    "queue (visit chk grd s src d (l, nxt) b) = queue b @ [nxt]"
    "edges (visit chk grd s src d (l, nxt) b) = insert (src, l, length (index b)) (edges b)"
    "aborted (visit chk grd s src d (l, nxt) b) = aborted b"
  using assms by (simp_all add: visit_def Let_def)

lemma visit_known:
  assumes "map_of (index b) nxt = Some j"
  shows "index (visit chk grd s src d (l, nxt) b) = index b"
    "depth (visit chk grd s src d (l, nxt) b) = depth b"
    "queue (visit chk grd s src d (l, nxt) b) = queue b"
    "edges (visit chk grd s src d (l, nxt) b) = insert (src, l, j) (edges b)"
    "aborted (visit chk grd s src d (l, nxt) b) = aborted b"
  using assms by (simp_all add: visit_def Let_def)

lemma zip_snoc_upt: "zip (xs @ [x]) [0..<length (xs @ [x])] = zip xs [0..<length xs] @ [(x, length xs)]"
  by simp

text \<open>One labelled transition out of the state that was popped.\<close>

lemma visit_ok:
  assumes b: "base_ok b xs (Suc d0)" and s: "map_of (index b) s = Some src" "map_of (depth b) s = Some d0"
    and step: "en s = Inr out" "(l, t) \<in> set out"
    and b'_def: "b' = visit chk grd s src (Suc d0) (l, t) b"
  shows "\<exists>ys. base_ok b' (xs @ ys) (Suc d0) \<and> queue b' = queue b @ ys \<and> extends b b' \<and>
    recorded b' s l t \<and> aborted b' = aborted b"
proof (cases "map_of (index b) t")
  case (Some j)
  note v = visit_known [OF Some, of chk grd s src "Suc d0" l]
  have "t \<in> set xs" using index_dom [OF b, of t] Some by auto
  then obtain dt where dt: "map_of (depth b) t = Some dt" using depth_dom [OF b, of t] by auto
  have "base_ok b' xs (Suc d0)"
    using b s step Some unfolding base_ok_def b'_def v by blast
  moreover have "extends b b'" by (auto simp: extends_def b'_def v)
  moreover have "recorded b' s l t"
    using s Some dt depth_bound [OF b dt] by (auto simp: recorded_def b'_def v)
  ultimately show ?thesis using v by (intro exI [of _ "[]"]) (simp add: b'_def)
next
  case None
  note v = visit_new [OF None, of chk grd s src "Suc d0" l]
  have t: "t \<notin> set xs" using index_dom [OF b, of t] None by simp
  have len: "length (index b) = length xs" using b by (simp add: base_ok_def)
  have src: "s \<in> set xs" using index_dom [OF b, of s] s by auto
  then have U: "s \<in> U" using b by (auto simp: base_ok_def)
  have tU: "t \<in> U" using total [OF U] step by (auto simp: image_subset_iff)
  have rt: "reach_in en start (Suc d0) t" using depth_bound [OF b s(2)] step by auto
  have idx: "map_of (index b) \<subseteq>\<^sub>m map_of (index b')"
    using t b fst_index [OF b] unfolding b'_def v by (intro map_le_append_fresh) (metis list.set_map)
  have dep: "map_of (depth b) \<subseteq>\<^sub>m map_of (depth b')"
    using t b unfolding b'_def v base_ok_def by (intro map_le_append_fresh) (metis list.set_map)
  have ext: "extends b b'" using idx dep by (auto simp: extends_def b'_def v)
  have it: "map_of (index b') t = Some (length xs)"
    using None len by (simp add: b'_def v map_of_append map_add_def)
  have dt: "map_of (depth b') t = Some (Suc d0)"
    using depth_dom [OF b, of t] t by (simp add: b'_def v map_of_append map_add_def)
  have is': "map_of (index b') s = Some src" using map_leD [OF idx s(1)] .
  have ds': "map_of (depth b') s = Some d0" using map_leD [OF dep s(2)] .
  have rec: "recorded b' s l t"
    using it dt is' ds' len by (auto simp: recorded_def b'_def v)
  have sorted': "sorted (map snd (depth b'))"
    using b unfolding b'_def v base_ok_def by (fastforce simp: sorted_append)
  have depths: "\<forall>(u, du) \<in> set (depth b'). du \<le> Suc d0 \<and> reach_in en start du u"
    using b rt unfolding b'_def v base_ok_def by (auto simp del: reach_in.simps)
  have edges': "\<forall>(i, l, j) \<in> edges b'. \<exists>u t out.
        map_of (index b') u = Some i \<and> map_of (index b') t = Some j \<and> en u = Inr out \<and> (l, t) \<in> set out"
  proof (clarify)
    fix i m j assume e: "(i, m, j) \<in> edges b'"
    show "\<exists>u t out. map_of (index b') u = Some i \<and> map_of (index b') t = Some j \<and>
        en u = Inr out \<and> (m, t) \<in> set out"
    proof (cases "(i, m, j) \<in> edges b")
      case True
      then obtain u t out where "map_of (index b) u = Some i" "map_of (index b) t = Some j"
        "en u = Inr out" "(m, t) \<in> set out" using b unfolding base_ok_def by blast
      then show ?thesis using map_leD [OF idx] by blast
    next
      case False
      then have "i = src" "m = l" "j = length xs" using e len by (auto simp: b'_def v)
      then show ?thesis using is' it step by blast
    qed
  qed
  have "base_ok b' (xs @ [t]) (Suc d0)"
    using b t tU sorted' depths edges' len unfolding base_ok_def
    by (auto simp: b'_def v hd_append)
  then show ?thesis using ext rec v by (intro exI [of _ "[t]"]) (simp add: b'_def)
qed

text \<open>The inner loop, by induction on the transitions still to visit.\<close>

lemma visits_ok:
  assumes "base_ok b xs (Suc d0)" "map_of (index b) s = Some src" "map_of (depth b) s = Some d0"
    and "en s = Inr out" "set evs \<subseteq> set out"
  shows "\<exists>ys. base_ok (fold (visit chk grd s src (Suc d0)) evs b) (xs @ ys) (Suc d0) \<and>
    queue (fold (visit chk grd s src (Suc d0)) evs b) = queue b @ ys \<and>
    extends b (fold (visit chk grd s src (Suc d0)) evs b) \<and>
    (\<forall>(l, t) \<in> set evs. recorded (fold (visit chk grd s src (Suc d0)) evs b) s l t) \<and>
    aborted (fold (visit chk grd s src (Suc d0)) evs b) = aborted b"
  using assms
proof (induction evs arbitrary: b xs)
  case Nil
  then show ?case by (auto intro: exI [of _ "[]"] extends_refl)
next
  case (Cons ev evs)
  obtain l t where ev: "ev = (l, t)" by (cases ev)
  define b1 where b1: "b1 = visit chk grd s src (Suc d0) (l, t) b"
  have "(l, t) \<in> set out" using Cons.prems(5) ev by simp
  from visit_ok [OF Cons.prems(1-4) this b1] obtain ys where
    1: "base_ok b1 (xs @ ys) (Suc d0)" "queue b1 = queue b @ ys" "extends b b1"
      "recorded b1 s l t" "aborted b1 = aborted b" by blast
  have "map_of (index b1) s = Some src" "map_of (depth b1) s = Some d0"
    using Cons.prems(2,3) 1(3) by (auto simp: extends_def dest: map_leD)
  from Cons.IH [OF 1(1) this Cons.prems(4)] Cons.prems(5) obtain zs where
    2: "base_ok (fold (visit chk grd s src (Suc d0)) evs b1) ((xs @ ys) @ zs) (Suc d0)"
      "queue (fold (visit chk grd s src (Suc d0)) evs b1) = queue b1 @ zs"
      "extends b1 (fold (visit chk grd s src (Suc d0)) evs b1)"
      "\<forall>(l, t) \<in> set evs. recorded (fold (visit chk grd s src (Suc d0)) evs b1) s l t"
      "aborted (fold (visit chk grd s src (Suc d0)) evs b1) = aborted b1" by auto
  have f: "fold (visit chk grd s src (Suc d0)) (ev # evs) b = fold (visit chk grd s src (Suc d0)) evs b1"
    by (simp add: ev b1)
  show ?case unfolding f
    using 1 2 recorded_extends [OF 1(4) 2(3)] extends_trans [OF 1(3) 2(3)] ev
    by (intro exI [of _ "ys @ zs"]) auto
qed

text \<open>The invariant of the outer loop: the states before the queue are closed.\<close>

definition loop_ok :: "'s search \<Rightarrow> 's list \<Rightarrow> bool" where
  "loop_ok b dn \<longleftrightarrow>
     (\<exists>d. base_ok b (dn @ queue b) d \<and>
       (\<forall>s q. queue b = s # q \<longrightarrow> (\<exists>d0. map_of (depth b) s = Some d0 \<and> d \<le> Suc d0))) \<and>
     (\<forall>u \<in> set dn. closed_for b u)"

lemma loop_ok_start: "loop_ok (search_start chk start) []"
  using start_in by (auto simp: loop_ok_def base_ok_def search_start_def intro!: exI [of _ 0])

lemma depth_sorted_after:
  assumes b: "base_ok b (dn @ s # q) d" and s: "map_of (depth b) s = Some d0" and t: "t \<in> set q"
  shows "\<exists>dt. map_of (depth b) t = Some dt \<and> d0 \<le> dt"
proof -
  obtain i where i: "i < length q" "t = q ! i" using t by (auto simp: in_set_conv_nth)
  define xs where "xs = dn @ s # q"
  have dis: "distinct (map fst (depth b))" and fsts: "map fst (depth b) = xs"
    and srt: "sorted (map snd (depth b))"
    using b by (auto simp: base_ok_def xs_def)
  have len: "length (depth b) = length xs" using fsts by (metis length_map)
  let ?j = "length dn" and ?k = "Suc (length dn + i)"
  have k: "?k < length (depth b)" using i len by (simp add: xs_def)
  have "fst (depth b ! ?j) = xs ! ?j" "fst (depth b ! ?k) = xs ! ?k"
    using k fsts len by (metis (no_types, lifting) Suc_lessD add_lessD1 nth_map, metis nth_map)
  then have f: "fst (depth b ! ?j) = s" "fst (depth b ! ?k) = t"
    using i by (simp_all add: xs_def nth_append)
  have m: "map_of (depth b) (fst (depth b ! n)) = Some (snd (depth b ! n))" if "n < length (depth b)" for n
    using that dis by (intro map_of_is_SomeI) auto
  have "snd (depth b ! ?j) \<le> snd (depth b ! ?k)"
    using sorted_nth_mono [OF srt, of ?j ?k] k by simp
  moreover have "map_of (depth b) t = Some (snd (depth b ! ?k))" using m [OF k] f by simp
  moreover have "d0 = snd (depth b ! ?j)" using m [of ?j] k f s by simp
  ultimately show ?thesis by simp
qed

text \<open>One round closes the state it pops and extends what was found.\<close>

lemma round_ok:
  assumes b: "loop_ok b dn" and q: "queue b = s # q"
  shows "\<exists>b'. search_round en chk grd m b = Inr b' \<and> loop_ok b' (dn @ [s]) \<and>
    (m = None \<longrightarrow> aborted b' = aborted b)"
proof -
  from b q obtain d d0 where base: "base_ok b (dn @ s # q) d" and d0: "map_of (depth b) s = Some d0"
    and dle: "d \<le> Suc d0" by (auto simp: loop_ok_def)
  from index_dom [OF base, of s] obtain src where src: "map_of (index b) s = Some src" by auto
  have "s \<in> U" using base by (simp add: base_ok_def)
  then obtain out where out: "en s = Inr out" using total by blast
  let ?b = "b\<lparr>queue := q\<rparr>"
  have base1: "base_ok ?b (dn @ s # q) (Suc d0)"
    using base dle unfolding base_ok_def by fastforce
  define b' where "b' = fold (visit chk grd s src (Suc d0)) out ?b"
  from visits_ok [OF base1 _ _ out subset_refl, of src chk grd] src d0 obtain ys where
    1: "base_ok b' ((dn @ s # q) @ ys) (Suc d0)" "queue b' = q @ ys" "extends ?b b'"
      "\<forall>(l, t) \<in> set out. recorded b' s l t" "aborted b' = aborted b"
    by (auto simp: b'_def)
  have ext: "extends b b'" using 1(3) by (simp add: extends_def)
  have d0': "map_of (depth b') s = Some d0" using d0 ext by (auto simp: extends_def dest: map_leD)
  have closed: "\<forall>u \<in> set (dn @ [s]). closed_for b' u"
    using b out 1(4) closed_for_extends [OF _ ext] by (auto simp: loop_ok_def closed_for_def)
  have base2: "base_ok b' (dn @ s # (q @ ys)) (Suc d0)" using 1(1) by simp
  have front: "\<exists>dt. map_of (depth b') t = Some dt \<and> Suc d0 \<le> Suc dt" if "queue b' = t # p" for t p
    using depth_sorted_after [OF base2 d0', of t] that 1(2) by (metis Suc_le_mono list.set_intros(1))
  have ok': "loop_ok b' (dn @ [s])"
    using closed base2 front 1(2) by (auto simp: loop_ok_def)
  then have ok'': "loop_ok (b'\<lparr>aborted := True\<rparr>) (dn @ [s])"
    by (simp add: loop_ok_def base_ok_aborted closed_for_aborted)
  have "search_round en chk grd m b =
      Inr (case m of None \<Rightarrow> b' | Some n \<Rightarrow> if length (index b') > n then b'\<lparr>aborted := True\<rparr> else b')"
    unfolding b'_def by (simp add: search_round_def q src d0 out Let_def)
  then show ?thesis using ok' ok'' 1(5) by (auto split: option.splits)
qed

lemma loop_result:
  assumes "loop_ok b dn" "P b dn"
    and keeps: "\<And>b dn s q b'. loop_ok b dn \<Longrightarrow> P b dn \<Longrightarrow> \<not> aborted b \<Longrightarrow> queue b = s # q \<Longrightarrow>
      search_round en chk grd m b = Inr b' \<Longrightarrow> P b' (dn @ [s])"
  shows "\<exists>b' dn'. search_loop en chk grd m b = Some (Inr b') \<and> loop_ok b' dn' \<and>
     (queue b' = [] \<or> aborted b') \<and> P b' dn'"
  using assms(1-2)
proof (induction "card U - length dn" arbitrary: b dn rule: less_induct)
  case less
  show ?case
  proof (cases "queue b = [] \<or> aborted b")
    case True
    then show ?thesis using less.prems by (subst search_loop.simps) auto
  next
    case False
    then obtain s q where q: "queue b = s # q" by (cases "queue b") auto
    from round_ok [OF less.prems(1) q] obtain b' where
      r: "search_round en chk grd m b = Inr b'" "loop_ok b' (dn @ [s])" by blast
    from less.prems(1) q have d: "distinct (dn @ s # q)" "set (dn @ s # q) \<subseteq> U"
      by (auto simp: loop_ok_def base_ok_def)
    then have "length (dn @ s # q) \<le> card U" by (metis card_mono distinct_card fin)
    then have "card U - length (dn @ [s]) < card U - length dn" by simp
    from less.hyps [OF this r(2)] keeps [OF less.prems(1,2) _ q r(1)] False
    obtain b'' dn' where "search_loop en chk grd m b' = Some (Inr b'') \<and> loop_ok b'' dn' \<and>
      (queue b'' = [] \<or> aborted b'') \<and> P b'' dn'" by auto
    then show ?thesis using False r(1) by (subst search_loop.simps) auto
  qed
qed

text \<open>The search is abandoned exactly when more than \<open>max_states\<close> states were found.\<close>

definition limit_ok :: "nat option \<Rightarrow> 's search \<Rightarrow> 's list \<Rightarrow> bool" where
  "limit_ok m b dn \<longleftrightarrow>
     (aborted b \<longleftrightarrow> dn \<noteq> [] \<and> (case m of None \<Rightarrow> False | Some k \<Rightarrow> length (index b) > k))"

lemma limit_ok_start: "limit_ok m (search_start chk start) []"
  by (simp add: limit_ok_def search_start_def)

lemma round_limit_ok:
  assumes b: "loop_ok b dn" and a: "\<not> aborted b" and q: "queue b = s # q"
    and r: "search_round en chk grd m b = Inr b'"
  shows "limit_ok m b' (dn @ [s])"
proof -
  from b q obtain d d0 where base: "base_ok b (dn @ s # q) d" and d0: "map_of (depth b) s = Some d0"
    and dle: "d \<le> Suc d0" by (auto simp: loop_ok_def)
  from index_dom [OF base, of s] obtain src where src: "map_of (index b) s = Some src" by auto
  have "s \<in> U" using base by (simp add: base_ok_def)
  then obtain out where out: "en s = Inr out" using total by blast
  let ?b = "b\<lparr>queue := q\<rparr>"
  have base1: "base_ok ?b (dn @ s # q) (Suc d0)" using base dle unfolding base_ok_def by fastforce
  from visits_ok [OF base1 _ _ out subset_refl, of src chk grd] src d0 a
  have "\<not> aborted (fold (visit chk grd s src (Suc d0)) out ?b)" by auto
  then show ?thesis using r
    by (auto simp: limit_ok_def search_round_def q src d0 out Let_def split: option.splits if_splits)
qed

text \<open>The checks that failed: on every state found, and on every transition out of a closed one.\<close>

definition inv_found :: "('s \<Rightarrow> string list) \<Rightarrow> 's search \<Rightarrow> violation set" where
  "inv_found chk b = (\<Union>(t, i) \<in> set (index b). (\<lambda>name. InvariantViolation name i) ` set (chk t))"

definition guard_found :: "(string \<Rightarrow> 's \<Rightarrow> 's \<Rightarrow> string list) \<Rightarrow> 's search \<Rightarrow> 's set \<Rightarrow> violation set" where
  "guard_found grd b D = (\<Union>u \<in> D. {GuardViolation name i l | name i l t out.
     map_of (index b) u = Some i \<and> en u = Inr out \<and> (l, t) \<in> set out \<and> name \<in> set (grd l u t)})"

lemma visit_violations:
  assumes "set (violations b) = inv_found chk b \<union> G"
  shows "set (violations (visit chk grd s src d (l, t) b)) =
    inv_found chk (visit chk grd s src d (l, t) b) \<union> (G \<union> (\<lambda>name. GuardViolation name src l) ` set (grd l s t))"
proof (cases "map_of (index b) t")
  case (Some j)
  have "inv_found chk (visit chk grd s src d (l, t) b) = inv_found chk b"
    unfolding inv_found_def visit_known(1) [OF Some] ..
  moreover have "set (violations (visit chk grd s src d (l, t) b)) =
      set (violations b) \<union> (\<lambda>name. GuardViolation name src l) ` set (grd l s t)"
    using Some by (simp add: visit_def Let_def)
  ultimately show ?thesis using assms by (simp add: Un_assoc)
next
  case None
  have "inv_found chk (visit chk grd s src d (l, t) b) =
      inv_found chk b \<union> (\<lambda>name. InvariantViolation name (length (index b))) ` set (chk t)"
    unfolding inv_found_def visit_new(1) [OF None] by auto
  moreover have "set (violations (visit chk grd s src d (l, t) b)) =
      set (violations b) \<union> (\<lambda>name. GuardViolation name src l) ` set (grd l s t) \<union>
      (\<lambda>name. InvariantViolation name (length (index b))) ` set (chk t)"
    using None by (simp add: visit_def Let_def Un_ac)
  ultimately show ?thesis using assms by (simp add: Un_ac)
qed

lemma visits_violations:
  "set (violations b) = inv_found chk b \<union> G \<Longrightarrow>
   set (violations (fold (visit chk grd s src d) evs b)) =
     inv_found chk (fold (visit chk grd s src d) evs b) \<union>
       (G \<union> (\<Union>(l, t) \<in> set evs. (\<lambda>name. GuardViolation name src l) ` set (grd l s t)))"
proof (induction evs arbitrary: b G)
  case (Cons ev evs)
  obtain l t where ev: "ev = (l, t)" by (cases ev)
  show ?case
    using Cons.IH [OF visit_violations [OF Cons.prems, of grd s src d l t]]
    by (simp add: ev Un_assoc)
qed simp

definition found_ok :: "('s \<Rightarrow> string list) \<Rightarrow> (string \<Rightarrow> 's \<Rightarrow> 's \<Rightarrow> string list) \<Rightarrow> 's search \<Rightarrow> 's list \<Rightarrow> bool" where
  "found_ok chk grd b dn \<longleftrightarrow> set (violations b) = inv_found chk b \<union> guard_found grd b (set dn)"

lemma found_ok_start: "found_ok chk grd (search_start chk start) []"
  by (auto simp: found_ok_def inv_found_def guard_found_def search_start_def)

lemma guard_found_extends:
  assumes "extends b b'" "\<forall>u \<in> D. \<exists>i. map_of (index b) u = Some i"
  shows "guard_found grd b' D = guard_found grd b D"
proof -
  have "map_of (index b') u = map_of (index b) u" if "u \<in> D" for u
    using assms that map_leD by (fastforce simp: extends_def)
  then show ?thesis unfolding guard_found_def by (intro SUP_cong refl) simp
qed

lemma round_found_ok:
  assumes b: "loop_ok b dn" and f: "found_ok chk grd b dn" and q: "queue b = s # q"
    and r: "search_round en chk grd m b = Inr b'"
  shows "found_ok chk grd b' (dn @ [s])"
proof -
  from b q obtain d d0 where base: "base_ok b (dn @ s # q) d" and d0: "map_of (depth b) s = Some d0"
    and dle: "d \<le> Suc d0" by (auto simp: loop_ok_def)
  from index_dom [OF base, of s] obtain src where src: "map_of (index b) s = Some src" by auto
  have "s \<in> U" using base by (simp add: base_ok_def)
  then obtain out where out: "en s = Inr out" using total by blast
  let ?b = "b\<lparr>queue := q\<rparr>"
  have base1: "base_ok ?b (dn @ s # q) (Suc d0)" using base dle unfolding base_ok_def by fastforce
  define c where "c = fold (visit chk grd s src (Suc d0)) out ?b"
  from visits_ok [OF base1 _ _ out subset_refl, of src chk grd] src d0
  have ext: "extends b c" by (auto simp: c_def extends_def)
  have ids: "\<forall>u \<in> set dn. \<exists>i. map_of (index b) u = Some i"
    using index_dom [OF base] by (metis Un_iff not_Some_eq set_append)
  have src': "map_of (index c) s = Some src" using src ext by (auto simp: extends_def dest: map_leD)
  have "set (violations ?b) = inv_found chk ?b \<union> guard_found grd b (set dn)"
    using f by (simp add: found_ok_def inv_found_def)
  from visits_violations [OF this, of grd s src "Suc d0" out]
  have v: "set (violations c) = inv_found chk c \<union> (guard_found grd c (set dn) \<union>
      (\<Union>(l, t) \<in> set out. (\<lambda>name. GuardViolation name src l) ` set (grd l s t)))"
    unfolding c_def [symmetric] guard_found_extends [OF ext ids] .
  have "{GuardViolation name i l | name i l t out. map_of (index c) s = Some i \<and> en s = Inr out \<and>
        (l, t) \<in> set out \<and> name \<in> set (grd l s t)} =
      (\<Union>(l, t) \<in> set out. (\<lambda>name. GuardViolation name src l) ` set (grd l s t))"
    using src' out by auto
  then have "guard_found grd c (insert s (set dn)) = guard_found grd c (set dn) \<union>
      (\<Union>(l, t) \<in> set out. (\<lambda>name. GuardViolation name src l) ` set (grd l s t))"
    by (simp add: guard_found_def Un_commute)
  with v have "found_ok chk grd c (dn @ [s])" by (simp add: found_ok_def)
  moreover have "b' = c \<or> b' = c\<lparr>aborted := True\<rparr>"
    using r unfolding c_def by (auto simp: search_round_def q src d0 out Let_def split: option.splits if_splits)
  ultimately show ?thesis by (elim disjE) (simp_all add: found_ok_def inv_found_def guard_found_def)
qed

text \<open>A finished search has found exactly the reachable states, each at its distance.\<close>

lemma finished_distance:
  assumes b: "loop_ok b dn" and q: "queue b = []" and n: "reach_in en start n t"
  shows "\<exists>d. map_of (depth b) t = Some d \<and> d \<le> n"
  using n
proof (induction n arbitrary: t)
  case 0
  from b q obtain d where "base_ok b dn d" by (auto simp: loop_ok_def)
  then have "depth b \<noteq> []" "hd (depth b) = (start, 0)" by (auto simp: base_ok_def)
  then have "map_of (depth b) start = Some 0" by (cases "depth b") auto
  with 0 show ?case by simp
next
  case (Suc n)
  then obtain s out l where s: "reach_in en start n s" "en s = Inr out" "(l, t) \<in> set out" by auto
  from Suc.IH [OF s(1)] obtain ds where ds: "map_of (depth b) s = Some ds" "ds \<le> n" by blast
  from b q obtain d where base: "base_ok b dn d" by (auto simp: loop_ok_def)
  have "s \<in> set dn" using depth_dom [OF base, of s] ds by auto
  then have "recorded b s l t" using b s by (auto simp: loop_ok_def closed_for_def)
  then show ?case using ds by (auto simp: recorded_def)
qed

lemma finished_depth:
  assumes b: "loop_ok b dn" and q: "queue b = []"
  shows "map_of (depth b) t = Some d \<longleftrightarrow>
    reach_in en start d t \<and> (\<forall>n. reach_in en start n t \<longrightarrow> d \<le> n)"
proof -
  from b q obtain e where base: "base_ok b dn e" by (auto simp: loop_ok_def)
  show ?thesis
  proof
    assume t: "map_of (depth b) t = Some d"
    then show "reach_in en start d t \<and> (\<forall>n. reach_in en start n t \<longrightarrow> d \<le> n)"
      using depth_bound [OF base t] finished_distance [OF b q] by fastforce
  next
    assume r: "reach_in en start d t \<and> (\<forall>n. reach_in en start n t \<longrightarrow> d \<le> n)"
    then obtain d' where d': "map_of (depth b) t = Some d'" "d' \<le> d"
      using finished_distance [OF b q] by blast
    then show "map_of (depth b) t = Some d" using depth_bound [OF base d'(1)] r by fastforce
  qed
qed

lemma finished_states:
  assumes b: "loop_ok b dn" and q: "queue b = []"
  shows "fst ` set (depth b) = {t. \<exists>n. reach_in en start n t}" "set dn = {t. \<exists>n. reach_in en start n t}"
    "index b = zip dn [0..<length dn]" "map fst (depth b) = dn" "distinct dn"
proof -
  from b q obtain e where base: "base_ok b dn e" by (auto simp: loop_ok_def)
  then show "index b = zip dn [0..<length dn]" "map fst (depth b) = dn" "distinct dn"
    by (auto simp: base_ok_def)
  then have f: "fst ` set (depth b) = set dn" by (metis list.set_map)
  have "t \<in> set dn \<longleftrightarrow> (\<exists>n. reach_in en start n t)" for t
    using depth_dom [OF base, of t] depth_bound [OF base, of t] finished_distance [OF b q, of _ t] by fastforce
  then show "fst ` set (depth b) = {t. \<exists>n. reach_in en start n t}" "set dn = {t. \<exists>n. reach_in en start n t}"
    using f by auto
qed

lemma finished_edges:
  assumes b: "loop_ok b dn" and q: "queue b = []"
  shows "(i, l, j) \<in> edges b \<longleftrightarrow>
    (\<exists>u t out. map_of (index b) u = Some i \<and> map_of (index b) t = Some j \<and> en u = Inr out \<and> (l, t) \<in> set out)"
proof -
  from b q obtain e where base: "base_ok b dn e" by (auto simp: loop_ok_def)
  show ?thesis
  proof
    assume "(i, l, j) \<in> edges b"
    then show "\<exists>u t out. map_of (index b) u = Some i \<and> map_of (index b) t = Some j \<and>
        en u = Inr out \<and> (l, t) \<in> set out"
      using base unfolding base_ok_def by blast
  next
    assume "\<exists>u t out. map_of (index b) u = Some i \<and> map_of (index b) t = Some j \<and>
        en u = Inr out \<and> (l, t) \<in> set out"
    then obtain u t out where u: "map_of (index b) u = Some i" "map_of (index b) t = Some j"
      "en u = Inr out" "(l, t) \<in> set out" by blast
    then have "u \<in> set dn" using index_dom [OF base, of u] by auto
    then have "recorded b u l t" using b u by (auto simp: loop_ok_def closed_for_def)
    then show "(i, l, j) \<in> edges b" using u by (auto simp: recorded_def)
  qed
qed

lemma finished_violations:
  assumes b: "loop_ok b dn" and q: "queue b = []" and f: "found_ok chk grd b dn"
  shows "violations b = [] \<longleftrightarrow>
    (\<forall>n u. reach_in en start n u \<longrightarrow> chk u = [] \<and>
       (\<forall>out l t. en u = Inr out \<longrightarrow> (l, t) \<in> set out \<longrightarrow> grd l u t = []))"
proof -
  note st = finished_states [OF b q]
  have "inv_found chk b = {} \<longleftrightarrow> (\<forall>u \<in> fst ` set (index b). chk u = [])"
    by (fastforce simp: inv_found_def)
  moreover have "fst ` set (index b) = set dn" using st(3) by (metis list.set_map map_fst_zip length_upt minus_nat.diff_0)
  ultimately have i: "inv_found chk b = {} \<longleftrightarrow> (\<forall>u \<in> set dn. chk u = [])" by simp
  have one: "{GuardViolation name i l | name i l t out. map_of (index b) u = Some i \<and> en u = Inr out \<and>
        (l, t) \<in> set out \<and> name \<in> set (grd l u t)} = {} \<longleftrightarrow>
      (\<forall>out l t. en u = Inr out \<longrightarrow> (l, t) \<in> set out \<longrightarrow> grd l u t = [])" if u: "u \<in> set dn" for u
  proof -
    obtain i where "map_of (index b) u = Some i"
      using b q u index_dom [of b dn _ u] by (auto simp: loop_ok_def)
    then have "?thesis \<longleftrightarrow>
        (\<forall>name l t out. (l, t) \<in> set out \<longrightarrow> en u = Inr out \<longrightarrow> name \<notin> set (grd l u t)) =
        (\<forall>out l t. en u = Inr out \<longrightarrow> (l, t) \<in> set out \<longrightarrow> grd l u t = [])" by simp
    moreover have nm: "xs = [] \<longleftrightarrow> (\<forall>name. name \<notin> set xs)" for xs :: "string list" by (cases xs) auto
    ultimately show ?thesis unfolding nm [of "grd _ u _"] by blast
  qed
  have g: "guard_found grd b (set dn) = {} \<longleftrightarrow>
      (\<forall>u \<in> set dn. \<forall>out l t. en u = Inr out \<longrightarrow> (l, t) \<in> set out \<longrightarrow> grd l u t = [])"
    unfolding guard_found_def UNION_empty_conv by (intro ball_cong refl one)
  have "violations b = [] \<longleftrightarrow> inv_found chk b = {} \<and> guard_found grd b (set dn) = {}"
    using f unfolding found_ok_def by (simp flip: set_empty)
  also have "\<dots> \<longleftrightarrow> (\<forall>u \<in> set dn. chk u = [] \<and>
      (\<forall>out l t. en u = Inr out \<longrightarrow> (l, t) \<in> set out \<longrightarrow> grd l u t = []))"
    unfolding i g by (rule ball_conj_distrib [symmetric])
  finally show ?thesis by (auto simp: st(2))
qed

lemma finite_edges:
  assumes base: "base_ok b xs d"
  shows "finite (edges b)"
proof (rule finite_subset)
  define outs where "outs u = (case en u of Inl e \<Rightarrow> {} | Inr out \<Rightarrow> set out)" for u
  let ?f = "\<lambda>(u, l, t). (the (map_of (index b) u), l, the (map_of (index b) t))"
  show "edges b \<subseteq> ?f ` (SIGMA u : U. outs u)"
  proof clarify
    fix i l j assume "(i, l, j) \<in> edges b"
    then obtain u t out where e: "map_of (index b) u = Some i" "map_of (index b) t = Some j"
      "en u = Inr out" "(l, t) \<in> set out" using base unfolding base_ok_def by blast
    have "u \<in> U" using e(1) index_dom [OF base, of u] base by (auto simp: base_ok_def)
    with e show "(i, l, j) \<in> ?f ` (SIGMA u : U. outs u)"
      by (intro image_eqI [of _ _ "(u, l, t)"]) (auto simp: outs_def)
  qed
  show "finite (?f ` (SIGMA u : U. outs u))"
    using fin by (intro finite_imageI finite_SigmaI) (auto simp: outs_def split: sum.splits)
qed

text \<open>The search returns; with no limit on the number of states it is complete.\<close>

lemma search_returns:
  "\<exists>b dn. search_loop en chk grd m (search_start chk start) = Some (Inr b) \<and> loop_ok b dn \<and>
     (queue b = [] \<or> aborted b) \<and> found_ok chk grd b dn \<and> limit_ok m b dn"
  using loop_result [of "search_start chk start" "[]"
      "\<lambda>b dn. found_ok chk grd b dn \<and> limit_ok m b dn" chk grd m,
      OF loop_ok_start conjI [OF found_ok_start limit_ok_start]]
    round_found_ok round_limit_ok by blast

lemma aborted_iff:
  assumes "loop_ok b dn" "queue b = [] \<or> aborted b" "limit_ok m b dn"
  shows "aborted b \<longleftrightarrow> (case m of None \<Rightarrow> False | Some k \<Rightarrow> length (depth b) > k)"
proof -
  obtain d where base: "base_ok b (dn @ queue b) d" using assms by (auto simp: loop_ok_def)
  then have "length (index b) = length (depth b)" "dn @ queue b \<noteq> []"
    using fst_index [OF base] by (auto simp: base_ok_def simp flip: length_map [of fst])
  then show ?thesis using assms(2,3) by (auto simp: limit_ok_def split: option.splits)
qed

end

text \<open>The same interface when every state and transition of \<open>U\<close> also passes its checks.\<close>

locale checked_lts = finite_lts +
  fixes chk :: "'a \<Rightarrow> string list" and grd :: "string \<Rightarrow> 'a \<Rightarrow> 'a \<Rightarrow> string list"
  assumes state_ok: "s \<in> U \<Longrightarrow> chk s = []"
    and step_ok: "s \<in> U \<Longrightarrow> en s = Inr out \<Longrightarrow> (l, t) \<in> set out \<Longrightarrow> grd l s t = []"
begin

lemma no_violation:
  assumes "loop_ok b dn" "found_ok chk grd b dn"
  shows "violations b = []"
proof -
  obtain d where base: "base_ok b (dn @ queue b) d" using assms by (auto simp: loop_ok_def)
  then have U: "set (dn @ queue b) \<subseteq> U" and idx: "index b = zip (dn @ queue b) [0..<length (dn @ queue b)]"
    by (auto simp: base_ok_def)
  have "fst ` set (index b) \<subseteq> U"
    using U unfolding idx by (metis list.set_map map_fst_zip length_upt minus_nat.diff_0)
  then have "inv_found chk b = {}" using state_ok by (fastforce simp: inv_found_def)
  moreover have "guard_found grd b (set dn) = {}" using step_ok U by (fastforce simp: guard_found_def)
  ultimately show ?thesis using assms by (simp add: found_ok_def)
qed

end

section \<open>The reference model is such a system\<close>

definition opt_set :: "'a set \<Rightarrow> 'a option set" where
  "opt_set A = insert None (Some ` A)"

lemma finite_opt_set [simp]: "finite A \<Longrightarrow> finite (opt_set A)"
  by (simp add: opt_set_def)

lemma in_opt_set [simp]: "None \<in> opt_set A" "Some x \<in> opt_set A \<longleftrightarrow> x \<in> A"
  by (auto simp: opt_set_def)

definition id_lists :: "string list set" where
  "id_lists = {xs. set xs \<subseteq> set IDS \<and> distinct xs}"

definition epoch_refs :: "(string \<times> int) option set" where
  "epoch_refs = opt_set (set IDS \<times> {0..MAX_EPOCH})"

definition state_space :: "(bool \<times> bool \<times> bool \<times> bool \<times> bool \<times> bool \<times> string list \<times> binding set \<times>
    string option \<times> (string \<times> int) option \<times> (string \<times> int) option \<times> int \<times> string set \<times> string list) set" where
  "state_space = UNIV \<times> UNIV \<times> UNIV \<times> UNIV \<times> UNIV \<times> UNIV \<times> id_lists \<times> Pow binding_universe \<times>
     opt_set (set VERSIONS) \<times> epoch_refs \<times> epoch_refs \<times> {0..MAX_EPOCH} \<times> Pow (set IDS) \<times> id_lists"

definition fields_of :: "lc_state \<Rightarrow> bool \<times> bool \<times> bool \<times> bool \<times> bool \<times> bool \<times> string list \<times> binding set \<times>
    string option \<times> (string \<times> int) option \<times> (string \<times> int) option \<times> int \<times> string set \<times> string list" where
  "fields_of s = (sq s, se s, authority s, recovery s, suspended s, detected s, pool s, bindings s,
     ke s, kp s, kv s, epoch s, expired s, alloc_order s)"

lemma finite_state_space: "finite state_space"
  by (simp add: state_space_def id_lists_def epoch_refs_def finite_subset_distinct
      finite_binding_universe)

lemma inj_fields_of: "inj fields_of"
  by (rule injI) (simp add: fields_of_def)

lemma lc_ok_fields: "lc_ok r s \<Longrightarrow> fields_of s \<in> state_space"
proof -
  assume ok: "lc_ok r s"
  then have c: "core_ok r s" and f: "refs_ok r s" by (simp_all add: lc_ok_def)
  have "pool s \<in> id_lists" "alloc_order s \<in> id_lists" "expired s \<subseteq> set IDS"
    using c by (auto simp: core_ok_def id_lists_def fset_ok_def strict_sorted_iff split: if_splits)
  moreover have "ke s \<in> opt_set (set VERSIONS)"
    using c f by (cases "ke s") (auto simp: core_ok_def ref_defs binding_ok_def)
  moreover have "kp s \<in> epoch_refs" "kv s \<in> epoch_refs"
    using c f by (cases "kp s"; cases "kv s";
        auto simp: core_ok_def ref_defs binding_ok_def epoch_refs_def)+
  ultimately show ?thesis
    using c f bindings_in_universe [OF c] by (simp add: fields_of_def state_space_def refs_ok_def)
qed

lemma finite_lc_ok: "finite {s. lc_ok r s}"
  by (rule finite_imageD [OF finite_subset [OF _ finite_state_space] inj_on_subset [OF inj_fields_of]])
    (auto simp: lc_ok_fields)

interpretation model_lts: checked_lts "enabled r" initial "{s. lc_ok r s}" "invariants (retains r)" guards
  for r
proof
  show "finite {s. lc_ok r s}" by (rule finite_lc_ok)
  show "initial \<in> {s. lc_ok r s}" by (simp add: lc_ok_initial)
  fix s assume "s \<in> {s. lc_ok r s}"
  then have s: "lc_ok r s" by simp
  then obtain out where out: "enabled r s = Inr out" using enabled_total by (auto simp: lc_ok_def)
  show "\<exists>out. enabled r s = Inr out \<and> snd ` set out \<subseteq> {s. lc_ok r s}"
    using out s by (auto intro: lc_step_ok [OF lc_step.intros])
  show "invariants (retains r) s = []" using lc_ok_invariants [OF s] .
  fix out l t assume "enabled r s = Inr out" "(l, t) \<in> set out"
  then show "guards l s t = []" using lc_step_guards [OF _ s] by (auto intro: lc_step.intros)
qed

lemma lc_reachable_iff: "lc_reachable r t \<longleftrightarrow> (\<exists>n. reach_in (enabled r) initial n t)"
proof
  show "lc_reachable r t \<Longrightarrow> \<exists>n. reach_in (enabled r) initial n t"
  proof (induction rule: lc_reachable.induct)
    case start
    have "reach_in (enabled r) initial 0 initial" by simp
    then show ?case by blast
  next
    case (step s l t)
    then obtain n where "reach_in (enabled r) initial n s" by blast
    then have "reach_in (enabled r) initial (Suc n) t"
      using step.hyps(2) by (auto simp: lc_step_iff)
    then show ?case by blast
  qed
next
  have "reach_in (enabled r) initial n t \<Longrightarrow> lc_reachable r t" for n
    by (induction n arbitrary: t) (auto intro: lc_reachable.intros lc_step.intros)
  then show "\<exists>n. reach_in (enabled r) initial n t \<Longrightarrow> lc_reachable r t" by blast
qed

text \<open>What \<open>run\<close> returns, in terms of the final record of the search.\<close>

lemma run_result:
  obtains b dn where
    "run r m = Some (Inr \<lparr> r_states = depth b, r_transitions = sorted_list_of_set (edges b),
       r_max_depth = Max (snd ` set (depth b)), r_violations = violations b,
       r_index = index b, r_aborted = aborted b, r_rules = r \<rparr>)"
    "model_lts.loop_ok r b dn" "queue b = [] \<or> aborted b"
    "model_lts.found_ok r (invariants (retains r)) guards b dn" "model_lts.limit_ok m b dn"
  using model_lts.search_returns [of r "invariants (retains r)" guards m] that
  by (fastforce simp: run_def retains_def Let_def)

lemma model_lts_run_clean:
  "\<exists>res. run r m = Some (Inr res) \<and> r_violations res = [] \<and> r_rules res = r \<and>
     (r_aborted res \<longleftrightarrow> (case m of None \<Rightarrow> False | Some k \<Rightarrow> length (r_states res) > k))"
proof -
  obtain b dn where run: "run r m = Some (Inr \<lparr> r_states = depth b,
       r_transitions = sorted_list_of_set (edges b),
       r_max_depth = Max (snd ` set (depth b)), r_violations = violations b,
       r_index = index b, r_aborted = aborted b, r_rules = r \<rparr>)"
    and b: "model_lts.loop_ok r b dn" "queue b = [] \<or> aborted b"
      "model_lts.found_ok r (invariants (retains r)) guards b dn" "model_lts.limit_ok m b dn"
    by (rule run_result)
  show ?thesis unfolding run
    using model_lts.no_violation [OF b(1,3)] model_lts.aborted_iff [OF b(1,2,4)] by (cases m) simp_all
qed

text \<open>\<open>distance r t d\<close>: the shortest path of labelled transitions from \<open>initial\<close> to \<open>t\<close> has length \<open>d\<close>.\<close>

definition distance :: "rules \<Rightarrow> lc_state \<Rightarrow> nat \<Rightarrow> bool" where
  "distance r t d \<longleftrightarrow>
     reach_in (enabled r) initial d t \<and> (\<forall>n. reach_in (enabled r) initial n t \<longrightarrow> d \<le> n)"

text \<open>Property C15. For every reading of the rules and every \<open>max_states\<close>, the enumeration returns (the
  loop ends and no call raises) and reports no violation of I1..I9 or G1..G4; it is abandoned
  exactly when it has found more than \<open>max_states\<close> states.\<close>

theorem run_reports_no_violation:
  "\<exists>res. run r m = Some (Inr res) \<and> r_violations res = [] \<and> r_rules res = r \<and>
     (r_aborted res \<longleftrightarrow> (case m of None \<Rightarrow> False | Some k \<Rightarrow> length (r_states res) > k))"
  by (rule model_lts_run_clean)

text \<open>Property C13. Without a limit, the enumeration returns exactly the reachable states, numbered
  in the order of their discovery from 0, each with the length of a shortest path to it, and
  \<open>max_depth\<close> is the greatest of those lengths.\<close>

theorem run_finds_reachable_states:
  "\<exists>res. run r None = Some (Inr res) \<and> \<not> r_aborted res \<and>
     fst ` set (r_states res) = {t. lc_reachable r t} \<and>
     (\<forall>t d. map_of (r_states res) t = Some d \<longleftrightarrow> distance r t d) \<and>
     distinct (map fst (r_states res)) \<and>
     r_index res = zip (map fst (r_states res)) [0..<length (r_states res)] \<and>
     r_max_depth res = Max {d. \<exists>t. distance r t d}"
proof -
  obtain b dn where run: "run r None = Some (Inr \<lparr> r_states = depth b,
       r_transitions = sorted_list_of_set (edges b),
       r_max_depth = Max (snd ` set (depth b)), r_violations = violations b,
       r_index = index b, r_aborted = aborted b, r_rules = r \<rparr>)"
    and b: "model_lts.loop_ok r b dn" "queue b = [] \<or> aborted b" "model_lts.limit_ok None b dn"
    by (rule run_result)
  have na: "\<not> aborted b" using b(3) by (simp add: model_lts.limit_ok_def)
  then have q: "queue b = []" using b(2) by simp
  note st = model_lts.finished_states [OF b(1) q]
  have dist: "map_of (depth b) t = Some d \<longleftrightarrow> distance r t d" for t d
    using model_lts.finished_depth [OF b(1) q] by (simp add: distance_def)
  have dd: "distinct (map fst (depth b))" using st(4,5) by simp
  have len: "length dn = length (depth b)" using st(4) by (metis length_map)
  have "snd ` set (depth b) = {d. \<exists>t. distance r t d}"
    using dist dd by (force simp flip: dist simp: map_of_eq_Some_iff [OF dd])
  then show ?thesis unfolding run using na dist dd st len by (simp add: lc_reachable_iff)
qed

text \<open>Property C14. Without a limit, the labelled transitions returned are exactly the steps out of
  reachable states, between the numbers of their ends, sorted and without duplicates.\<close>

theorem run_finds_transitions:
  "\<exists>res. run r None = Some (Inr res) \<and>
     (\<forall>i l j. (i, l, j) \<in> set (r_transitions res) \<longleftrightarrow>
        (\<exists>u t. map_of (r_index res) u = Some i \<and> map_of (r_index res) t = Some j \<and>
           lc_reachable r u \<and> lc_step r u l t)) \<and>
     sorted (r_transitions res) \<and> distinct (r_transitions res)"
proof -
  obtain b dn where run: "run r None = Some (Inr \<lparr> r_states = depth b,
       r_transitions = sorted_list_of_set (edges b),
       r_max_depth = Max (snd ` set (depth b)), r_violations = violations b,
       r_index = index b, r_aborted = aborted b, r_rules = r \<rparr>)"
    and b: "model_lts.loop_ok r b dn" "queue b = [] \<or> aborted b" "model_lts.limit_ok None b dn"
    by (rule run_result)
  have q: "queue b = []" using b by (simp add: model_lts.limit_ok_def)
  then obtain d where base: "model_lts.base_ok r b dn d" using b(1) by (auto simp: model_lts.loop_ok_def)
  have fin: "finite (edges b)" by (rule model_lts.finite_edges [OF base])
  have reach: "lc_reachable r u" if "map_of (index b) u = Some i" for u i
    using model_lts.index_dom [OF base, of u] that model_lts.finished_states(2) [OF b(1) q]
    by (auto simp: lc_reachable_iff)
  have "(i, l, j) \<in> edges b \<longleftrightarrow> (\<exists>u t. map_of (index b) u = Some i \<and> map_of (index b) t = Some j \<and>
      lc_reachable r u \<and> lc_step r u l t)" for i l j
    unfolding model_lts.finished_edges [OF b(1) q] lc_step_iff using reach by blast
  then show ?thesis unfolding run using fin by simp
qed

end
