(* ===== verification/ModelSeeded.thy ===== *)
theory ModelSeeded
  imports ModelInvariants
begin

text \<open>
  \<open>src/qkd_ekm/model/seeded.py\<close>: the seeded sensitivity analysis. A \<open>SeededState\<close> is a state with a
  stored mode and a stored consequence vector, both optional; a plain state has neither. \<open>detect\<close>
  dispatches on the kind of the case, not on its subject, so it may raise.
\<close>

record seeded_state = lc_state +
  stored_mode :: "string option"
  stored_consequences :: "pydict option"

definition seeded :: "lc_state \<Rightarrow> seeded_state" where
  "seeded s = lc_state.extend s \<lparr> stored_mode = None, stored_consequences = None \<rparr>"

datatype subject =
    SState seeded_state
  | STransition string lc_state lc_state

record seeded_case =
  c_name :: string
  c_subject :: subject
  c_expected :: string
  c_kind :: string

definition active_vpn :: lc_state where
  "active_vpn = initial\<lparr>bindings := {(''k1'', ''vpn'', ''1'')}, kv := Some (''k1'', 1), epoch := 1\<rparr>"

definition state_case :: "string \<Rightarrow> seeded_state \<Rightarrow> string \<Rightarrow> seeded_case" where
  "state_case n s x = \<lparr> c_name = n, c_subject = SState s, c_expected = x, c_kind = ''state'' \<rparr>"

definition transition_case :: "string \<Rightarrow> string \<Rightarrow> lc_state \<Rightarrow> lc_state \<Rightarrow> string \<Rightarrow> seeded_case" where
  "transition_case n l s t x =
     \<lparr> c_name = n, c_subject = STransition l s t, c_expected = x, c_kind = ''transition'' \<rparr>"

definition cases :: "seeded_case list" where
  "cases =
     [state_case ''duplicate_pool_entry''
        (seeded (initial\<lparr>pool := [''k1'', ''k1'']\<rparr>)) ''I1'',
      state_case ''identifier_in_two_bindings''
        (seeded (initial\<lparr>bindings := {(''k1'', ''ekm'', ''v1''), (''k1'', ''vpn'', ''1'')},
           ke := Some ''v1'', kv := Some (''k1'', 1), epoch := 1\<rparr>)) ''I2'',
      state_case ''consumed_identifier_back_in_pool''
        (seeded (initial\<lparr>pool := [''k1''], bindings := {(''k1'', ''ekm'', ''v1'')},
           ke := Some ''v1''\<rparr>)) ''I3'',
      state_case ''two_identifiers_same_purpose_object''
        (seeded (initial\<lparr>bindings := {(''k1'', ''ekm'', ''v1''), (''k2'', ''ekm'', ''v1'')},
           ke := Some ''v1''\<rparr>)) ''I4'',
      state_case ''active_version_without_binding''
        (seeded (initial\<lparr>ke := Some ''v1''\<rparr>)) ''I5'',
      state_case ''pending_activation_with_replayed_epoch''
        (seeded (active_vpn\<lparr>kp := Some (''k1'', 1)\<rparr>)) ''I6'',
      state_case ''active_vpn_epoch_conflicts_with_authoritative_epoch''
        (seeded (active_vpn\<lparr>epoch := 2\<rparr>)) ''I7'',
      state_case ''stored_mode_conflicts_with_derived_mode''
        ((seeded (initial\<lparr>sq := False\<rparr>))\<lparr>stored_mode := Some ''READY''\<rparr>) ''I8'',
      state_case ''stored_consequences_conflict_with_dependencies''
        ((seeded (initial\<lparr>se := False\<rparr>))\<lparr>stored_consequences := Some
           [(''storage'', PBool True), (''fresh_allocation'', PBool True),
            (''established_vpn'', PStr ''distinct'')]\<rparr>) ''I9'',
      transition_case ''ingest_while_source_unavailable'' ''ingest:k1''
        (initial\<lparr>sq := False\<rparr>) (initial\<lparr>sq := False, pool := [''k1'']\<rparr>) ''G1'',
      transition_case ''alloc_ekm_while_ekm_unreachable'' ''alloc_ekm:k1:v1''
        (initial\<lparr>se := False, pool := [''k1'']\<rparr>)
        (initial\<lparr>se := False, bindings := {(''k1'', ''ekm'', ''v1'')}, ke := Some ''v1''\<rparr>) ''G2'',
      transition_case ''reject_stale_changes_authoritative_state'' ''reject_stale''
        active_vpn (active_vpn\<lparr>epoch := 2\<rparr>) ''G3'',
      transition_case ''recover_without_restored_dependencies'' ''recover''
        (initial\<lparr>sq := False, recovery := False\<rparr>) (initial\<lparr>sq := False, recovery := False\<rparr>) ''G4'']"

definition detect :: "seeded_case \<Rightarrow> string list py" where
  "detect c =
     (if c_kind c = ''state'' then
        (case c_subject c of
           SState s \<Rightarrow> Inr (invariants_of (stored_mode s) (stored_consequences s) False (lc_state.truncate s))
         | STransition l s t \<Rightarrow> Inl (OtherError ''AttributeError''))
      else
        (case c_subject c of
           SState s \<Rightarrow> Inl TypeError
         | STransition l s t \<Rightarrow> Inr (guards l s t)))"

record seeded_row =
  row_name :: string
  row_kind :: string
  row_expected :: string
  row_detected :: "string list"

definition run_seeded :: "seeded_row list py" where
  "run_seeded =
     map_py (\<lambda>c. bind_py (detect c) (\<lambda>found.
         Inr \<lparr> row_name = c_name c, row_kind = c_kind c, row_expected = c_expected c,
               row_detected = found \<rparr>))
       cases"

section \<open>Every check catches the case seeded for it\<close>

text \<open>Each of the thirteen seeded cases is caught by the check it expects and by no other;
  the cases exercise every state property and every transition guard once, in the order of
  \<open>INVARIANTS\<close> and \<open>GUARDS\<close>, and no detection raises.\<close>

theorem seeded_cases_detected:
  "map_sum id (map (\<lambda>row. (row_expected row, row_detected row))) run_seeded =
     Inr (map (\<lambda>name. (name, [name])) (map fst INVARIANTS @ map fst GUARDS))"
  by code_simp

lemma seeded_plain: "invariants_of (stored_mode (seeded s)) (stored_consequences (seeded s)) False
    (lc_state.truncate (seeded s)) = invariants False s"
  by (cases s) (simp add: seeded_def invariants_def lc_state.defs)

text \<open>The checks are independent of the generator: a state that any check names is not
  reachable, whatever reading of the rules the enumeration runs with.\<close>

theorem seeded_states_unreachable:
  assumes "detect (state_case n (seeded s) x) = Inr (v # vs)" and "\<not> retains r"
  shows "\<not> lc_reachable r s"
proof
  assume "lc_reachable r s"
  from lc_ok_invariants [OF lc_reachable_ok [OF this]] assms(2)
  have "invariants False s = []" by simp
  with assms(1) seeded_plain [of s] show False by (simp add: detect_def state_case_def)
qed

theorem seeded_states_unreachable_witness:
  "\<not> lc_reachable DEFAULT_RULES (initial\<lparr>pool := [''k1'', ''k1'']\<rparr>)"
proof (rule seeded_states_unreachable)
  show "detect (state_case ''duplicate_pool_entry'' (seeded (initial\<lparr>pool := [''k1'', ''k1'']\<rparr>)) ''I1'') = Inr [''I1'']"
    by code_simp
  show "\<not> retains DEFAULT_RULES" by (simp add: retains_def DEFAULT_RULES_def base_rules_def)
qed

end
