(* ===== verification/ModelReport.thy ===== *)
theory ModelReport
  imports ModelEnumerate ModelSeeded
begin

text \<open>
  The report of \<open>enumerate.py\<close> (\<open>summary\<close>, the rows of \<open>write\<close>, \<open>markdown\<close>) and the exit status of
  \<open>model/__main__.py\<close>. A row of a csv file is the list of its cells; quoting them, writing the
  files and the JSON encoding of the report are the standard library's.
\<close>

record report =
  rp_states :: nat
  rp_transitions :: nat
  rp_max_depth :: nat
  rp_invariants :: "string list"
  rp_guards :: "string list"
  rp_violations :: "violation list"
  rp_by_mode :: "(string \<times> nat) list"
  rp_rules :: rules

text \<open>\<open>by_mode[m] = by_mode.get(m, 0) + 1\<close> on a dictionary in insertion order.\<close>

fun dict_incr :: "'k \<Rightarrow> ('k \<times> nat) list \<Rightarrow> ('k \<times> nat) list" where
  "dict_incr k [] = [(k, 1)]"
| "dict_incr k ((k', n) # d) = (if k' = k then (k', n + 1) # d else (k', n) # dict_incr k d)"

definition summary :: "result \<Rightarrow> rules option \<Rightarrow> report" where
  "summary result rules =
     (let effective_rules = (case rules of None \<Rightarrow> r_rules result | Some r \<Rightarrow> r);
          by_mode = fold (\<lambda>s d. dict_incr (mode s) d) (map fst (r_states result)) []
      in \<lparr> rp_states = length (r_states result),
           rp_transitions = length (r_transitions result),
           rp_max_depth = r_max_depth result,
           rp_invariants = sort (map fst INVARIANTS),
           rp_guards = sort (map fst GUARDS),
           rp_violations = r_violations result,
           rp_by_mode = sort_key fst by_mode,
           rp_rules = effective_rules \<rparr>)"

definition bit :: "bool \<Rightarrow> string" where
  "bit b = (if b then ''1'' else ''0'')"

definition joined :: "string \<Rightarrow> string list \<Rightarrow> string" where
  "joined sep xs = concat (case xs of [] \<Rightarrow> [] | y # ys \<Rightarrow> y # map (\<lambda>x. sep @ x) ys)"

definition ref_cell :: "(string \<times> int) option \<Rightarrow> string" where
  "ref_cell p = (case p of None \<Rightarrow> [] | Some (k, e) \<Rightarrow> k @ '':'' @ str_int e)"

definition state_row :: "nat \<Rightarrow> nat \<Rightarrow> lc_state \<Rightarrow> string list" where
  "state_row i d s =
     [str_nat i, str_nat d, bit (sq s), bit (se s),
      joined ''|'' (sort (pool s)),
      joined ''|'' (sorted_list_of_set ((\<lambda>(a, b, c). a @ '':'' @ b @ '':'' @ c) ` bindings s)),
      (case ke s of None \<Rightarrow> [] | Some v \<Rightarrow> v), ref_cell (kp s), ref_cell (kv s),
      str_int (epoch s), bit (authority s), bit (recovery s), mode s,
      bit (d_storage (derived_of s)), bit (d_fresh_allocation (derived_of s)),
      d_established_vpn (derived_of s)]"

definition states_csv :: "result \<Rightarrow> string list list py" where
  "states_csv result =
     map_sum id (\<lambda>rows. [''id'', ''depth'', ''sq'', ''se'', ''pool'', ''bindings'', ''ke'', ''kp'', ''kv'',
         ''epoch'', ''authority'', ''recovery'', ''mode'', ''C_S'', ''C_N'', ''C_V''] # rows)
       (map_py (\<lambda>(s, i). case map_of (r_states result) s of
             None \<Rightarrow> Inl KeyError
           | Some d \<Rightarrow> Inr (state_row i d s))
         (sort_key snd (r_index result)))"

definition transitions_csv :: "result \<Rightarrow> string list list" where
  "transitions_csv result =
     [''src'', ''label'', ''dst''] # map (\<lambda>(i, l, j). [str_nat i, l, str_nat j]) (r_transitions result)"

record seeded_summary =
  sd_cases :: nat
  sd_undetected :: nat
  sd_rows :: "seeded_row list"

definition write_seeded :: "(string list list \<times> seeded_summary) py" where
  "write_seeded = map_sum id (\<lambda>rows.
     ([''name'', ''kind'', ''expected_check'', ''detected_by''] #
        map (\<lambda>w. [row_name w, row_kind w, row_expected w, joined ''|'' (row_detected w)]) rows,
      \<lparr> sd_cases = length rows,
        sd_undetected = length (filter (\<lambda>w. row_expected w \<notin> set (row_detected w)) rows),
        sd_rows = rows \<rparr>)) run_seeded"

definition markdown :: "report \<Rightarrow> seeded_summary option \<Rightarrow> string" where
  "markdown report sd_opt =
     joined [CHR 0x0A]
       ([''# Lifecycle reference model report'', [],
         ''- Reachable states: '' @ str_nat (rp_states report),
         ''- Labeled transitions: '' @ str_nat (rp_transitions report),
         ''- Maximum shortest-path depth: '' @ str_nat (rp_max_depth report),
         ''- State properties checked: '' @ joined '', '' (rp_invariants report),
         ''- Transition guards checked: '' @ joined '', '' (rp_guards report),
         ''- Violations: '' @ str_nat (length (rp_violations report)), [],
         ''## Reachable states by lifecycle mode'', [],
         ''| Mode | States |'', ''| --- | ---: |''] @
        map (\<lambda>(m, n). ''| '' @ m @ '' | '' @ str_nat n @ '' |'') (rp_by_mode report) @
        (case sd_opt of None \<Rightarrow> []
         | Some sd \<Rightarrow>
             [[], ''## Seeded sensitivity analysis'', [],
              ''- Seeded cases: '' @ str_nat (sd_cases sd),
              ''- Undetected: '' @ str_nat (sd_undetected sd), [],
              ''| Case | Kind | Expected | Detected by |'', ''| --- | --- | --- | --- |''] @
             map (\<lambda>w. ''| '' @ row_name w @ '' | '' @ row_kind w @ '' | '' @ row_expected w @ '' | '' @
                 joined '', '' (row_detected w) @ '' |'') (sd_rows sd))) @ [CHR 0x0A]"

datatype command = Enumerate | Seeded | All

text \<open>
  The exit status of the command line. \<open>report\<close> stays empty unless the enumeration ran, and the seeded
  summary is stored in it only then, so \<open>report.get("seeded", {})\<close> finds it only with both.
\<close>

definition exit_status :: "report option \<Rightarrow> seeded_summary option \<Rightarrow> nat" where
  "exit_status report sd =
     (let failed =
        (case report of
           None \<Rightarrow> False
         | Some rp \<Rightarrow> rp_violations rp \<noteq> [] \<or> (case sd of None \<Rightarrow> False | Some w \<Rightarrow> sd_undetected w \<noteq> 0))
      in if failed then 1 else 0)"

definition main_status :: "command \<Rightarrow> nat py option" where
  "main_status cmd =
     map_option (\<lambda>enumerated. bind_py enumerated (\<lambda>report.
         if cmd = Enumerate then Inr (exit_status report None)
         else map_sum id (\<lambda>p. exit_status report (Some (snd p))) write_seeded))
       (if cmd = Seeded then Some (Inr None)
        else map_option (map_sum id (\<lambda>res. Some (summary res None))) (run DEFAULT_RULES None))"

section \<open>Counting the states by mode\<close>

lemma dict_incr_map_of:
  "map_of (dict_incr k d) = (map_of d)(k \<mapsto> (case map_of d k of None \<Rightarrow> 1 | Some n \<Rightarrow> n + 1))"
  by (induction k d rule: dict_incr.induct) (auto simp: fun_eq_iff)

lemma dict_incr_keys:
  "fst ` set (dict_incr k d) = insert k (fst ` set d)"
  "distinct (map fst d) \<Longrightarrow> distinct (map fst (dict_incr k d))"
proof (induction k d rule: dict_incr.induct)
  case (2 k k' n d)
  { case 1 from 2 show ?case by auto }
  { case 2 with "2.IH" show ?case by auto }
qed simp_all

definition counts :: "('k \<times> nat) list \<Rightarrow> 'k list \<Rightarrow> bool" where
  "counts d xs \<longleftrightarrow> distinct (map fst d) \<and>
     (\<forall>k. map_of d k = (if k \<in> set xs then Some (length (filter (\<lambda>x. x = k) xs)) else None))"

lemma counts_incr: "counts d xs \<Longrightarrow> counts (dict_incr k d) (xs @ [k])"
  by (auto simp: counts_def dict_incr_map_of dict_incr_keys filter_empty_conv)

lemma counts_fold: "counts d xs \<Longrightarrow> counts (fold (\<lambda>s d. dict_incr (f s) d) ys d) (xs @ map f ys)"
proof (induction ys arbitrary: d xs)
  case (Cons y ys)
  from Cons.IH [OF counts_incr [OF Cons.prems, of "f y"]] show ?case by simp
qed simp

lemma map_of_sort_key: "distinct (map fst d) \<Longrightarrow> map_of (sort_key fst d) = map_of d"
  by (subst map_of_inject_set) (auto simp: distinct_map)

lemma counts_sort: "counts d xs \<Longrightarrow> counts (sort_key fst d) xs"
  by (auto simp: counts_def map_of_sort_key) (simp add: distinct_map)

lemma summary_by_mode: "counts (rp_by_mode (summary res r)) (map mode (map fst (r_states res)))"
proof -
  have "counts [] ([] :: string list)" by (simp add: counts_def)
  from counts_sort [OF counts_fold [OF this, of mode "map fst (r_states res)"]]
  show ?thesis by (simp add: summary_def Let_def del: map_map)
qed

text \<open>The report's count of a mode is the number of enumerated states in that mode, each
  mode is listed once, in the order of the names, and only the six modes of the model are listed.\<close>

theorem summary_counts_modes:
  "map_of (rp_by_mode (summary res r)) m =
     (let n = length (filter (\<lambda>s. mode s = m) (map fst (r_states res)))
      in if n = 0 then None else Some n) \<and>
   distinct (map fst (rp_by_mode (summary res r))) \<and>
   sorted (map fst (rp_by_mode (summary res r))) \<and>
   fst ` set (rp_by_mode (summary res r)) \<subseteq> set MODES"
proof -
  let ?c = "rp_by_mode (summary res r)" and ?xs = "map mode (map fst (r_states res))"
  note c = summary_by_mode [of res r]
  have keys: "m \<in> fst ` set ?c \<longleftrightarrow> m \<in> set ?xs" for m
  proof -
    have "m \<in> fst ` set ?c \<longleftrightarrow> map_of ?c m \<noteq> None" by (simp add: map_of_eq_None_iff)
    also have "\<dots> \<longleftrightarrow> m \<in> set ?xs" using c by (simp add: counts_def del: map_map)
    finally show ?thesis .
  qed
  have "fst ` set ?c \<subseteq> set MODES"
  proof
    fix m assume "m \<in> fst ` set ?c"
    then have "m \<in> set ?xs" unfolding keys .
    then show "m \<in> set MODES" using mode_in_MODES by auto
  qed
  moreover have "length (filter (\<lambda>x. x = m) ?xs) = length (filter (\<lambda>s. mode s = m) (map fst (r_states res)))"
    by (simp add: filter_map o_def)
  moreover have "m \<in> set ?xs \<longleftrightarrow> length (filter (\<lambda>s. mode s = m) (map fst (r_states res))) \<noteq> 0"
    by (auto simp: filter_empty_conv)
  moreover have "sorted (map fst ?c)" by (simp add: summary_def Let_def)
  ultimately show ?thesis using c by (simp add: counts_def Let_def del: map_map)
qed

text \<open>\<open>qkd-ekm-model all\<close> ends with status 0: the enumeration of the default reading reports
  no violation and all thirteen seeded cases are detected.\<close>

theorem main_all_succeeds: "main_status All = Some (Inr 0)"
proof -
  obtain res where run: "run DEFAULT_RULES None = Some (Inr res)" "r_violations res = []"
    using model_lts_run_clean by blast
  have "case write_seeded of Inl e \<Rightarrow> False | Inr w \<Rightarrow> sd_undetected (snd w) = 0" by code_simp
  then obtain w where w: "write_seeded = Inr w" "sd_undetected (snd w) = 0"
    by (auto split: sum.splits)
  show ?thesis
    unfolding main_status_def run w by (simp add: exit_status_def summary_def Let_def w run)
qed

text \<open>With the command \<open>seeded\<close> alone the status is 0 however many seeded cases go
  undetected, because the summary is never stored in the report \<open>main\<close> reads.\<close>

theorem seeded_alone_never_fails: "exit_status None (Some w) = 0"
  by (simp add: exit_status_def)

end
