(* ===== verification/ModelProperties.thy ===== *)
theory ModelProperties
  imports ModelReport
begin

text \<open>
  What the reference model promises over time: properties of its steps and runs, for every reading
  unless a knob is named. The steps are split once, by family; each property is proved family by
  family and put together by \<open>lc_step_families\<close>.
\<close>

section \<open>Runs\<close>

definition lc_runs :: "rules \<Rightarrow> lc_state \<Rightarrow> lc_state \<Rightarrow> bool" where
  "lc_runs r s t \<longleftrightarrow> (\<lambda>s t. \<exists>l. lc_step r s l t)\<^sup>*\<^sup>* s t"

lemma lc_runs_refl: "lc_runs r s s"
  by (simp add: lc_runs_def)

lemma lc_runs_step: "lc_runs r s t \<Longrightarrow> lc_step r t l u \<Longrightarrow> lc_runs r s u"
  unfolding lc_runs_def by (blast intro: rtranclp.rtrancl_into_rtrancl)

lemma lc_runs_reachable: "lc_runs r s t \<Longrightarrow> lc_reachable r s \<Longrightarrow> lc_reachable r t"
  unfolding lc_runs_def by (induction rule: rtranclp_induct) (auto intro: lc_reachable.step)

lemma lc_runs_invariant:
  assumes "lc_runs r s t" "P s" "\<And>u l v. P u \<Longrightarrow> lc_step r u l v \<Longrightarrow> P v"
  shows "P t"
  using assms(1,2) unfolding lc_runs_def by (induction rule: rtranclp_induct) (auto intro: assms(3))

lemma lc_step_families:
  assumes "lc_step r s l t"
  obtains
    "(l, t) \<in> set (ingest_events r s)" | "(l, t) \<in> set (expire_events r s)"
  | "(l, t) \<in> set (alloc_ekm_events r s)"
  | objs where "vpn_objects s = Inr objs" "(l, t) \<in> set (alloc_vpn_events r s (next_epoch s objs))"
  | "(l, t) \<in> set (activate_events r s)" | "(l, t) \<in> set (abandon_events r s)"
  | "(l, t) \<in> set (session_end_events r s)" | "(l, t) \<in> set (reject_events r s)"
  | "(l, t) \<in> set (dependency_events r s)" | "(l, t) \<in> set (authority_events r s)"
  | "(l, t) \<in> set (reconcile_events r s)" | "(l, t) \<in> set (recover_events r s)"
  using assms by (auto simp: lc_step_iff enabled_def events_of_def split: sum.splits)

lemmas quiet_event_defs =
  ingest_events_def expire_events_def session_end_events_def reject_events_def dependency_events_def
  authority_events_def reconcile_events_def recover_events_def

lemma lc_step_code [code]:
  "lc_step r s l t \<longleftrightarrow> (case enabled r s of Inl e \<Rightarrow> False | Inr out \<Rightarrow> (l, t) \<in> set out)"
  by (auto simp: lc_step_iff split: sum.splits)

section \<open>Bindings are permanent\<close>

lemma step_bindings: "lc_step r s l t \<Longrightarrow> bindings s \<subseteq> bindings t"
  by (erule lc_step_families)
     (auto simp: quiet_event_defs alloc_ekm_events_def alloc_vpn_events_def alloc_vpn_state_def
        activate_events_def abandon_events_def Let_def split: if_splits option.splits)

lemma runs_bindings: "lc_runs r s t \<Longrightarrow> bindings s \<subseteq> bindings t"
  by (erule lc_runs_invariant [where P = "\<lambda>u. bindings s \<subseteq> bindings u"]) (auto dest: step_bindings)

section \<open>Epochs only grow\<close>

lemma step_epoch:
  assumes "lc_step r s l t" "lc_ok r s"
  shows "epoch s \<le> epoch t \<and>
    (\<forall>k e. kv t = Some (k, e) \<longrightarrow> kv t \<noteq> kv s \<longrightarrow> epoch s < e \<and> epoch t = e)"
  using assms(1)
proof (cases rule: lc_step_families)
  case (4 objs)
  have "epoch s < e" if "e \<in> set [next_epoch s objs..MAX_EPOCH] \<or> e = next_epoch s objs" for e
    using that by (auto simp: next_epoch_def)
  with 4 show ?thesis
    by (fastforce simp: alloc_vpn_events_def alloc_vpn_state_def Let_def split: if_splits)
next
  case 6
  have "\<forall>k e. kp s = Some (k, e) \<longrightarrow> epoch s < e"
    using assms(2) by (auto simp: lc_ok_def ref_defs)
  with 6 show ?thesis by (cases "kp s") (auto simp: abandon_events_def Let_def split: if_splits)
qed (auto simp: quiet_event_defs alloc_ekm_events_def activate_events_def Let_def
       split: if_splits option.splits)

lemma runs_epoch:
  assumes "lc_runs r s t" "lc_ok r s"
  shows "epoch s \<le> epoch t \<and> lc_ok r t"
  by (rule lc_runs_invariant [OF assms(1), where P = "\<lambda>u. epoch s \<le> epoch u \<and> lc_ok r u"])
     (use assms(2) step_epoch lc_step_ok in \<open>fastforce+\<close>)

section \<open>The properties of the model\<close>

text \<open>Property C11. No reachable state of the reference model violates a state property I1..I9, whatever
  the reading of the rules (I7 in the variant that the reading selects).\<close>

theorem reachable_states_consistent:
  assumes "lc_reachable r s"
  shows "invariants (retains r) s = []"
  by (rule lc_ok_invariants [OF lc_reachable_ok [OF assms]])

lemma ingest_k1: "lc_step DEFAULT_RULES initial ''ingest:k1'' (initial\<lparr>pool := [''k1'']\<rparr>)"
  by code_simp

theorem reachable_states_consistent_witness:
  "invariants (retains DEFAULT_RULES) (initial\<lparr>pool := [''k1'']\<rparr>) = []"
  by (rule reachable_states_consistent [OF lc_reachable.step [OF lc_reachable.start ingest_k1]])

text \<open>Property C12. No transition out of a reachable state violates a guard G1..G4, and listing the
  transitions of a reachable state never raises.\<close>

theorem reachable_steps_guarded:
  assumes "lc_reachable r s"
  shows "\<exists>out. enabled r s = Inr out \<and> list_all (\<lambda>(l, t). guards l s t = []) out"
proof -
  from lc_reachable_ok [OF assms] have ok: "lc_ok r s" .
  then obtain out where out: "enabled r s = Inr out" using enabled_total by (auto simp: lc_ok_def)
  then show ?thesis using lc_step_guards [OF lc_step.intros [OF out] ok] by (auto simp: list_all_iff)
qed

theorem reachable_steps_guarded_witness:
  "\<exists>out. enabled DEFAULT_RULES (initial\<lparr>pool := [''k1'']\<rparr>) = Inr out \<and>
     list_all (\<lambda>(l, t). guards l (initial\<lparr>pool := [''k1'']\<rparr>) t = []) out"
  by (rule reachable_steps_guarded [OF lc_reachable.step [OF lc_reachable.start ingest_k1]])

text \<open>Property C21. An identifier is consumed once: a binding made in a run is kept to its end, its
  identifier is never bound to another purpose or object, and it is never again in the pool.\<close>

theorem identifiers_used_once:
  assumes "lc_reachable r s" "lc_runs r s t" "(k, p, ob) \<in> bindings s"
  shows "(k, p, ob) \<in> bindings t \<and> {b \<in> bindings t. fst b = k} = {(k, p, ob)} \<and> k \<notin> set (pool t)"
proof -
  have b: "(k, p, ob) \<in> bindings t" using runs_bindings [OF assms(2)] assms(3) by auto
  have ok: "core_ok r t"
    using lc_reachable_ok [OF lc_runs_reachable [OF assms(2,1)]] by (simp add: lc_ok_def)
  then have "inj_on fst (bindings t)" by (simp add: core_ok_def)
  then have "{x \<in> bindings t. fst x = k} = {(k, p, ob)}" using b by (force simp: inj_on_def)
  moreover have "k \<in> consumed t" using b by (auto simp: consumed_iff)
  ultimately show ?thesis using b ok by (auto simp: core_ok_def)
qed

lemma alloc_k1:
  "lc_step DEFAULT_RULES (initial\<lparr>pool := [''k1'']\<rparr>) ''alloc_ekm:k1:v1''
     (initial\<lparr>bindings := {(''k1'', ''ekm'', ''v1'')}, ke := Some ''v1''\<rparr>)"
  by code_simp

theorem identifiers_used_once_witness:
  "''k1'' \<notin> set (pool (initial\<lparr>bindings := {(''k1'', ''ekm'', ''v1'')}, ke := Some ''v1''\<rparr>))"
  using identifiers_used_once
    [OF lc_reachable.step [OF lc_reachable.step [OF lc_reachable.start ingest_k1] alloc_k1] lc_runs_refl,
      of "''k1''" "''ekm''" "''v1''"] by simp

text \<open>Replay is impossible: when a VPN version is active in a reachable state, every
  activation later in the run is of a strictly greater epoch, which becomes the authoritative one.\<close>

theorem activations_never_replay:
  assumes "lc_reachable r s" "kv s = Some (k, e)" "lc_runs r s u" "lc_step r u l v"
    and "kv v = Some (k', e')" "kv v \<noteq> kv u"
  shows "e < e' \<and> epoch v = e'"
proof -
  have ok: "lc_ok r s" using lc_reachable_ok [OF assms(1)] .
  then have "e = epoch s" using assms(2) by (simp add: lc_ok_def ref_defs)
  moreover have "epoch s \<le> epoch u" "lc_ok r u" using runs_epoch [OF assms(3) ok] by auto
  ultimately show ?thesis using step_epoch [OF assms(4)] assms(5,6) by fastforce
qed

definition vpn_active :: lc_state where
  "vpn_active = initial\<lparr>bindings := {(''k1'', ''vpn'', ''1'')}, kv := Some (''k1'', 1), epoch := 1\<rparr>"

definition vpn_pending2 :: lc_state where
  "vpn_pending2 = vpn_active\<lparr>bindings := {(''k2'', ''vpn'', ''2''), (''k1'', ''vpn'', ''1'')},
     kp := Some (''k2'', 2)\<rparr>"

lemma vpn_path:
  "lc_step DEFAULT_RULES (initial\<lparr>pool := [''k1'']\<rparr>) ''alloc_vpn:k1:1''
     (initial\<lparr>bindings := {(''k1'', ''vpn'', ''1'')}, kp := Some (''k1'', 1)\<rparr>)"
  "lc_step DEFAULT_RULES (initial\<lparr>bindings := {(''k1'', ''vpn'', ''1'')}, kp := Some (''k1'', 1)\<rparr>)
     ''activate_vpn'' vpn_active"
  "lc_step DEFAULT_RULES vpn_active ''ingest:k2'' (vpn_active\<lparr>pool := [''k2'']\<rparr>)"
  "lc_step DEFAULT_RULES (vpn_active\<lparr>pool := [''k2'']\<rparr>) ''alloc_vpn:k2:2'' vpn_pending2"
  "lc_step DEFAULT_RULES vpn_pending2 ''activate_vpn''
     (vpn_pending2\<lparr>kv := Some (''k2'', 2), epoch := 2, kp := None\<rparr>)"
  by code_simp+

theorem activations_never_replay_witness:
  "1 < (2 :: int) \<and> epoch (vpn_pending2\<lparr>kv := Some (''k2'', 2), epoch := 2, kp := None\<rparr>) = 2"
proof (rule activations_never_replay)
  show "lc_reachable DEFAULT_RULES vpn_active"
    by (rule lc_reachable.step [OF lc_reachable.step [OF
        lc_reachable.step [OF lc_reachable.start ingest_k1] vpn_path(1)] vpn_path(2)])
  show "lc_runs DEFAULT_RULES vpn_active vpn_pending2"
    by (rule lc_runs_step [OF lc_runs_step [OF lc_runs_refl vpn_path(3)] vpn_path(4)])
  show "lc_step DEFAULT_RULES vpn_pending2 ''activate_vpn''
     (vpn_pending2\<lparr>kv := Some (''k2'', 2), epoch := 2, kp := None\<rparr>)" by (rule vpn_path(5))
qed (simp_all add: vpn_active_def vpn_pending2_def)

lemma mode_READY: "mode s = ''READY'' \<longleftrightarrow> \<not> recovery s \<and> \<not> detected s \<and> \<not> suspended s \<and> sq s \<and> se s"
  by (auto simp: mode_def derived_of_def derive_mode_cases)

lemma mode_RECOVERY: "mode s = ''RECOVERY'' \<longleftrightarrow> recovery s \<or> detected s"
  by (simp add: mode_def derived_of_def derive_mode_cases)

text \<open>The flags the mode reads, and the families of events that leave them alone.\<close>

definition health :: "lc_state \<Rightarrow> bool \<times> bool \<times> bool \<times> bool \<times> bool" where
  "health s = (sq s, se s, recovery s, detected s, suspended s)"

lemma mode_health: "mode s = ''READY'' \<longleftrightarrow> health s = (True, True, False, False, False)"
  by (auto simp: mode_READY health_def)

lemma health_update [simp]:
  "health (pool_add r k s) = health s" "health (pool_take r k s) = health s"
  "health (s\<lparr>pool := p\<rparr>) = health s" "health (s\<lparr>bindings := b\<rparr>) = health s"
  "health (s\<lparr>ke := v\<rparr>) = health s" "health (s\<lparr>kp := w\<rparr>) = health s" "health (s\<lparr>kv := w\<rparr>) = health s"
  "health (s\<lparr>epoch := e\<rparr>) = health s" "health (s\<lparr>expired := x\<rparr>) = health s"
  by (simp_all add: health_def pool_add_def pool_take_def)

lemma ingest_health: "(l, t) \<in> set (ingest_events r s) \<Longrightarrow> health t = health s"
  by (auto simp: ingest_events_def split: if_splits)

lemma expire_health: "(l, t) \<in> set (expire_events r s) \<Longrightarrow> health t = health s"
  by (auto simp: expire_events_def Let_def split: if_splits)

lemma alloc_ekm_health: "(l, t) \<in> set (alloc_ekm_events r s) \<Longrightarrow> health t = health s"
  by (auto simp: alloc_ekm_events_def split: if_splits)

lemma alloc_vpn_health: "(l, t) \<in> set (alloc_vpn_events r s n) \<Longrightarrow> health t = health s"
  by (auto simp: alloc_vpn_events_def alloc_vpn_state_def Let_def split: if_splits)

lemma session_end_health: "(l, t) \<in> set (session_end_events r s) \<Longrightarrow> health t = health s"
  by (auto simp: session_end_events_def split: if_splits)

lemma reject_health: "(l, t) \<in> set (reject_events r s) \<Longrightarrow> health t = health s"
  by (auto simp: reject_events_def Let_def split: if_splits)

lemma activate_health: "(l, t) \<in> set (activate_events r s) \<Longrightarrow> health t = health s"
  by (cases "kp s") (auto simp: activate_events_def split: if_splits)

lemma abandon_health: "(l, t) \<in> set (abandon_events r s) \<Longrightarrow> health t = health s"
  by (cases "kp s") (auto simp: abandon_events_def Let_def split: if_splits)

lemmas quiet_health =
  ingest_health expire_health alloc_ekm_health alloc_vpn_health session_end_health reject_health
  activate_health abandon_health

lemma dependency_targets:
  "(l, t) \<in> set (dependency_events r s) \<Longrightarrow>
   (\<not> sq t \<or> \<not> se t) \<and> recovery t = recovery s \<and> detected t = detected s \<and> suspended t = suspended s \<or>
   (\<exists>a b. t = restore r a b s)"
  by (auto simp: dependency_events_def interrupt_def Let_def split: if_splits)

lemma authority_targets:
  "(l, t) \<in> set (authority_events r s) \<Longrightarrow>
   sq t = sq s \<and> se t = se s \<and> recovery t = recovery s \<and> detected t = detected s \<and>
   (suspended t = suspended s \<or> suspended t)"
  by (auto simp: authority_events_def Let_def split: if_splits)

lemma restore_flags:
  "restore_sets_recovery r \<Longrightarrow> sq (restore r a b s) \<Longrightarrow> se (restore r a b s) \<Longrightarrow>
   recovery (restore r a b s) \<or> detected (restore r a b s)"
  by (auto simp: restore_def Let_def)

text \<open>In every reading where a restored dependency raises the recovery flag, the mode READY is
  entered only by the transition \<open>recover\<close>, from whatever mode the outage left.\<close>

theorem ready_entered_only_by_recover:
  assumes "restore_sets_recovery r" "lc_step r s l t" "mode s \<noteq> ''READY''" "mode t = ''READY''"
  shows "l = ''recover'' \<and> mode s \<in> {''RECOVERY'', ''SUSPENDED''}"
  using assms(2)
proof (cases rule: lc_step_families)
  case 12
  then have "l = ''recover''" "recovery s" by (auto simp: recover_events_def split: if_splits)
  then show ?thesis by (simp add: mode_RECOVERY)
next
  case 9
  from dependency_targets [OF this] consider "\<not> sq t \<or> \<not> se t" | a b where "t = restore r a b s"
    by blast
  then have "mode t \<noteq> ''READY''"
  proof cases
    case 1
    then show ?thesis by (simp add: mode_READY)
  next
    case 2
    then show ?thesis using restore_flags [OF assms(1), of a b s] by (auto simp: mode_READY)
  qed
  with assms(4) show ?thesis by simp
next
  case 10
  with authority_targets [OF this] assms(3,4) show ?thesis by (simp add: mode_READY)
next
  case 11
  with assms(4) show ?thesis by (auto simp: mode_READY reconcile_events_def split: if_splits)
qed (use assms(3,4) in \<open>auto simp: mode_health dest!: quiet_health\<close>)

lemma outage_path:
  "lc_step DEFAULT_RULES (initial\<lparr>sq := False\<rparr>) ''src_up'' (initial\<lparr>recovery := True\<rparr>)"
  "lc_step DEFAULT_RULES initial ''src_down'' (initial\<lparr>sq := False\<rparr>)"
  "lc_step DEFAULT_RULES (initial\<lparr>recovery := True\<rparr>) ''recover'' initial"
  by code_simp+

theorem ready_entered_only_by_recover_witness:
  "mode (initial\<lparr>recovery := True\<rparr>) \<in> {''RECOVERY'', ''SUSPENDED''}"
  using ready_entered_only_by_recover [OF _ outage_path(3)]
  by (simp add: DEFAULT_RULES_def base_rules_def mode_READY initial_def)

text \<open>Under the default reading no flag but \<open>recovery\<close> ever blocks READY.\<close>

lemma default_flags:
  assumes "lc_step DEFAULT_RULES s l t" "\<not> detected s \<and> \<not> suspended s"
  shows "\<not> detected t \<and> \<not> suspended t"
  using assms(1)
proof (cases rule: lc_step_families)
  case 9
  have "\<not> detected (restore DEFAULT_RULES a b s) \<and> \<not> suspended (restore DEFAULT_RULES a b s)" for a b
    using assms(2) by (simp add: restore_def DEFAULT_RULES_def base_rules_def Let_def)
  with dependency_targets [OF 9] assms(2) show ?thesis by auto
next
  case 10
  with assms(2) show ?thesis
    by (auto simp: authority_events_def DEFAULT_RULES_def base_rules_def Let_def split: if_splits)
next
  case 11
  then show ?thesis by (simp add: reconcile_events_def DEFAULT_RULES_def base_rules_def)
next
  case 12
  with assms(2) show ?thesis by (auto simp: recover_events_def Let_def split: if_splits)
qed (use assms(2) in \<open>auto simp: health_def dest!: quiet_health\<close>)

lemma default_flags_reachable: "lc_reachable DEFAULT_RULES s \<Longrightarrow> \<not> detected s \<and> \<not> suspended s"
  by (induction rule: lc_reachable.induct) (simp add: initial_def, blast dest: default_flags)

lemma event_step: "lc_ok r s \<Longrightarrow> (\<And>objs. (l, t) \<in> set (events_of r s objs)) \<Longrightarrow> lc_step r s l t"
  using enabled_total [of r s] by (auto simp: lc_ok_def lc_step_iff enabled_def split: sum.splits)

lemma source_up_step:
  "lc_ok DEFAULT_RULES s \<Longrightarrow> \<not> sq s \<Longrightarrow> lc_step DEFAULT_RULES s ''src_up'' (s\<lparr>sq := True, recovery := True\<rparr>)"
  by (rule event_step)
     (auto simp: events_of_def dependency_events_def restore_def DEFAULT_RULES_def base_rules_def)

lemma ekm_up_step:
  "lc_ok DEFAULT_RULES s \<Longrightarrow> \<not> se s \<Longrightarrow> lc_step DEFAULT_RULES s ''ekm_up'' (s\<lparr>se := True, recovery := True\<rparr>)"
  by (rule event_step)
     (auto simp: events_of_def dependency_events_def restore_def DEFAULT_RULES_def base_rules_def)

lemma recover_step:
  "lc_ok DEFAULT_RULES s \<Longrightarrow> sq s \<Longrightarrow> se s \<Longrightarrow> recovery s \<Longrightarrow> \<not> suspended s \<Longrightarrow>
   lc_step DEFAULT_RULES s ''recover'' (s\<lparr>recovery := False\<rparr>)"
  by (rule event_step)
     (auto simp: events_of_def recover_events_def DEFAULT_RULES_def base_rules_def Let_def)

text \<open>Property C22. Recovery is always possible: under the default reading every reachable state has a run
  to READY that keeps the bindings, the pool, the active version, both VPN references and the
  epoch.\<close>

theorem recovery_always_possible:
  assumes "lc_reachable DEFAULT_RULES s"
  shows "lc_runs DEFAULT_RULES s (s\<lparr>sq := True, se := True, recovery := False\<rparr>) \<and>
    mode (s\<lparr>sq := True, se := True, recovery := False\<rparr>) = ''READY''"
proof -
  let ?r = DEFAULT_RULES
  note flags = default_flags_reachable [OF assms]
  have ok: "lc_ok ?r s" using lc_reachable_ok [OF assms] .
  define s1 where "s1 = (if sq s then s else s\<lparr>sq := True, recovery := True\<rparr>)"
  have r1: "lc_runs ?r s s1" "lc_ok ?r s1"
    using source_up_step [OF ok] lc_step_ok ok lc_runs_step [OF lc_runs_refl] by (auto simp: s1_def lc_runs_refl)
  define s2 where "s2 = (if se s1 then s1 else s1\<lparr>se := True, recovery := True\<rparr>)"
  have r2: "lc_runs ?r s s2" "lc_ok ?r s2"
    using ekm_up_step [OF r1(2)] lc_step_ok r1 lc_runs_step [OF r1(1)] by (auto simp: s2_def)
  have s2: "sq s2" "se s2" "\<not> suspended s2" using flags by (auto simp: s2_def s1_def)
  have "lc_runs ?r s (s2\<lparr>recovery := False\<rparr>)"
  proof (cases "recovery s2")
    case True
    from lc_runs_step [OF r2(1) recover_step [OF r2(2) s2(1,2) True s2(3)]] show ?thesis .
  next
    case False
    then have "s2\<lparr>recovery := False\<rparr> = s2" by simp
    then show ?thesis using r2(1) by (simp only:)
  qed
  moreover have "s2\<lparr>recovery := False\<rparr> = s\<lparr>sq := True, se := True, recovery := False\<rparr>"
    by (cases s) (simp add: s2_def s1_def)
  ultimately show ?thesis using flags by (simp add: mode_READY)
qed

theorem recovery_always_possible_witness:
  "lc_runs DEFAULT_RULES (initial\<lparr>sq := False\<rparr>) initial"
  using recovery_always_possible [OF lc_reachable.step [OF lc_reachable.start outage_path(2)]]
  by (simp add: initial_def)

text \<open>The fresh-allocation indicator does not gate the model's allocations: a state in
  RECOVERY, whose indicator is false, is reachable and still allocates an identifier.\<close>

definition recovering_k1 :: lc_state where
  "recovering_k1 = initial\<lparr>pool := [''k1''], recovery := True\<rparr>"

theorem allocation_enabled_in_recovery:
  "lc_reachable DEFAULT_RULES recovering_k1 \<and> mode recovering_k1 = ''RECOVERY'' \<and>
   map_of (consequences recovering_k1) ''fresh_allocation'' = Some (PBool False) \<and>
   lc_step DEFAULT_RULES recovering_k1 ''alloc_ekm:k1:v1''
     (initial\<lparr>bindings := {(''k1'', ''ekm'', ''v1'')}, ke := Some ''v1'', recovery := True\<rparr>)"
proof (intro conjI)
  have "lc_step DEFAULT_RULES (initial\<lparr>recovery := True\<rparr>) ''ingest:k1'' recovering_k1" by code_simp
  then show "lc_reachable DEFAULT_RULES recovering_k1"
    using outage_path lc_reachable.intros by metis
qed code_simp+

end
