(* ===== verification/SimStore.thy ===== *)
theory SimStore
  imports QkdPrelude "HOL-Library.AList"
begin

text \<open>
  \<open>src/qkd_ekm/qkdsim/store.py\<close>: the key store of the KME simulator. \<open>rand n\<close> is what \<open>uuid.uuid4\<close> and
  the generator give for the \<open>n\<close>-th key issued; \<open>issued_count\<close> is that \<open>n\<close>. The dictionary of keys is
  an association list. The time is an argument and floats are rationals.
\<close>

definition KEY_BITS :: int where
  "KEY_BITS = 256"

definition KEY_BYTES :: nat where
  "KEY_BYTES = 32"

record sim_key =
  sk_id :: string
  sk_material :: bytes
  sk_pair :: "string \<times> string"

record key_store =
  rate_units_per_s :: rat
  inventory :: int
  source_on :: bool
  start_time :: rat
  s_keys :: "(string \<times> sim_key) list"
  consumed_ids :: "string set"
  issued_count :: nat
  consumed_keys :: int
  consumed_bits :: int
  key_requests :: int
  failed_key_requests :: int
  deleted_bits :: int

definition KeyStore :: "rat \<Rightarrow> int \<Rightarrow> rat \<Rightarrow> key_store" where
  "KeyStore rate inv0 now =
     \<lparr> rate_units_per_s = rate, inventory = inv0, source_on = True, start_time = now, s_keys = [],
       consumed_ids = {}, issued_count = 0, consumed_keys = 0, consumed_bits = 0, key_requests = 0,
       failed_key_requests = 0, deleted_bits = 0 \<rparr>"

text \<open>\<open>int\<close> of a float truncates towards zero.\<close>

definition py_trunc :: "rat \<Rightarrow> int" where
  "py_trunc q = (if q < 0 then - \<lfloor>- q\<rfloor> else \<lfloor>q\<rfloor>)"

definition generated_bits :: "rat \<Rightarrow> key_store \<Rightarrow> int" where
  "generated_bits now s = py_trunc ((now - start_time s) * rate_units_per_s s * of_int KEY_BITS)"

definition available_256bit_keys :: "key_store \<Rightarrow> int" where
  "available_256bit_keys s = inventory s - int (issued_count s)"

definition pending_count :: "key_store \<Rightarrow> int" where
  "pending_count s = int (length (s_keys s)) - int (card (consumed_ids s))"

definition sim_new_key :: "(nat \<Rightarrow> string \<times> bytes) \<Rightarrow> string \<times> string \<Rightarrow> key_store \<Rightarrow> sim_key \<times> key_store" where
  "sim_new_key rand pair s =
     (let (key_id, material) = rand (issued_count s);
          key = \<lparr> sk_id = key_id, sk_material = material, sk_pair = pair \<rparr>
      in (key, s\<lparr>s_keys := AList.update key_id key (s_keys s),
                 issued_count := issued_count s + 1,
                 consumed_keys := consumed_keys s + 1,
                 consumed_bits := consumed_bits s + KEY_BITS\<rparr>))"

definition get_by_id :: "string \<Rightarrow> key_store \<Rightarrow> sim_key option" where
  "get_by_id key_id s = map_of (s_keys s) key_id"

definition sim_is_consumed :: "string \<Rightarrow> key_store \<Rightarrow> bool" where
  "sim_is_consumed key_id s \<longleftrightarrow> key_id \<in> consumed_ids s"

definition consume :: "string \<Rightarrow> key_store \<Rightarrow> sim_key option \<times> key_store" where
  "consume key_id s =
     (case map_of (s_keys s) key_id of
        None \<Rightarrow> (None, s)
      | Some key \<Rightarrow>
          if key_id \<in> consumed_ids s then (None, s)
          else (Some key, s\<lparr>consumed_ids := insert key_id (consumed_ids s),
                            deleted_bits := deleted_bits s + KEY_BITS\<rparr>))"

fun sim_new_keys :: "(nat \<Rightarrow> string \<times> bytes) \<Rightarrow> string \<times> string \<Rightarrow> nat \<Rightarrow> key_store \<Rightarrow> sim_key list \<times> key_store" where
  "sim_new_keys rand pair 0 s = ([], s)"
| "sim_new_keys rand pair (Suc n) s =
     (case sim_new_key rand pair s of (k, s1) \<Rightarrow>
      (case sim_new_keys rand pair n s1 of (ks, s2) \<Rightarrow> (k # ks, s2)))"

section \<open>What the store keeps\<close>

text \<open>With distinct identifiers from \<open>uuid4\<close>, the keys are those drawn so far, every identifier is mapped
  to the key drawn under it, and the counters count.\<close>

definition sim_ok :: "(nat \<Rightarrow> string \<times> bytes) \<Rightarrow> key_store \<Rightarrow> bool" where
  "sim_ok rand s \<longleftrightarrow>
     map fst (s_keys s) = map (\<lambda>i. fst (rand i)) [0..<issued_count s] \<and>
     (\<forall>i < issued_count s. \<exists>pair. map_of (s_keys s) (fst (rand i)) =
        Some \<lparr> sk_id = fst (rand i), sk_material = snd (rand i), sk_pair = pair \<rparr>) \<and>
     finite (consumed_ids s) \<and> consumed_ids s \<subseteq> fst ` set (s_keys s) \<and>
     consumed_keys s = int (issued_count s) \<and> consumed_bits s = KEY_BITS * int (issued_count s) \<and>
     deleted_bits s = KEY_BITS * int (card (consumed_ids s))"

lemma sim_ok_start: "sim_ok rand (KeyStore rate inv0 now)"
  by (simp add: sim_ok_def KeyStore_def)

lemma update_fresh: "k \<notin> fst ` set xs \<Longrightarrow> AList.update k v xs = xs @ [(k, v)]"
  by (induction xs) auto

lemma sim_new_key_ok:
  assumes ok: "sim_ok rand s" and inj: "inj (\<lambda>i. fst (rand i))" and new: "sim_new_key rand pair s = (k, s')"
  shows "sim_ok rand s' \<and> issued_count s' = Suc (issued_count s) \<and> consumed_ids s' = consumed_ids s \<and>
    source_on s' = source_on s \<and> key_requests s' = key_requests s \<and>
    failed_key_requests s' = failed_key_requests s \<and> inventory s' = inventory s \<and>
    k = \<lparr> sk_id = fst (rand (issued_count s)), sk_material = snd (rand (issued_count s)), sk_pair = pair \<rparr>"
proof -
  let ?n = "issued_count s"
  have keys: "fst ` set (s_keys s) = (\<lambda>i. fst (rand i)) ` {0..<?n}"
    using ok unfolding sim_ok_def by (metis list.set_map set_upt)
  have fresh: "fst (rand ?n) \<notin> fst ` set (s_keys s)"
    unfolding keys using inj by (auto dest: injD)
  have s': "s' = s\<lparr>s_keys := s_keys s @ [(fst (rand ?n), k)], issued_count := ?n + 1,
      consumed_keys := consumed_keys s + 1, consumed_bits := consumed_bits s + KEY_BITS\<rparr>"
    and k: "k = \<lparr> sk_id = fst (rand ?n), sk_material = snd (rand ?n), sk_pair = pair \<rparr>"
    using new update_fresh [OF fresh] by (auto simp: sim_new_key_def Let_def split: prod.splits)
  have "map_of (s_keys s') x = (if x = fst (rand ?n) then Some k else map_of (s_keys s) x)" for x
    using new k by (auto simp: sim_new_key_def Let_def update_conv split: prod.splits)
  moreover have "fst (rand i) \<noteq> fst (rand ?n)" if "i < ?n" for i
    using inj that by (auto dest: injD)
  ultimately have m: "\<exists>pair. map_of (s_keys s') (fst (rand i)) =
        Some \<lparr> sk_id = fst (rand i), sk_material = snd (rand i), sk_pair = pair \<rparr>" if "i < Suc ?n" for i
    using that ok k by (cases "i = ?n") (auto simp: sim_ok_def)
  have "sim_ok rand s'" unfolding sim_ok_def
    using ok m by (auto simp: s' sim_ok_def algebra_simps)
  then show ?thesis using s' k by simp
qed

lemma consume_ok:
  assumes "sim_ok rand s" "consume k s = (r, s')"
  shows "sim_ok rand s' \<and> issued_count s' = issued_count s \<and> s_keys s' = s_keys s \<and>
    source_on s' = source_on s \<and> consumed_ids s \<subseteq> consumed_ids s'"
proof (cases "map_of (s_keys s) k")
  case None
  then show ?thesis using assms by (auto simp: consume_def)
next
  case (Some key)
  then have k: "k \<in> fst ` set (s_keys s)" by (metis fst_conv image_eqI map_of_SomeD)
  show ?thesis
  proof (cases "k \<in> consumed_ids s")
    case True
    then show ?thesis using assms Some by (simp add: consume_def)
  next
    case False
    then have "s' = s\<lparr>consumed_ids := insert k (consumed_ids s), deleted_bits := deleted_bits s + KEY_BITS\<rparr>"
      using assms(2) Some by (simp add: consume_def)
    then show ?thesis using assms(1) False k
      by (auto simp: sim_ok_def algebra_simps simp del: set_map)
  qed
qed

end
