(* ===== verification/Web.thy ===== *)
theory Web
  imports QkdPrelude
begin

text \<open>
  What the HTTP services share: JSON values as the code sees them, HTTP errors, the error
  envelope of \<open>common/auth.py\<close> (\<open>error_body\<close>) and the exception handlers that turn an error into
  a response. A handler that may fail returns \<open>http_error + 'a\<close>.
\<close>

section \<open>JSON\<close>

datatype json =
    JNull
  | JBool bool
  | JInt int
  | JFloat rat
  | JStr string
  | JList "json list"
  | JObj "(string \<times> json) list"

text \<open>Python's truth value, and \<open>d.get(k)\<close> of a decoded object (the last of equal keys wins).\<close>

fun truthy :: "json \<Rightarrow> bool" where
  "truthy JNull = False"
| "truthy (JBool b) = b"
| "truthy (JInt i) = (i \<noteq> 0)"
| "truthy (JFloat q) = (q \<noteq> 0)"
| "truthy (JStr s) = (s \<noteq> [])"
| "truthy (JList xs) = (xs \<noteq> [])"
| "truthy (JObj kvs) = (kvs \<noteq> [])"

definition obj_get :: "(string \<times> json) list \<Rightarrow> string \<Rightarrow> json" where
  "obj_get kvs k = (case map_of (rev kvs) k of None \<Rightarrow> JNull | Some v \<Rightarrow> v)"

text \<open>\<open>d[k]\<close> of a decoded value: a missing key raises KeyError, another type TypeError.\<close>

definition obj_item :: "json \<Rightarrow> string \<Rightarrow> json py" where
  "obj_item j k =
     (case j of
        JObj kvs \<Rightarrow> (case map_of (rev kvs) k of None \<Rightarrow> Inl KeyError | Some v \<Rightarrow> Inr v)
      | _ \<Rightarrow> Inl TypeError)"

text \<open>\<open>v in S\<close> for a set of strings: a list or a dictionary is not hashable.\<close>

definition in_strings :: "json \<Rightarrow> string set \<Rightarrow> bool py" where
  "in_strings v S =
     (case v of
        JStr s \<Rightarrow> Inr (s \<in> S)
      | JList xs \<Rightarrow> Inl TypeError
      | JObj kvs \<Rightarrow> Inl TypeError
      | _ \<Rightarrow> Inr False)"

lemma in_strings_True: "in_strings v S = Inr True \<longleftrightarrow> (\<exists>s \<in> S. v = JStr s)"
  by (cases v) (auto simp: in_strings_def)

section \<open>Errors\<close>

record envelope =
  e_code :: int
  e_message :: string
  e_status :: string

definition ERROR_STATUS :: "(int \<times> string) list" where
  "ERROR_STATUS =
     [(400, ''INVALID_ARGUMENT''), (401, ''UNAUTHENTICATED''), (403, ''PERMISSION_DENIED''),
      (404, ''NOT_FOUND''), (500, ''INTERNAL''), (503, ''UNAVAILABLE'')]"

definition error_body :: "int \<Rightarrow> string \<Rightarrow> string option \<Rightarrow> envelope" where
  "error_body code message status =
     \<lparr> e_code = code, e_message = message,
       e_status = (case status of
           Some (x # xs) \<Rightarrow> x # xs
         | _ \<Rightarrow> (case map_of ERROR_STATUS code of None \<Rightarrow> ''UNKNOWN'' | Some s \<Rightarrow> s)) \<rparr>"

text \<open>
  The detail of an HTTPException is an envelope where the code raises it and a text where the
  framework does; \<open>Invalid\<close> is a RequestValidationError, \<open>Unhandled\<close> any other exception.
\<close>

datatype detail = Text string | Body envelope

datatype http_error =
    HTTPException int detail
  | Invalid
  | Unhandled py_error

type_synonym 'a http = "http_error + 'a"

definition http_fail :: "int \<Rightarrow> string \<Rightarrow> 'a http" where
  "http_fail code message = Inl (HTTPException code (Body (error_body code message None)))"

text \<open>An exception no \<open>except\<close> clause of a handler names.\<close>

definition uncaught :: "'a py \<Rightarrow> 'a http" where
  "uncaught m = map_sum Unhandled id m"

lemma uncaught_simps [simp]: "uncaught (Inr x) = Inr x" "uncaught (Inl e) = Inl (Unhandled e)"
  by (simp_all add: uncaught_def)

text \<open>The three exception handlers of an app: the status code and the body of the response.\<close>

definition error_response :: "http_error \<Rightarrow> int \<times> envelope" where
  "error_response err =
     (case err of
        HTTPException code (Body b) \<Rightarrow> (code, b)
      | HTTPException code (Text t) \<Rightarrow> (code, error_body code t None)
      | Invalid \<Rightarrow> (400, error_body 400 ''invalid request body'' None)
      | Unhandled e \<Rightarrow> (500, error_body 500 ''internal error'' None))"

definition status_of :: "'a http \<Rightarrow> int" where
  "status_of m = (case m of Inl e \<Rightarrow> fst (error_response e) | Inr x \<Rightarrow> 200)"

lemma status_of_simps [simp]:
  "status_of (Inr x) = 200" "status_of (http_fail c msg) = c" "status_of (Inl (Unhandled e)) = 500"
  "status_of (Inl (HTTPException c d)) = c" "status_of (Inl Invalid) = 400"
  by (auto simp: status_of_def http_fail_def error_response_def split: detail.splits)

end
