(* ===== verification/Crypto.thy ===== *)
theory Crypto
  imports QkdPrelude
begin

text \<open>
  \<open>src/qkd_ekm/common/crypto.py\<close>: base64 as the standard library encodes it and decodes it with
  \<open>validate=True\<close> (the loop of \<open>binascii.a2b_base64\<close> in strict mode, error paths included), and the
  AES-GCM wrapping of one blob. AES-GCM itself is a parameter: the record \<open>aead\<close>, with what its
  documentation promises as the predicate \<open>aead_ok\<close>. The nonce \<open>os.urandom\<close> draws is an argument.
\<close>

section \<open>Base64\<close>

definition b64_alphabet :: string where
  "b64_alphabet = ''ABCDEFGHIJKLMNOPQRSTUVWXYZabcdefghijklmnopqrstuvwxyz0123456789+/''"

definition b64_char :: "nat \<Rightarrow> char" where
  "b64_char n = b64_alphabet ! n"

definition b64_val :: "char \<Rightarrow> nat option" where
  "b64_val c = map_of (zip b64_alphabet [0..<64]) c"

fun b64e :: "bytes \<Rightarrow> string" where
  "b64e [] = []"
| "b64e [a] =
     (let x = unat a in [b64_char (x div 4), b64_char (x mod 4 * 16), CHR ''='', CHR ''=''])"
| "b64e [a, b] =
     (let x = unat a; y = unat b
      in [b64_char (x div 4), b64_char (x mod 4 * 16 + y div 16), b64_char (y mod 16 * 4), CHR ''=''])"
| "b64e (a # b # c # rest) =
     (let x = unat a; y = unat b; z = unat c
      in [b64_char (x div 4), b64_char (x mod 4 * 16 + y div 16), b64_char (y mod 16 * 4 + z div 64),
          b64_char (z mod 64)] @ b64e rest)"

lemma map_sum_eq_Inr: "map_sum id f m = Inr y \<longleftrightarrow> (\<exists>x. m = Inr x \<and> y = f x)"
  by (cases m) auto

lemma map_sum_eq_Inl: "map_sum id f m = Inl e \<longleftrightarrow> m = Inl e"
  by (cases m) auto

text \<open>
  The loop of the strict decoder: the position in the quad, the bits left over, the pads seen in
  the quad and whether padding has started. Every malformed input raises \<open>binascii.Error\<close>, which
  is a ValueError.
\<close>

fun a2b_loop :: "nat \<Rightarrow> nat \<Rightarrow> nat \<Rightarrow> bool \<Rightarrow> string \<Rightarrow> bytes py" where
  "a2b_loop quad_pos leftchar pads padding [] = (if quad_pos = 0 then Inr [] else Inl ValueError)"
| "a2b_loop quad_pos leftchar pads padding (c # cs) =
     (if c = CHR ''='' then
        (if quad_pos \<ge> 2 then
           (if quad_pos + pads + 1 \<ge> 4 then (if cs \<noteq> [] then Inl ValueError else Inr [])
            else a2b_loop quad_pos leftchar (pads + 1) True cs)
         else a2b_loop quad_pos leftchar pads True cs)
      else case b64_val c of
          None \<Rightarrow> Inl ValueError
        | Some v \<Rightarrow>
            if padding then Inl ValueError
            else if quad_pos = 0 then a2b_loop 1 v 0 False cs
            else if quad_pos = 1 then
              map_sum id (\<lambda>out. of_nat (leftchar * 4 + v div 16) # out) (a2b_loop 2 (v mod 16) 0 False cs)
            else if quad_pos = 2 then
              map_sum id (\<lambda>out. of_nat (leftchar * 16 + v div 4) # out) (a2b_loop 3 (v mod 4) 0 False cs)
            else
              map_sum id (\<lambda>out. of_nat (leftchar * 64 + v) # out) (a2b_loop 0 0 0 False cs))"

definition b64d :: "string \<Rightarrow> bytes py" where
  "b64d s =
     (if \<exists>c \<in> set s. of_char c \<ge> (128 :: nat) then Inl ValueError
      else if s \<noteq> [] \<and> hd s = CHR ''='' then Inl ValueError
      else a2b_loop 0 0 0 False s)"

lemma b64_val_table:
  "\<forall>n \<in> set [0..<64]. b64_val (b64_char n) = Some n \<and> b64_char n \<noteq> CHR ''='' \<and>
     of_char (b64_char n) < (128 :: nat)"
  by code_simp

lemma b64_val_char [simp]:
  "n < 64 \<Longrightarrow> b64_val (b64_char n) = Some n"
  "n < 64 \<Longrightarrow> b64_char n \<noteq> CHR ''=''"
  "n < 64 \<Longrightarrow> of_char (b64_char n) < (128 :: nat)"
  using b64_val_table by auto

lemma unat_byte [simp]: "unat (a :: byte) < 256"
  by (rule order_less_le_trans [OF unsigned_less]) simp

lemma byte_quotients [simp]: "unat (a :: byte) div 4 < 64" "unat (a :: byte) div 16 < 16"
  "unat (a :: byte) div 64 < 4"
  using unat_byte [of a] by (simp_all add: less_mult_imp_div_less)

lemma of_nat_unat_byte [simp]: "of_nat (unat (a :: byte)) = a"
  by simp

lemma sextets:
  "unat (a :: byte) mod 4 * 16 + unat (b :: byte) div 16 < 64"
  "unat (a :: byte) mod 16 * 4 + unat (b :: byte) div 64 < 64"
  "unat (a :: byte) mod 4 * 16 < 64" "unat (a :: byte) mod 16 * 4 < 64"
proof -
  have "unat a mod 4 < 4" "unat a mod 16 < 16" by simp_all
  then show "unat a mod 4 * 16 + unat b div 16 < 64" "unat a mod 16 * 4 + unat b div 64 < 64"
    "unat a mod 4 * 16 < 64" "unat a mod 16 * 4 < 64"
    using byte_quotients [of b] by linarith+
qed

lemma rejoin:
  "(k * 16 + unat (b :: byte) div 16) div 16 = k" "(k * 16 + unat (b :: byte) div 16) mod 16 = unat b div 16"
  "(k * 4 + unat (b :: byte) div 64) div 4 = k" "(k * 4 + unat (b :: byte) div 64) mod 4 = unat b div 64"
  for k :: nat
  using byte_quotients [of b] by (simp_all only: div_mult_self3 mod_mult_self3 div_less mod_less)

lemma a2b_b64e: "a2b_loop 0 0 0 False (b64e bs) = Inr bs"
  by (induction bs rule: b64e.induct) (simp_all add: sextets Let_def rejoin)

lemma b64e_ascii: "\<forall>c \<in> set (b64e bs). of_char c < (128 :: nat)"
  by (induction bs rule: b64e.induct) (simp_all add: sextets Let_def)

lemma b64e_eq_Nil [simp]: "b64e x = [] \<longleftrightarrow> x = []"
  by (cases x rule: b64e.cases) (simp_all add: Let_def)

lemma b64e_head: "b64e bs \<noteq> [] \<Longrightarrow> hd (b64e bs) \<noteq> CHR ''=''"
  by (cases bs rule: b64e.cases) (simp_all add: Let_def)

lemma b64d_b64e [simp]: "b64d (b64e bs) = Inr bs"
  using b64e_ascii [of bs] b64e_head [of bs] a2b_b64e [of bs] by (auto simp: b64d_def not_le)

lemma b64e_inject [simp]: "b64e x = b64e y \<longleftrightarrow> x = y"
  by (metis b64d_b64e sum.inject(2))

lemma b64e_length: "length (b64e bs) = (length bs + 2) div 3 * 4"
proof (induction bs rule: b64e.induct)
  case (4 a b c rest)
  have "(length rest + 5) div 3 = (length rest + 2) div 3 + 1" by presburger
  with 4 show ?case by (simp add: Let_def add.commute)
qed (simp_all add: Let_def)

lemma a2b_alphabet:
  "a2b_loop q l p pd s = Inr x \<Longrightarrow> set s \<subseteq> insert CHR ''='' (set b64_alphabet)"
proof (induction q l p pd s arbitrary: x rule: a2b_loop.induct)
  case (2 q l p pd c cs)
  have known: "c \<in> set b64_alphabet" if "b64_val c = Some v" for v
    using that by (auto simp: b64_val_def dest!: map_of_SomeD set_zip_leftD)
  show ?case
  proof (cases "c = CHR ''=''")
    case True
    then show ?thesis using 2 by (auto split: if_splits)
  next
    case False
    then obtain v where v: "b64_val c = Some v" using "2.prems" by (auto split: option.splits)
    have "\<exists>q l y. a2b_loop q l 0 False cs = Inr y" and "\<not> pd"
      using "2.prems" False v by (auto split: if_splits simp: map_sum_eq_Inr)
    then show ?thesis using 2 False v known [OF v] by (auto split: if_splits simp: map_sum_eq_Inr)
  qed
qed simp

section \<open>UTF-8\<close>

text \<open>\<open>str.encode()\<close> on code points below 256.\<close>

definition utf8 :: "string \<Rightarrow> bytes" where
  "utf8 s = concat (map (\<lambda>c. let n = of_char c :: nat
     in if n < 128 then [of_nat n] else [of_nat (192 + n div 64), of_nat (128 + n mod 64)]) s)"

section \<open>AES-GCM\<close>

text \<open>
  \<open>AESGCM(key).encrypt(nonce, data, aad)\<close> and \<open>.decrypt(nonce, data, aad)\<close>. A failed tag raises
  InvalidTag, a key or nonce of the wrong length ValueError.
\<close>

record aead =
  gcm_encrypt :: "bytes \<Rightarrow> bytes \<Rightarrow> bytes \<Rightarrow> bytes \<Rightarrow> bytes py"
  gcm_decrypt :: "bytes \<Rightarrow> bytes \<Rightarrow> bytes \<Rightarrow> bytes \<Rightarrow> bytes py"

definition InvalidTag :: py_error where
  "InvalidTag = OtherError ''InvalidTag''"

definition NONCE_LEN :: nat where
  "NONCE_LEN = 12"

text \<open>\<open>key_ok\<close>: the key lengths AES has. \<open>aead_ok\<close>: with such a key and a 12-byte nonce encryption
  returns, decryption with the same key, nonce and associated data inverts it, and decryption with
  any other associated data raises InvalidTag; a key of another length is refused.\<close>

definition key_ok :: "bytes \<Rightarrow> bool" where
  "key_ok k \<longleftrightarrow> length k \<in> {16, 24, 32}"

definition aead_ok :: "aead \<Rightarrow> bool" where
  "aead_ok A \<longleftrightarrow>
     (\<forall>k n p a. key_ok k \<longrightarrow> length n = NONCE_LEN \<longrightarrow>
        (\<exists>c. gcm_encrypt A k n p a = Inr c \<and> gcm_decrypt A k n c a = Inr p \<and>
           (\<forall>a'. a' \<noteq> a \<longrightarrow> gcm_decrypt A k n c a' = Inl InvalidTag))) \<and>
     (\<forall>k n p a. \<not> key_ok k \<longrightarrow> gcm_encrypt A k n p a = Inl ValueError)"

definition aes_gcm_wrap :: "aead \<Rightarrow> bytes \<Rightarrow> bytes \<Rightarrow> bytes \<Rightarrow> bytes \<Rightarrow> bytes py" where
  "aes_gcm_wrap A nonce kek plaintext aad =
     bind_py (gcm_encrypt A kek nonce plaintext aad) (\<lambda>ct. Inr (nonce @ ct))"

definition aes_gcm_unwrap :: "aead \<Rightarrow> bytes \<Rightarrow> bytes \<Rightarrow> bytes \<Rightarrow> bytes py" where
  "aes_gcm_unwrap A kek blob aad =
     (case gcm_decrypt A kek (take NONCE_LEN blob) (drop NONCE_LEN blob) aad of
        Inl e \<Rightarrow> if e = InvalidTag then Inl ValueError else Inl e
      | Inr p \<Rightarrow> Inr p)"

lemma wrap_unwrap:
  assumes "aead_ok A" "key_ok k" "length nonce = NONCE_LEN"
  obtains blob where "aes_gcm_wrap A nonce k p a = Inr blob" "aes_gcm_unwrap A k blob a = Inr p"
    "\<And>a'. a' \<noteq> a \<Longrightarrow> aes_gcm_unwrap A k blob a' = Inl ValueError" "take NONCE_LEN blob = nonce"
proof -
  from assms obtain c where c: "gcm_encrypt A k nonce p a = Inr c" "gcm_decrypt A k nonce c a = Inr p"
    "\<And>a'. a' \<noteq> a \<Longrightarrow> gcm_decrypt A k nonce c a' = Inl InvalidTag"
    unfolding aead_ok_def by blast
  show thesis
    by (rule that [of "nonce @ c"])
      (use c assms(3) in \<open>auto simp: aes_gcm_wrap_def aes_gcm_unwrap_def\<close>)
qed

text \<open>A concrete instance of the parameter, to run the definitions on: every byte of the plaintext is
  marked, and a 0 and the associated data follow. It is no cipher, but it has what \<open>aead_ok\<close> asks.\<close>

fun unmark :: "bytes \<Rightarrow> (bytes \<times> bytes) option" where
  "unmark [] = None"
| "unmark [x] = (if x = 0 then Some ([], []) else None)"
| "unmark (x # y # cs) =
     (if x = 0 then Some ([], y # cs)
      else if x = 1 then map_option (\<lambda>(p, a). (y # p, a)) (unmark cs) else None)"

definition clear_aead :: aead where
  "clear_aead =
     \<lparr> gcm_encrypt = (\<lambda>k n p a. if key_ok k then Inr (concat (map (\<lambda>b. [1, b]) p) @ 0 # a) else Inl ValueError),
       gcm_decrypt = (\<lambda>k n c a. if \<not> key_ok k then Inl ValueError
         else case unmark c of
             None \<Rightarrow> Inl InvalidTag
           | Some (p, a') \<Rightarrow> if a' = a then Inr p else Inl InvalidTag) \<rparr>"

lemma unmark_end: "unmark (0 # a) = Some ([], a)"
  by (cases a) simp_all

lemma unmark_marked: "unmark (concat (map (\<lambda>b. [1, b]) p) @ 0 # a) = Some (p, a)"
  by (induction p) (simp_all add: unmark_end)

lemma clear_aead_ok: "aead_ok clear_aead"
  by (simp add: aead_ok_def clear_aead_def unmark_marked)

lemma wrap_key_ok: "aead_ok A \<Longrightarrow> aes_gcm_wrap A n k p a = Inr blob \<Longrightarrow> key_ok k"
  by (auto simp: aead_ok_def aes_gcm_wrap_def bind_py_eq_Inr)

section \<open>Properties\<close>

text \<open>Base64 round trip: decoding what was encoded gives the bytes back, the encoding has
  four characters for every three bytes begun, and it is injective.\<close>

theorem b64_roundtrip:
  "b64d (b64e bs) = Inr bs \<and> length (b64e bs) = (length bs + 2) div 3 * 4 \<and> (b64e bs = b64e cs \<longleftrightarrow> bs = cs)"
  by (simp add: b64e_length)

text \<open>The decoder is strict: what it accepts holds base64 characters and padding only, and
  does not begin with padding.\<close>

theorem b64d_strict:
  assumes "b64d s = Inr x"
  shows "set s \<subseteq> insert CHR ''='' (set b64_alphabet) \<and> (s = [] \<or> hd s \<noteq> CHR ''='')"
  using assms a2b_alphabet by (fastforce simp: b64d_def split: if_splits)

theorem b64d_strict_witness: "set ''a2V5'' \<subseteq> insert CHR ''='' (set b64_alphabet)"
proof -
  have "b64d ''a2V5'' = Inr [0x6B, 0x65, 0x79]" by code_simp
  from b64d_strict [OF this] show ?thesis by simp
qed

text \<open>Envelope round trip: with an AEAD that keeps its documented contract, a valid key and a
  fresh 12-byte nonce, unwrapping a wrapped blob gives the plaintext back under the same associated
  data and raises ValueError (never InvalidTag) under any other.\<close>

theorem unwrap_wrap:
  assumes "aead_ok A" "key_ok kek" "length nonce = NONCE_LEN"
  shows "case aes_gcm_wrap A nonce kek p aad of
      Inl e \<Rightarrow> False
    | Inr blob \<Rightarrow> aes_gcm_unwrap A kek blob aad = Inr p \<and>
        aes_gcm_unwrap A kek blob aad' = (if aad' = aad then Inr p else Inl ValueError)"
  by (rule wrap_unwrap [OF assms, of p aad]) simp

theorem unwrap_wrap_witness:
  "case aes_gcm_wrap clear_aead (replicate 12 7) (replicate 32 1) [1, 2, 3] [9] of
      Inl e \<Rightarrow> False
    | Inr blob \<Rightarrow> aes_gcm_unwrap clear_aead (replicate 32 1) blob [9] = Inr [1, 2, 3] \<and>
        aes_gcm_unwrap clear_aead (replicate 32 1) blob [8] = (if [8] = [9 :: byte] then Inr [1, 2, 3] else Inl ValueError)"
  by (rule unwrap_wrap) (simp_all add: clear_aead_ok key_ok_def NONCE_LEN_def)

end
