(* ===== verification/Etsi014.thy ===== *)
theory Etsi014
  imports Web Crypto
begin

text \<open>
  \<open>src/qkd_ekm/qkd/etsi014.py\<close>: the ETSI GS QKD 014 client. The HTTP client is outside the model: a
  call is the request it sends and what is made of the reply. A reply is a transport error or a
  status with a body, which is JSON or is not. The interface has strings as \<open>key_ID\<close>; a reply with
  another type there raises TypeError in the model.
\<close>

record qkey =
  k_id :: string
  k_material :: bytes

datatype request =
    Get string "(string \<times> string) list"
  | Post string json

datatype reply =
    TransportError
  | Reply int "json option"

definition QkdUnavailable :: py_error where
  "QkdUnavailable = OtherError ''QkdUnavailable''"

definition QkdError :: py_error where
  "QkdError = OtherError ''QkdError''"

definition receive :: "reply \<Rightarrow> json py" where
  "receive r =
     (case r of
        TransportError \<Rightarrow> Inl QkdUnavailable
      | Reply status body \<Rightarrow>
          if status = 503 \<or> status \<ge> 500 then Inl QkdUnavailable
          else if status \<ge> 400 then Inl QkdError
          else case body of None \<Rightarrow> Inl ValueError | Some j \<Rightarrow> Inr j)"

text \<open>\<open>for k in data["keys"]\<close> over a decoded value.\<close>

definition py_iter :: "json \<Rightarrow> json list py" where
  "py_iter j =
     (case j of
        JList xs \<Rightarrow> Inr xs
      | JObj kvs \<Rightarrow> Inr (map (\<lambda>kv. JStr (fst kv)) kvs)
      | JStr s \<Rightarrow> Inr (map (\<lambda>c. JStr [c]) s)
      | _ \<Rightarrow> Inl TypeError)"

definition as_str :: "json \<Rightarrow> string py" where
  "as_str j = (case j of JStr s \<Rightarrow> Inr s | _ \<Rightarrow> Inl TypeError)"

definition key_entry :: "json \<Rightarrow> qkey py" where
  "key_entry k =
     bind_py (obj_item k ''key_ID'') (\<lambda>i.
     bind_py (obj_item k ''key'') (\<lambda>v.
     bind_py (as_str v) (\<lambda>b.
     bind_py (b64d b) (\<lambda>material.
     bind_py (as_str i) (\<lambda>ident.
     Inr \<lparr> k_id = ident, k_material = material \<rparr>)))))"

definition keys_of :: "json \<Rightarrow> qkey list py" where
  "keys_of data = bind_py (obj_item data ''keys'') (\<lambda>ks. bind_py (py_iter ks) (map_py key_entry))"

definition enc_request :: "string \<Rightarrow> int \<Rightarrow> int \<Rightarrow> request" where
  "enc_request slave_sae number size1 =
     Get (''/api/v1/keys/'' @ slave_sae @ ''/enc_keys'')
       [(''number'', str_int number), (''size'', str_int size1)]"

definition dec_request :: "string \<Rightarrow> string list \<Rightarrow> request" where
  "dec_request master_sae key_ids =
     (case key_ids of
        [k] \<Rightarrow> Get (''/api/v1/keys/'' @ master_sae @ ''/dec_keys'') [(''key_ID'', k)]
      | _ \<Rightarrow> Post (''/api/v1/keys/'' @ master_sae @ ''/dec_keys'')
               (JObj [(''key_IDs'', JList (map (\<lambda>kid. JObj [(''key_ID'', JStr kid)]) key_ids))]))"

definition received_keys :: "reply \<Rightarrow> qkey list py" where
  "received_keys r = bind_py (receive r) keys_of"

text \<open>\<open>enc_keys\<close> and \<open>dec_keys\<close> over a transport \<open>send\<close> that threads its own state.\<close>

definition client_enc_keys :: "(request \<Rightarrow> 'w \<Rightarrow> reply \<times> 'w) \<Rightarrow> string \<Rightarrow> int \<Rightarrow> 'w \<Rightarrow> qkey list py \<times> 'w" where
  "client_enc_keys send slave_sae number w =
     (case send (enc_request slave_sae number 256) w of (r, w') \<Rightarrow> (received_keys r, w'))"

definition client_dec_keys :: "(request \<Rightarrow> 'w \<Rightarrow> reply \<times> 'w) \<Rightarrow> string \<Rightarrow> string list \<Rightarrow> 'w \<Rightarrow> qkey list py \<times> 'w" where
  "client_dec_keys send master_sae key_ids w =
     (case send (dec_request master_sae key_ids) w of (r, w') \<Rightarrow> (received_keys r, w'))"

text \<open>The reply body a KME makes of keys, as the simulator does.\<close>

definition key_json :: "qkey \<Rightarrow> json" where
  "key_json k = JObj [(''key_ID'', JStr (k_id k)), (''key'', JStr (b64e (k_material k)))]"

definition keys_json :: "qkey list \<Rightarrow> json" where
  "keys_json ks = JObj [(''keys'', JList (map key_json ks))]"

lemma key_entry_json [simp]: "key_entry (key_json k) = Inr k"
  by (simp add: key_entry_def key_json_def obj_item_def as_str_def)

lemma keys_of_json [simp]: "keys_of (keys_json ks) = Inr ks"
proof -
  have "map_py key_entry (map key_json ks) = Inr ks" by (induction ks) simp_all
  then show ?thesis by (simp add: keys_of_def keys_json_def obj_item_def py_iter_def)
qed

lemma receive_unavailable: "receive r = Inl QkdUnavailable \<longleftrightarrow> r = TransportError \<or> (\<exists>c b. r = Reply c b \<and> c \<ge> 500)"
  by (auto simp: receive_def QkdUnavailable_def QkdError_def split: reply.splits option.splits)

lemma map_py_error: "map_py f xs = Inl e \<Longrightarrow> \<exists>x \<in> set xs. f x = Inl e"
  by (induction xs) (auto simp: bind_py_eq_Inl)

lemma a2b_error: "a2b_loop q l p pd s = Inl e \<Longrightarrow> e = ValueError"
  by (induction q l p pd s rule: a2b_loop.induct) (auto split: if_splits option.splits simp: map_sum_eq_Inl)

lemma b64d_error: "b64d s = Inl e \<Longrightarrow> e = ValueError"
  by (auto simp: b64d_def dest: a2b_error split: if_splits)

lemma obj_item_error: "obj_item j k = Inl e \<Longrightarrow> e = KeyError \<or> e = TypeError"
  by (auto simp: obj_item_def split: json.splits option.splits)

lemma as_str_error: "as_str j = Inl e \<Longrightarrow> e = TypeError"
  by (auto simp: as_str_def split: json.splits)

lemma py_iter_error: "py_iter j = Inl e \<Longrightarrow> e = TypeError"
  by (auto simp: py_iter_def split: json.splits)

lemma key_entry_error: "key_entry k = Inl e \<Longrightarrow> e \<in> {KeyError, TypeError, ValueError}"
  by (auto simp: key_entry_def bind_py_eq_Inl dest!: obj_item_error as_str_error b64d_error)

lemma keys_of_error: "keys_of data = Inl e \<Longrightarrow> e \<in> {KeyError, TypeError, ValueError}"
  by (auto simp: keys_of_def bind_py_eq_Inl
      dest!: obj_item_error py_iter_error map_py_error key_entry_error)

section \<open>Properties\<close>

text \<open>The client reads back exactly the keys a KME put in its reply, in order, and tells the
  two failures apart: QkdUnavailable means no reply or a 5xx, QkdError a 4xx, and a reply that does not
  parse is neither.\<close>

theorem client_reads_reply:
  "received_keys (Reply 200 (Some (keys_json ks))) = Inr ks \<and>
   (received_keys r = Inl QkdUnavailable \<longleftrightarrow> r = TransportError \<or> (\<exists>c b. r = Reply c b \<and> c \<ge> 500)) \<and>
   (received_keys r = Inl QkdError \<longleftrightarrow> (\<exists>c b. r = Reply c b \<and> 400 \<le> c \<and> c < 500))"
proof -
  have "keys_of d \<noteq> Inl QkdUnavailable" "keys_of d \<noteq> Inl QkdError" for d
    using keys_of_error [of d] by (auto simp: QkdUnavailable_def QkdError_def)
  moreover have "receive r = Inl QkdError \<longleftrightarrow> (\<exists>c b. r = Reply c b \<and> 400 \<le> c \<and> c < 500)"
    by (auto simp: receive_def QkdUnavailable_def QkdError_def split: reply.splits option.splits)
  ultimately show ?thesis
    by (auto simp: received_keys_def bind_py_eq_Inl receive_unavailable) (simp_all add: receive_def)
qed

end
