(* ===== verification/EkmStore.thy ===== *)
theory EkmStore
  imports Crypto "HOL-Library.AList"
begin

text \<open>
  \<open>src/qkd_ekm/ekm/store.py\<close>: the SQLite binding store. The table \<open>bindings\<close> is the list of its
  rows in insertion order (primary key \<open>qkd_key_id\<close>, unique pair \<open>(purpose, object_id)\<close>), the table
  \<open>kek\<close> an association list on its primary key. Every method runs under one lock, so it is one step.
  The locale \<open>binding_store\<close> is what the EKM relies on; \<open>bound\<close> abstracts the rows to the set of
  bindings of the reference model.
\<close>

record binding_row =
  b_key :: string
  b_purpose :: string
  b_object :: string
  b_peer :: string
  b_created :: rat

record store =
  local_key :: bytes
  rows :: "binding_row list"
  keks :: "(string \<times> string \<times> bytes) list"

definition store_PURPOSES :: "string list" where
  "store_PURPOSES = [''ekm'', ''vpn'', ''file'']"

definition AlreadyBound :: py_error where
  "AlreadyBound = OtherError ''AlreadyBound''"

text \<open>\<open>load_local_key\<close>: the content of the file, if any, and what \<open>os.urandom\<close> would give.\<close>

definition load_local_key :: "bytes option \<Rightarrow> bytes \<Rightarrow> bytes \<times> bytes option" where
  "load_local_key file random =
     (case file of None \<Rightarrow> (random, Some random) | Some k \<Rightarrow> (k, Some k))"

definition open_store :: "bytes \<Rightarrow> store" where
  "open_store key = \<lparr> local_key = key, rows = [], keks = [] \<rparr>"

definition bind_row :: "string \<Rightarrow> string \<Rightarrow> string \<Rightarrow> string \<Rightarrow> rat \<Rightarrow> store \<Rightarrow> store py" where
  "bind_row qkd_key_id purpose object_id peer now s =
     (if purpose \<notin> set store_PURPOSES then Inl ValueError
      else if (\<exists>b \<in> set (rows s). b_key b = qkd_key_id) \<or>
              (\<exists>b \<in> set (rows s). b_purpose b = purpose \<and> b_object b = object_id)
      then Inl AlreadyBound
      else Inr (s\<lparr>rows := rows s @ [\<lparr> b_key = qkd_key_id, b_purpose = purpose,
             b_object = object_id, b_peer = peer, b_created = now \<rparr>]\<rparr>))"

definition lookup_object :: "string \<Rightarrow> string \<Rightarrow> store \<Rightarrow> string option" where
  "lookup_object purpose object_id s =
     map_option b_key (find (\<lambda>b. b_purpose b = purpose \<and> b_object b = object_id) (rows s))"

definition is_consumed :: "string \<Rightarrow> store \<Rightarrow> bool" where
  "is_consumed qkd_key_id s \<longleftrightarrow> (\<exists>b \<in> set (rows s). b_key b = qkd_key_id)"

definition put_kek :: "aead \<Rightarrow> bytes \<Rightarrow> string \<Rightarrow> string \<Rightarrow> bytes \<Rightarrow> store \<Rightarrow> store py" where
  "put_kek A nonce object_id qkd_key_id material s =
     bind_py (aes_gcm_wrap A nonce (local_key s) material (utf8 object_id)) (\<lambda>enc_material.
       Inr (s\<lparr>keks := AList.update object_id (qkd_key_id, enc_material) (keks s)\<rparr>))"

definition get_kek :: "aead \<Rightarrow> string \<Rightarrow> store \<Rightarrow> bytes option py" where
  "get_kek A object_id s =
     (case map_of (keks s) object_id of
        None \<Rightarrow> Inr None
      | Some (k, enc) \<Rightarrow> map_sum id Some (aes_gcm_unwrap A (local_key s) enc (utf8 object_id)))"

definition binding_count :: "store \<Rightarrow> nat" where
  "binding_count s = length (rows s)"

section \<open>The rows as a set of bindings\<close>

type_synonym bound_triple = "string \<times> string \<times> string"

definition bound :: "store \<Rightarrow> bound_triple set" where
  "bound s = (\<lambda>b. (b_key b, b_purpose b, b_object b)) ` set (rows s)"

text \<open>The constraints of the table.\<close>

definition store_ok :: "store \<Rightarrow> bool" where
  "store_ok s \<longleftrightarrow> distinct (map b_key (rows s)) \<and>
     distinct (map (\<lambda>b. (b_purpose b, b_object b)) (rows s)) \<and>
     (\<forall>b \<in> set (rows s). b_purpose b \<in> set store_PURPOSES)"

text \<open>
  What a client needs of a store of bindings: \<open>bnd\<close> adds the triple when neither its key nor its
  purpose and object are taken and refuses otherwise, whatever else it notes of the binding; \<open>used\<close> tells
  the keys of the triples.
\<close>

locale binding_store =
  fixes bnd :: "'x \<Rightarrow> bound_triple \<Rightarrow> 's \<Rightarrow> 's py" and triples :: "'s \<Rightarrow> bound_triple set"
    and used :: "string \<Rightarrow> 's \<Rightarrow> bool" and valid :: "string \<Rightarrow> bool"
  assumes bnd_ok: "bnd x (k, p, ob) s = Inr s' \<Longrightarrow>
      triples s' = insert (k, p, ob) (triples s) \<and> k \<notin> fst ` triples s \<and> (p, ob) \<notin> snd ` triples s"
    and bnd_free: "valid p \<Longrightarrow> k \<notin> fst ` triples s \<Longrightarrow> (p, ob) \<notin> snd ` triples s \<Longrightarrow>
      \<exists>s'. bnd x (k, p, ob) s = Inr s'"
    and used_iff: "used k s \<longleftrightarrow> k \<in> fst ` triples s"
begin

text \<open>One identifier per purpose and object, one purpose and object per identifier.\<close>

definition one_to_one :: "'s \<Rightarrow> bool" where
  "one_to_one s \<longleftrightarrow> inj_on fst (triples s) \<and> inj_on snd (triples s)"

lemma bnd_one_to_one: "one_to_one s \<Longrightarrow> bnd x (k, p, ob) s = Inr s' \<Longrightarrow> one_to_one s'"
  using bnd_ok [of x k p ob s s'] by (auto simp: one_to_one_def)

lemma bnd_uses: "bnd x (k, p, ob) s = Inr s' \<Longrightarrow> used j s' \<longleftrightarrow> j = k \<or> used j s"
  using bnd_ok [of x k p ob s s'] by (auto simp: used_iff)

text \<open>A sequence of attempts to bind: the triples that were taken, and the store after the last one.\<close>

fun attempts :: "('x \<times> bound_triple) list \<Rightarrow> 's \<Rightarrow> bound_triple list \<times> 's" where
  "attempts [] s = ([], s)"
| "attempts ((x, t) # ts) s =
     (case bnd x t s of Inl e \<Rightarrow> attempts ts s | Inr s' \<Rightarrow> apfst (Cons t) (attempts ts s'))"

lemma attempts_distinct:
  "attempts ts s = (taken, s') \<Longrightarrow>
   distinct (map fst taken) \<and> distinct (map snd taken) \<and> fst ` set taken \<inter> fst ` triples s = {} \<and>
   snd ` set taken \<inter> snd ` triples s = {} \<and> triples s' = triples s \<union> set taken"
proof (induction ts s arbitrary: taken s' rule: attempts.induct)
  case (2 x t ts s)
  obtain k p ob where t: "t = (k, p, ob)" by (cases t)
  show ?case
  proof (cases "bnd x t s")
    case (Inl e)
    then show ?thesis using 2 by simp
  next
    case (Inr s1)
    obtain us where us: "attempts ts s1 = (us, s')" "taken = t # us"
      using "2.prems" Inr by (cases "attempts ts s1") simp
    from "2.IH"(2) [OF Inr us(1)] bnd_ok [OF Inr [unfolded t]] us(2) t show ?thesis by auto
  qed
qed simp

end

text \<open>\<open>Store.bind\<close>, with the peer and the time of the row.\<close>

definition bind_triple :: "string \<times> rat \<Rightarrow> bound_triple \<Rightarrow> store \<Rightarrow> store py" where
  "bind_triple x t s = (case (x, t) of ((peer, now), (k, p, ob)) \<Rightarrow> bind_row k p ob peer now s)"

lemma bind_row_Inr:
  "bind_row k p ob peer now s = Inr s' \<longleftrightarrow>
     p \<in> set store_PURPOSES \<and> k \<notin> fst ` bound s \<and> (p, ob) \<notin> snd ` bound s \<and>
     s' = s\<lparr>rows := rows s @ [\<lparr> b_key = k, b_purpose = p, b_object = ob, b_peer = peer, b_created = now \<rparr>]\<rparr>"
  by (auto simp: bind_row_def bound_def image_image)

interpretation sqlite: binding_store bind_triple bound is_consumed "\<lambda>p. p \<in> set store_PURPOSES"
proof
  show "bind_triple x (k, p, ob) s = Inr s' \<Longrightarrow>
      bound s' = insert (k, p, ob) (bound s) \<and> k \<notin> fst ` bound s \<and> (p, ob) \<notin> snd ` bound s" for x k p ob s s'
    by (cases x) (auto simp: bind_triple_def bind_row_Inr bound_def)
  show "p \<in> set store_PURPOSES \<Longrightarrow> k \<notin> fst ` bound s \<Longrightarrow> (p, ob) \<notin> snd ` bound s \<Longrightarrow>
      \<exists>s'. bind_triple x (k, p, ob) s = Inr s'" for x k p ob s
    by (cases x) (simp add: bind_triple_def bind_row_Inr)
  show "is_consumed k s \<longleftrightarrow> k \<in> fst ` bound s" for k s
    by (auto simp: is_consumed_def bound_def image_image)
qed

lemma bind_row_ok: "bind_row k p ob peer now s = Inr s' \<Longrightarrow> store_ok s \<Longrightarrow> store_ok s'"
  by (auto simp: bind_row_def store_ok_def split: if_splits)

lemma bind_row_error: "bind_row k p ob peer now s = Inl e \<Longrightarrow> e = ValueError \<or> e = AlreadyBound"
  by (auto simp: bind_row_def split: if_splits)

lemma open_store_ok: "store_ok (open_store key)"
  by (simp add: store_ok_def open_store_def)

lemma lookup_bound:
  assumes "store_ok s"
  shows "lookup_object p ob s = Some k \<longleftrightarrow> (k, p, ob) \<in> bound s"
proof
  assume "lookup_object p ob s = Some k"
  then show "(k, p, ob) \<in> bound s"
    by (force simp: lookup_object_def bound_def dest: find_SomeD)
next
  assume "(k, p, ob) \<in> bound s"
  then obtain b where b: "b \<in> set (rows s)" "b_key b = k" "b_purpose b = p" "b_object b = ob"
    by (auto simp: bound_def)
  then obtain c where c: "find (\<lambda>b. b_purpose b = p \<and> b_object b = ob) (rows s) = Some c"
    by (cases "find (\<lambda>b. b_purpose b = p \<and> b_object b = ob) (rows s)") (auto simp: find_None_iff)
  then have "c \<in> set (rows s)" "b_purpose c = p" "b_object c = ob"
    by (auto dest: find_SomeD)
  moreover have "inj_on (\<lambda>b. (b_purpose b, b_object b)) (set (rows s))"
    using assms by (simp add: store_ok_def distinct_map)
  ultimately have "c = b" using b by (auto dest: inj_onD)
  then show "lookup_object p ob s = Some k" using c b by (simp add: lookup_object_def)
qed

section \<open>Stored keys\<close>

lemma put_kek_frame:
  "put_kek A n ob k m s = Inr s' \<Longrightarrow> rows s' = rows s \<and> local_key s' = local_key s"
  by (auto simp: put_kek_def bind_py_eq_Inr)

lemma put_kek_other: "put_kek A n ob k m s = Inr s' \<Longrightarrow> ob' \<noteq> ob \<Longrightarrow> get_kek A' ob' s' = get_kek A' ob' s"
  by (auto simp: put_kek_def bind_py_eq_Inr get_kek_def update_conv split: option.splits)

lemma get_kek_None: "get_kek A ob s = Inr None \<longleftrightarrow> map_of (keks s) ob = None"
  by (auto simp: get_kek_def map_sum_eq_Inr split: option.splits)

lemma get_kek_frame: "keks s' = keks s \<Longrightarrow> local_key s' = local_key s \<Longrightarrow> get_kek A ob s' = get_kek A ob s"
  by (simp add: get_kek_def split: option.splits)

lemma put_get_kek:
  assumes "aead_ok A" "key_ok (local_key s)" "length n = NONCE_LEN"
  obtains s' where "put_kek A n ob k m s = Inr s'" "get_kek A ob s' = Inr (Some m)"
proof -
  from wrap_unwrap [OF assms, of m "utf8 ob"] obtain blob where
    "aes_gcm_wrap A n (local_key s) m (utf8 ob) = Inr blob"
    "aes_gcm_unwrap A (local_key s) blob (utf8 ob) = Inr m" by metis
  then show thesis
    by - (rule that [of "s\<lparr>keks := AList.update ob (k, blob) (keks s)\<rparr>"],
      auto simp: put_kek_def get_kek_def update_conv split: option.splits)
qed

section \<open>Properties\<close>

text \<open>Property C37. Over any sequence of attempts to bind made from an empty store, each with its own peer and time and
  some of them refused, no key identifier and no pair of purpose and object is bound twice, \<open>is_consumed\<close>
  answers for exactly the bound identifiers, \<open>lookup_object\<close> finds the identifier each object was bound to, and
  the next attempt is refused exactly when its purpose is none of the three, its identifier or its purpose
  and object are bound.\<close>

theorem bindings_one_to_one:
  "let (taken, s) = sqlite.attempts ts (open_store key) in
    distinct (map fst taken) \<and> distinct (map snd taken) \<and>
    (\<forall>k. is_consumed k s = (k \<in> fst ` set taken)) \<and>
    (\<forall>k p ob. (lookup_object p ob s = Some k) = ((k, p, ob) \<in> set taken)) \<and>
    bind_row k p ob peer now s =
      (if p \<notin> set store_PURPOSES then Inl ValueError
       else if k \<in> fst ` set taken \<or> (p, ob) \<in> snd ` set taken then Inl AlreadyBound
       else Inr (s\<lparr>rows := rows s @ [\<lparr> b_key = k, b_purpose = p, b_object = ob, b_peer = peer, b_created = now \<rparr>]\<rparr>))"
proof -
  obtain taken s where a: "sqlite.attempts ts (open_store key) = (taken, s)" by fastforce
  have "store_ok s'" if "sqlite.attempts ts s = (taken, s')" "store_ok s" for s s' ts taken
    using that
  proof (induction ts s arbitrary: taken s' rule: sqlite.attempts.induct)
    case (2 x t ts s)
    obtain peer now k p ob where [simp]: "x = (peer, now)" "t = (k, p, ob)" by (cases x; cases t)
    show ?case
    proof (cases "bind_triple x t s")
      case (Inr s1)
      then have "store_ok s1" using "2.prems"(2) bind_row_ok by (simp add: bind_triple_def)
      then show ?thesis using "2.IH"(2) [OF Inr] "2.prems"(1) Inr by (cases "sqlite.attempts ts s1") auto
    qed (use 2 in simp)
  qed simp
  from this [OF a open_store_ok] have ok: "store_ok s" .
  have "bound (open_store key) = {}" by (simp add: bound_def open_store_def)
  with sqlite.attempts_distinct [OF a] have d: "distinct (map fst taken)" "distinct (map snd taken)" "bound s = set taken"
    by auto
  have "(\<exists>b \<in> set (rows s). b_key b = k) \<longleftrightarrow> k \<in> fst ` set taken"
    "(\<exists>b \<in> set (rows s). b_purpose b = p \<and> b_object b = ob) \<longleftrightarrow> (p, ob) \<in> snd ` set taken"
    by (auto simp: bound_def image_image simp flip: d(3))
  then show ?thesis using d by (simp add: a sqlite.used_iff lookup_bound [OF ok] bind_row_def)
qed

text \<open>A stored key-encryption key reads back: with an AEAD that keeps its contract and a
  valid local key, \<open>put_kek\<close> returns, \<open>get_kek\<close> of the object then gives the material, every other
  object keeps its answer, and the bindings are untouched.\<close>

theorem kek_roundtrip:
  assumes "aead_ok A" "key_ok (local_key s)" "length n = NONCE_LEN"
  shows "\<exists>s'. put_kek A n ob k m s = Inr s' \<and> get_kek A ob s' = Inr (Some m) \<and> rows s' = rows s \<and>
    get_kek A ob' s' = (if ob' = ob then Inr (Some m) else get_kek A ob' s)"
proof -
  from put_get_kek [OF assms, of ob k m] obtain s' where
    "put_kek A n ob k m s = Inr s'" "get_kek A ob s' = Inr (Some m)" by metis
  then show ?thesis using put_kek_frame put_kek_other by auto
qed

theorem kek_roundtrip_witness:
  "\<exists>s'. put_kek clear_aead (replicate 12 0) ''v1'' ''k'' [5, 6] (open_store (replicate 32 1)) = Inr s' \<and>
     get_kek clear_aead ''v1'' s' = Inr (Some [5, 6]) \<and> rows s' = [] \<and> get_kek clear_aead ''v2'' s' = Inr None"
  using kek_roundtrip [OF clear_aead_ok, of "open_store (replicate 32 1)" "replicate 12 0" "''v1''" "''k''" "[5, 6]" "''v2''"]
  by (simp add: open_store_def key_ok_def NONCE_LEN_def get_kek_def)

text \<open>The local wrapping key is created once: a second start reads what the first one wrote.\<close>

theorem load_local_key_stable:
  "load_local_key (snd (load_local_key file r1)) r2 = load_local_key file r1"
  by (simp add: load_local_key_def split: option.splits)

end
