(* ===== verification/KeyPool.thy ===== *)
theory KeyPool
  imports Etsi014 EkmStore
begin

text \<open>
  \<open>src/qkd_ekm/ekm/pool.py\<close>: the per-peer buffers of unconsumed keys. The pull loop measures a deque
  under the lock, calls the QKD source without it and appends under the lock again, while request
  handlers allocate and the second loop expires: \<open>pool_step\<close> interleaves those locked sections, with
  the one request in flight as part of the state. \<open>pull_once\<close> and \<open>expire_once\<close> are the whole passes,
  over a source and a clock that thread their own state. Times are rationals.
\<close>

type_synonym dq = "(qkey \<times> rat) list"

record pool =
  peers :: "string list"
  target :: int
  ttl :: rat
  source_available :: bool
  deques :: "(string \<times> dq) list"

definition MAX_PER_REQUEST :: int where
  "MAX_PER_REQUEST = 100"

definition PoolEmpty :: py_error where
  "PoolEmpty = OtherError ''PoolEmpty''"

definition new_pool :: "string list \<Rightarrow> int \<Rightarrow> rat \<Rightarrow> pool" where
  "new_pool ps tgt ttl_s = \<lparr> peers = ps, target = tgt, ttl = ttl_s, source_available = True,
     deques = map (\<lambda>p. (p, [])) (rev (remdups (rev ps))) \<rparr>"

definition pool_size :: "string \<Rightarrow> pool \<Rightarrow> nat py" where
  "pool_size peer p = (case map_of (deques p) peer of None \<Rightarrow> Inl KeyError | Some d \<Rightarrow> Inr (length d))"

section \<open>Pulling\<close>

definition demand :: "string \<Rightarrow> pool \<Rightarrow> int py" where
  "demand peer p =
     (case map_of (deques p) peer of
        None \<Rightarrow> Inl KeyError
      | Some d \<Rightarrow> Inr (min (target p - int (length d)) MAX_PER_REQUEST))"

text \<open>What a pass makes of the outcome of one request: the count and the pool.\<close>

definition receive_pull :: "string \<Rightarrow> qkey list py \<Rightarrow> rat \<Rightarrow> pool \<Rightarrow> nat \<times> pool" where
  "receive_pull peer result received_at p =
     (case result of
        Inl e \<Rightarrow> (0, if e = QkdUnavailable then p\<lparr>source_available := False\<rparr> else p)
      | Inr keys \<Rightarrow>
          (length keys,
           p\<lparr>source_available := True,
             deques := AList.map_entry peer (\<lambda>d. d @ map (\<lambda>k. (k, received_at)) keys) (deques p)\<rparr>))"

fun pull_peers ::
  "(string \<Rightarrow> int \<Rightarrow> 'w \<Rightarrow> qkey list py \<times> 'w) \<Rightarrow> ('w \<Rightarrow> rat \<times> 'w) \<Rightarrow> string list \<Rightarrow> 'w \<Rightarrow> pool \<Rightarrow>
   (nat \<times> pool \<times> 'w) py" where
  "pull_peers source clock [] w p = Inr (0, p, w)"
| "pull_peers source clock (peer # ps) w p =
     bind_py (demand peer p) (\<lambda>n.
       if n \<le> 0 then pull_peers source clock ps w p
       else case source peer n w of (result, w1) \<Rightarrow>
         (case (if isl result then (0, w1) else clock w1) of (now, w2) \<Rightarrow>
         (case receive_pull peer result now p of (c, p1) \<Rightarrow>
            map_sum id (\<lambda>(pulled, p2, w3). (c + pulled, p2, w3)) (pull_peers source clock ps w2 p1))))"

definition pull_once where
  "pull_once source clock w p = pull_peers source clock (peers p) w p"

section \<open>Expiry\<close>

fun expire_deque :: "rat \<Rightarrow> dq \<Rightarrow> nat \<times> dq" where
  "expire_deque cutoff [] = (0, [])"
| "expire_deque cutoff (e # d) =
     (if snd e < cutoff then (case expire_deque cutoff d of (n, d') \<Rightarrow> (n + 1, d')) else (0, e # d))"

definition expire_peer :: "string \<Rightarrow> rat \<Rightarrow> pool \<Rightarrow> nat \<times> pool" where
  "expire_peer peer now p =
     (case map_of (deques p) peer of
        None \<Rightarrow> (0, p)
      | Some d \<Rightarrow>
          (fst (expire_deque (now - ttl p) d),
           p\<lparr>deques := AList.map_entry peer (\<lambda>d. snd (expire_deque (now - ttl p) d)) (deques p)\<rparr>))"

fun expire_peers :: "('w \<Rightarrow> rat \<times> 'w) \<Rightarrow> string list \<Rightarrow> 'w \<Rightarrow> pool \<Rightarrow> nat \<times> pool \<times> 'w" where
  "expire_peers clock [] w p = (0, p, w)"
| "expire_peers clock (peer # ps) w p =
     (case clock w of (now, w1) \<Rightarrow>
      (case expire_peer peer now p of (n, p1) \<Rightarrow>
       (case expire_peers clock ps w1 p1 of (expired, p2, w2) \<Rightarrow> (n + expired, p2, w2))))"

definition expire_once where
  "expire_once clock w p = expire_peers clock (map fst (deques p)) w p"

section \<open>Allocation\<close>

text \<open>The key leaves the deque under the lock, before the store is asked: an identifier found consumed
  raises AssertionError and is dropped.\<close>

definition allocate :: "store \<Rightarrow> string \<Rightarrow> pool \<Rightarrow> qkey py \<times> pool" where
  "allocate st peer p =
     (case map_of (deques p) peer of
        None \<Rightarrow> (Inl KeyError, p)
      | Some [] \<Rightarrow> (Inl PoolEmpty, p)
      | Some ((key, received_at) # d) \<Rightarrow>
          (if is_consumed (k_id key) st then Inl AssertionError else Inr key,
           p\<lparr>deques := AList.map_entry peer (\<lambda>d. tl d) (deques p)\<rparr>))"

section \<open>The interleaved system\<close>

text \<open>\<open>flight\<close> is the request in flight; \<open>received\<close> and \<open>taken\<close> are the history of one run: the keys
  appended to a peer's deque and the keys that left it, in order.\<close>

record pool_sys =
  the_pool :: pool
  flight :: "(string \<times> int) option"
  received :: "string \<Rightarrow> qkey list"
  taken :: "string \<Rightarrow> qkey list"
  time_now :: rat

datatype pool_event =
    Request1 string int
  | Arrive string "qkey list py"
  | Expire1 string
  | Allocate1 string
  | Tick rat

definition append_at :: "('k \<Rightarrow> 'a list) \<Rightarrow> 'k \<Rightarrow> 'a list \<Rightarrow> ('k \<Rightarrow> 'a list)" where
  "append_at h k xs = h(k := h k @ xs)"

inductive pool_step :: "store \<Rightarrow> pool_sys \<Rightarrow> pool_event \<Rightarrow> pool_sys \<Rightarrow> bool" for st where
  request: "flight s = None \<Longrightarrow> demand peer (the_pool s) = Inr n \<Longrightarrow> n > 0 \<Longrightarrow>
    pool_step st s (Request1 peer n) (s\<lparr>flight := Some (peer, n)\<rparr>)"
| arrive: "flight s = Some (peer, n) \<Longrightarrow> (\<And>ks. result = Inr ks \<Longrightarrow> int (length ks) \<le> n) \<Longrightarrow>
    pool_step st s (Arrive peer result)
      (s\<lparr>flight := None, the_pool := snd (receive_pull peer result (time_now s) (the_pool s)),
         received := append_at (received s) peer (case result of Inl e \<Rightarrow> [] | Inr ks \<Rightarrow> ks)\<rparr>)"
| expire: "map_of (deques (the_pool s)) peer = Some d \<Longrightarrow>
    pool_step st s (Expire1 peer)
      (s\<lparr>the_pool := snd (expire_peer peer (time_now s) (the_pool s)),
         taken := append_at (taken s) peer
           (map fst (take (fst (expire_peer peer (time_now s) (the_pool s))) d))\<rparr>)"
| alloc: "map_of (deques (the_pool s)) peer = Some ((k, when1) # d) \<Longrightarrow>
    allocate st peer (the_pool s) = (res, p') \<Longrightarrow>
    pool_step st s (Allocate1 peer)
      (s\<lparr>the_pool := p', taken := append_at (taken s) peer [k]\<rparr>)"
| tick: "time_now s \<le> t \<Longrightarrow> pool_step st s (Tick t) (s\<lparr>time_now := t\<rparr>)"

inductive_cases pool_step_cases: "pool_step st s ev s'"

definition start_sys :: "pool \<Rightarrow> rat \<Rightarrow> pool_sys" where
  "start_sys p t = \<lparr> the_pool = p, flight = None, received = (\<lambda>k. []), taken = (\<lambda>k. []), time_now = t \<rparr>"

inductive pool_run :: "pool \<Rightarrow> pool_sys \<Rightarrow> bool" for p0 where
  start: "pool_run p0 (start_sys p0 t)"
| step: "pool_run p0 s \<Longrightarrow> pool_step st s ev s' \<Longrightarrow> pool_run p0 s'"

text \<open>What every interleaving keeps.\<close>

definition sys_ok :: "pool_sys \<Rightarrow> bool" where
  "sys_ok s \<longleftrightarrow>
     (\<forall>peer d. map_of (deques (the_pool s)) peer = Some d \<longrightarrow>
        int (length d) + (case flight s of Some (q, n) \<Rightarrow> if q = peer then n else 0 | None \<Rightarrow> 0)
          \<le> max 0 (target (the_pool s)) \<and>
        sorted (map snd d) \<and> (\<forall>e \<in> set d. snd e \<le> time_now s) \<and>
        received s peer = taken s peer @ map fst d) \<and>
     (\<forall>q n. flight s = Some (q, n) \<longrightarrow> 0 < n)"

lemma expire_deque_eq:
  "snd (expire_deque c d) = dropWhile (\<lambda>e. snd e < c) d"
  "fst (expire_deque c d) = length (takeWhile (\<lambda>e. snd e < c) d)"
  by (induction d) (auto split: prod.splits)

lemma expire_deque_filter:
  "sorted (map snd d) \<Longrightarrow> snd (expire_deque c d) = filter (\<lambda>e. c \<le> snd e) d"
  by (induction d) (auto split: prod.splits simp: not_less filter_id_conv intro!: filter_True [symmetric])

lemma map_entry_map_of:
  "map_of (AList.map_entry k f xs) k' = (if k' = k then map_option f (map_of xs k) else map_of xs k')"
  by (induction xs) auto

lemma receive_pull_simps [simp]:
  "target (snd (receive_pull peer r t p)) = target p" "ttl (snd (receive_pull peer r t p)) = ttl p"
  "peers (snd (receive_pull peer r t p)) = peers p"
  by (auto simp: receive_pull_def split: sum.splits)

lemma receive_pull_deques:
  "map_of (deques (snd (receive_pull peer r t p))) q =
     (if q = peer then map_option (\<lambda>d. d @ map (\<lambda>k. (k, t)) (case r of Inl e \<Rightarrow> [] | Inr ks \<Rightarrow> ks))
        (map_of (deques p) q) else map_of (deques p) q)"
  by (cases r; cases "map_of (deques p) q") (auto simp: receive_pull_def map_entry_map_of)

lemma expire_peer_simps [simp]:
  "target (snd (expire_peer peer t p)) = target p" "ttl (snd (expire_peer peer t p)) = ttl p"
  "peers (snd (expire_peer peer t p)) = peers p"
  "source_available (snd (expire_peer peer t p)) = source_available p"
  by (auto simp: expire_peer_def split: option.splits)

lemma expire_peer_deques:
  "map_of (deques (snd (expire_peer peer t p))) q =
     (if q = peer then map_option (\<lambda>d. snd (expire_deque (t - ttl p) d)) (map_of (deques p) q)
      else map_of (deques p) q)"
  by (auto simp: expire_peer_def map_entry_map_of split: option.splits)

lemma allocate_head:
  assumes "map_of (deques p) peer = Some ((k, t) # d)"
  shows "allocate st peer p =
    (if is_consumed (k_id k) st then Inl AssertionError else Inr k,
     p\<lparr>deques := AList.map_entry peer tl (deques p)\<rparr>)"
  using assms by (simp add: allocate_def)

lemma split_expired: "take (fst (expire_deque c d)) d @ snd (expire_deque c d) = d"
  unfolding expire_deque_eq by (metis takeWhile_dropWhile_id takeWhile_eq_take)

lemma sorted_snoc_same: "sorted (map snd d) \<Longrightarrow> \<forall>e \<in> set d. snd e \<le> t \<Longrightarrow> sorted (map snd (d @ map (\<lambda>k. (k, t)) ks))"
  by (auto simp: sorted_append o_def map_replicate_const)

lemma sys_okD:
  assumes "sys_ok s" "map_of (deques (the_pool s)) peer = Some d"
  shows "int (length d) + (case flight s of Some (q, n) \<Rightarrow> if q = peer then n else 0 | None \<Rightarrow> 0)
          \<le> max 0 (target (the_pool s))"
    "sorted (map snd d)" "\<forall>e \<in> set d. snd e \<le> time_now s" "received s peer = taken s peer @ map fst d"
  using assms unfolding sys_ok_def by blast+

lemma sys_okI:
  assumes "\<And>peer d. map_of (deques (the_pool s)) peer = Some d \<Longrightarrow>
      int (length d) + (case flight s of Some (q, n) \<Rightarrow> if q = peer then n else 0 | None \<Rightarrow> 0)
        \<le> max 0 (target (the_pool s)) \<and> sorted (map snd d) \<and> (\<forall>e \<in> set d. snd e \<le> time_now s) \<and>
      received s peer = taken s peer @ map fst d"
    and "\<And>q n. flight s = Some (q, n) \<Longrightarrow> 0 < n"
  shows "sys_ok s"
  using assms unfolding sys_ok_def by blast

lemma flight_nonneg:
  "sys_ok s \<Longrightarrow> 0 \<le> (case flight s of Some (q, n) \<Rightarrow> if q = peer then n else (0 :: int) | None \<Rightarrow> 0)"
  unfolding sys_ok_def by (auto split: option.splits)

lemma pool_step_ok:
  assumes "pool_step st s ev s'" "sys_ok s"
  shows "sys_ok s'"
  using assms(1)
proof (cases rule: pool_step.cases)
  case (request peer n)
  show ?thesis
  proof (rule sys_okI)
    fix q d assume "map_of (deques (the_pool s')) q = Some d"
    then have q: "map_of (deques (the_pool s)) q = Some d" using request by simp
    have "n \<le> target (the_pool s) - int (length d)" if "q = peer"
      using request(4) q that by (auto simp: demand_def)
    then show "int (length d) + (case flight s' of Some (q', n) \<Rightarrow> if q' = q then n else 0 | None \<Rightarrow> 0)
        \<le> max 0 (target (the_pool s')) \<and> sorted (map snd d) \<and> (\<forall>e \<in> set d. snd e \<le> time_now s') \<and>
      received s' q = taken s' q @ map fst d"
      using sys_okD [OF assms(2) q] request by auto
  qed (use request in auto)
next
  case (arrive peer n result)
  show ?thesis
  proof (rule sys_okI)
    fix q d assume "map_of (deques (the_pool s')) q = Some d"
    then obtain d0 where q: "map_of (deques (the_pool s)) q = Some d0"
      and d: "d = (if q = peer then d0 @ map (\<lambda>k. (k, time_now s)) (case result of Inl e \<Rightarrow> [] | Inr ks \<Rightarrow> ks) else d0)"
      using arrive by (auto simp: receive_pull_deques split: if_splits)
    then show "int (length d) + (case flight s' of Some (q', n) \<Rightarrow> if q' = q then n else 0 | None \<Rightarrow> 0)
        \<le> max 0 (target (the_pool s')) \<and> sorted (map snd d) \<and> (\<forall>e \<in> set d. snd e \<le> time_now s') \<and>
      received s' q = taken s' q @ map fst d"
      using sys_okD [OF assms(2) q] arrive sorted_snoc_same [of d0 "time_now s"] flight_nonneg [OF assms(2), of q]
      by (cases result) (auto simp: append_at_def o_def split: if_splits)
  qed (use arrive in auto)
next
  case (expire peer d1)
  show ?thesis
  proof (rule sys_okI)
    fix q d assume "map_of (deques (the_pool s')) q = Some d"
    then obtain d0 where q: "map_of (deques (the_pool s)) q = Some d0"
      and d: "d = (if q = peer then snd (expire_deque (time_now s - ttl (the_pool s)) d0) else d0)"
      using expire by (auto simp: expire_peer_deques split: if_splits)
    note ok = sys_okD [OF assms(2) q]
    define c where "c = time_now s - ttl (the_pool s)"
    have e: "snd (expire_deque c d0) = filter (\<lambda>e. c \<le> snd e) d0" by (rule expire_deque_filter [OF ok(2)])
    have split1: "map fst d0 = map fst (take (fst (expire_deque c d0)) d0) @ map fst (snd (expire_deque c d0))"
      by (metis map_append split_expired)
    have "received s' q = taken s' q @ map fst d"
    proof (cases "q = peer")
      case True
      then have "d1 = d0" "d = snd (expire_deque c d0)" using expire(3) q d by (auto simp: c_def)
      then show ?thesis using True expire(2,3) ok(4) split1
        by (simp add: append_at_def expire_peer_def c_def)
    next
      case False
      then show ?thesis using expire ok(4) d by (simp add: append_at_def)
    qed
    moreover have "length d \<le> length d0" "sorted (map snd d)" "\<forall>e \<in> set d. snd e \<le> time_now s"
      using ok(2,3) e unfolding d c_def [symmetric] by (auto simp: sorted_filter)
    ultimately show "int (length d) + (case flight s' of Some (q', n) \<Rightarrow> if q' = q then n else 0 | None \<Rightarrow> 0)
        \<le> max 0 (target (the_pool s')) \<and> sorted (map snd d) \<and> (\<forall>e \<in> set d. snd e \<le> time_now s') \<and>
      received s' q = taken s' q @ map fst d"
      using ok(1) expire(2) by simp
  qed (use expire assms(2) in \<open>auto simp: sys_ok_def\<close>)
next
  case (alloc peer k t d1 res p')
  then have p': "p' = (the_pool s)\<lparr>deques := AList.map_entry peer tl (deques (the_pool s))\<rparr>"
    by (simp add: allocate_head)
  show ?thesis
  proof (rule sys_okI)
    fix q d assume "map_of (deques (the_pool s')) q = Some d"
    then obtain d0 where q: "map_of (deques (the_pool s)) q = Some d0" and d: "d = (if q = peer then tl d0 else d0)"
      using alloc p' by (auto simp: map_entry_map_of split: if_splits)
    show "int (length d) + (case flight s' of Some (q', n) \<Rightarrow> if q' = q then n else 0 | None \<Rightarrow> 0)
        \<le> max 0 (target (the_pool s')) \<and> sorted (map snd d) \<and> (\<forall>e \<in> set d. snd e \<le> time_now s') \<and>
      received s' q = taken s' q @ map fst d"
      using sys_okD [OF assms(2) q] alloc p' q d by (auto simp: append_at_def)
  qed (use alloc assms(2) in \<open>auto simp: sys_ok_def\<close>)
next
  case (tick t)
  then show ?thesis using assms(2) unfolding sys_ok_def by force
qed

lemma new_pool_ok: "sys_ok (start_sys (new_pool ps tgt ttl_s) t)"
  by (rule sys_okI) (auto simp: start_sys_def new_pool_def dest!: map_of_SomeD)

lemma pool_run_ok: "pool_run p0 s \<Longrightarrow> p0 = new_pool ps tgt ttl_s \<Longrightarrow> sys_ok s"
  by (induction rule: pool_run.induct) (auto intro: new_pool_ok pool_step_ok)

lemma pool_step_target: "pool_step st s ev s' \<Longrightarrow> target (the_pool s') = target (the_pool s) \<and> ttl (the_pool s') = ttl (the_pool s)"
  by (cases rule: pool_step.cases) (auto simp: allocate_head)

lemma pool_run_target: "pool_run p0 s \<Longrightarrow> target (the_pool s) = target p0"
  by (induction rule: pool_run.induct) (auto simp: start_sys_def dest: pool_step_target)

section \<open>Whole passes are runs\<close>

text \<open>
  What the pool needs of its source and clock: the source never returns more keys than asked, and
  time (\<open>tm\<close> of the world) does not go back.
\<close>

locale key_source =
  fixes source :: "string \<Rightarrow> int \<Rightarrow> 'w \<Rightarrow> qkey list py \<times> 'w" and clock :: "'w \<Rightarrow> rat \<times> 'w" and tm :: "'w \<Rightarrow> rat"
  assumes honest: "source peer n w = (Inr ks, w') \<Longrightarrow> 0 < n \<Longrightarrow> int (length ks) \<le> n"
    and source_time: "source peer n w = (r, w') \<Longrightarrow> tm w \<le> tm w'"
    and clock_time: "clock w = (now, w') \<Longrightarrow> tm w \<le> now \<and> now \<le> tm w'"
begin

lemma arrive_run:
  assumes "pool_run p0 s" "flight s = Some (peer, n)" "time_now s \<le> t"
    and "\<And>ks. result = Inr ks \<Longrightarrow> int (length ks) \<le> n"
  shows "\<exists>s'. pool_run p0 s' \<and> flight s' = None \<and> time_now s' = t \<and>
    the_pool s' = snd (receive_pull peer result t (the_pool s))"
proof -
  let ?s = "s\<lparr>time_now := t\<rparr>"
  have "pool_run p0 ?s" by (rule pool_run.step [OF assms(1) pool_step.tick [OF assms(3)]])
  from pool_run.step [OF this pool_step.arrive [of ?s peer n result]] assms(2,4) show ?thesis
    by (intro exI [of _ "?s\<lparr>flight := None, the_pool := snd (receive_pull peer result (time_now ?s) (the_pool ?s)),
         received := append_at (received ?s) peer (case result of Inl e \<Rightarrow> [] | Inr ks \<Rightarrow> ks)\<rparr>"]) simp
qed

lemma receive_pull_failed:
  "snd (receive_pull peer (Inl e) t p) = snd (receive_pull peer (Inl e) t' p)"
  by (simp add: receive_pull_def)

lemma pull_peers_run:
  assumes "pool_run p0 s" "flight s = None" "time_now s \<le> tm w"
    and "pull_peers source clock ps w (the_pool s) = Inr (n, p', w')"
  shows "\<exists>s'. pool_run p0 s' \<and> flight s' = None \<and> the_pool s' = p' \<and> time_now s' \<le> tm w'"
  using assms
proof (induction ps arbitrary: s w n)
  case (Cons peer ps)
  from Cons.prems(4) obtain m where m: "demand peer (the_pool s) = Inr m" by (auto simp: bind_py_eq_Inr)
  show ?case
  proof (cases "m \<le> 0")
    case True
    then show ?thesis using Cons m by (auto simp: bind_py_eq_Inr)
  next
    case False
    obtain result w1 where src: "source peer m w = (result, w1)" by (cases "source peer m w")
    let ?s = "s\<lparr>flight := Some (peer, m)\<rparr>"
    have run: "pool_run p0 ?s"
      using pool_run.step [OF Cons.prems(1) pool_step.request [OF Cons.prems(2) m]] False by simp
    obtain now w2 where now: "(if isl result then (0, w1) else clock w1) = (now, w2)"
      by (cases "if isl result then (0, w1) else clock w1")
    define t where "t = (if isl result then time_now s else now)"
    have t: "time_now s \<le> t" "t \<le> tm w2"
      using now source_time [OF src] Cons.prems(3) clock_time [of w1 now w2]
      by (auto simp: t_def split: if_splits)
    have "snd (receive_pull peer result now (the_pool s)) = snd (receive_pull peer result t (the_pool s))"
      using receive_pull_failed by (cases result) (auto simp: t_def)
    moreover
    have "int (length ks) \<le> m" if "result = Inr ks" for ks
      using honest [of peer m w ks w1] src False that by simp
    then obtain s1 where
      s1: "pool_run p0 s1" "flight s1 = None" "time_now s1 = t"
        "the_pool s1 = snd (receive_pull peer result t (the_pool s))"
      using arrive_run [OF run, of peer m t result] t(1) by auto
    ultimately have pull: "\<exists>k. pull_peers source clock ps w2 (the_pool s1) = Inr (k, p', w')"
      using Cons.prems(4) m False src now
      by (auto simp: bind_py_eq_Inr map_sum_eq_Inr split: prod.splits)
    then show ?thesis using Cons.IH [OF s1(1,2)] s1(3) t(2) by auto
  qed
qed auto

text \<open>A pass never raises on the peers of the pool.\<close>

lemma pull_peers_total:
  "set ps \<subseteq> dom (map_of (deques p)) \<Longrightarrow> \<exists>n p' w'. pull_peers source clock ps w p = Inr (n, p', w')"
proof (induction ps arbitrary: w p)
  case (Cons peer ps)
  then obtain d where d: "map_of (deques p) peer = Some d" by auto
  have "dom (map_of (deques (snd (receive_pull peer r t p)))) = dom (map_of (deques p))" for r t
    by (auto simp: dom_def receive_pull_deques)
  then have "\<exists>n p' w'. pull_peers source clock ps w2 p1 = Inr (n, p', w')"
    if "receive_pull peer r t p = (c, p1)" for r t c p1 w2
    using Cons that by (metis insert_subset list.simps(15) snd_conv)
  then show ?case using Cons d
    by (fastforce simp: demand_def map_sum_eq_Inr split: prod.splits)
qed simp

end

section \<open>Properties\<close>

text \<open>Property C35. Under every interleaving of pulls, allocations and expiry, and a source that never
  returns more keys than asked, no peer ever buffers more than \<open>target\<close> keys, the request in flight
  included.\<close>

theorem pool_never_exceeds_target:
  assumes "pool_run (new_pool ps tgt ttl_s) s" "map_of (deques (the_pool s)) peer = Some d" "0 \<le> tgt"
  shows "int (length d) \<le> tgt \<and> (flight s = Some (peer, n) \<longrightarrow> int (length d) + n \<le> tgt)"
proof -
  have ok: "sys_ok s" by (rule pool_run_ok [OF assms(1) refl])
  have "target (the_pool s) = tgt" using pool_run_target [OF assms(1)] by (simp add: new_pool_def)
  then show ?thesis using sys_okD(1) [OF ok assms(2)] flight_nonneg [OF ok, of peer] assms(3)
    by (auto split: option.splits)
qed

text \<open>Property C36. Every buffer is a queue: at any moment of any interleaving the keys received for a peer
  are, in order, those that left its buffer (handed out or expired) followed by those still in it, so
  each delivered key leaves at most once and none is lost or reordered.\<close>

theorem pool_is_fifo:
  assumes "pool_run (new_pool ps tgt ttl_s) s" "map_of (deques (the_pool s)) peer = Some d"
  shows "received s peer = taken s peer @ map fst d"
  by (rule sys_okD(4) [OF pool_run_ok [OF assms(1) refl] assms(2)])

text \<open>Expiry is exact: at any moment of a run one expiry pass over a peer leaves the keys
  received no longer than \<open>ttl\<close> ago, all of them and only them, and counts the rest.\<close>

theorem expiry_is_exact:
  assumes "pool_run (new_pool ps tgt ttl_s) s" "map_of (deques (the_pool s)) peer = Some d"
  shows "case expire_peer peer now (the_pool s) of (n, p') \<Rightarrow>
    map_of (deques p') peer = Some (filter (\<lambda>e. now - ttl (the_pool s) \<le> snd e) d) \<and>
    n = length (filter (\<lambda>e. snd e < now - ttl (the_pool s)) d) \<and>
    (\<forall>q. q = peer \<or> map_of (deques p') q = map_of (deques (the_pool s)) q)"
proof -
  define c where "c = now - ttl (the_pool s)"
  have srt: "sorted (map snd d)" by (rule sys_okD(2) [OF pool_run_ok [OF assms(1) refl] assms(2)])
  have "length d = length (filter (\<lambda>e. snd e < c) d) + length (filter (\<lambda>e. c \<le> snd e) d)"
    using sum_length_filter_compl [of "\<lambda>e. snd e < c" d] by (simp add: not_less)
  moreover have "length d = fst (expire_deque c d) + length (snd (expire_deque c d))"
    by (simp add: expire_deque_eq flip: length_append)
  ultimately have "fst (expire_deque c d) = length (filter (\<lambda>e. snd e < c) d)"
    using expire_deque_filter [OF srt, of c] by simp
  then show ?thesis
    using assms(2) expire_deque_filter [OF srt, of c]
    by (auto simp: expire_peer_def map_entry_map_of c_def)
qed

text \<open>A run of four steps for the witnesses: one key requested, delivered and buffered.\<close>

definition demo_pool :: pool where
  "demo_pool = new_pool [''QKD2''] 2 600"

definition demo_key :: qkey where
  "demo_key = \<lparr> k_id = ''a'', k_material = [1, 2] \<rparr>"

definition demo_sys :: pool_sys where
  "demo_sys =
     \<lparr> the_pool = demo_pool\<lparr>deques := [(''QKD2'', [(demo_key, 0)])]\<rparr>, flight = None,
       received = append_at (\<lambda>k. []) ''QKD2'' [demo_key], taken = (\<lambda>k. []), time_now = 0 \<rparr>"

lemma demo_run: "pool_run demo_pool demo_sys"
proof -
  let ?s1 = "(start_sys demo_pool 0)\<lparr>flight := Some (''QKD2'', 2)\<rparr>"
  have "pool_step (open_store []) (start_sys demo_pool 0) (Request1 ''QKD2'' 2) ?s1"
    by (rule pool_step.request)
      (simp_all add: start_sys_def demo_pool_def new_pool_def demand_def MAX_PER_REQUEST_def)
  then have 1: "pool_run demo_pool ?s1" by (rule pool_run.step [OF pool_run.start])
  have "pool_step (open_store []) ?s1 (Arrive ''QKD2'' (Inr [demo_key])) demo_sys"
    using pool_step.arrive [of ?s1 "''QKD2''" 2 "Inr [demo_key]" "open_store []"]
    by (simp add: start_sys_def demo_sys_def demo_pool_def new_pool_def receive_pull_def)
  with 1 show ?thesis by (rule pool_run.step)
qed

theorem pool_never_exceeds_target_witness: "int (length [(demo_key, 0 :: rat)]) \<le> 2"
  using pool_never_exceeds_target [OF demo_run [unfolded demo_pool_def], of "''QKD2''" "[(demo_key, 0)]"]
  by (simp add: demo_sys_def)

theorem pool_is_fifo_witness: "received demo_sys ''QKD2'' = [] @ [demo_key]"
  using pool_is_fifo [OF demo_run [unfolded demo_pool_def], of "''QKD2''" "[(demo_key, 0)]"]
  by (simp add: demo_sys_def)

theorem expiry_is_exact_witness:
  "map_of (deques (snd (expire_peer ''QKD2'' 700 (the_pool demo_sys)))) ''QKD2'' = Some []"
  using expiry_is_exact [OF demo_run [unfolded demo_pool_def], of "''QKD2''" "[(demo_key, 0)]" 700]
  by (simp add: demo_sys_def demo_pool_def new_pool_def split: prod.splits)

end
