(* ===== verification/SimApp.thy ===== *)
theory SimApp
  imports SimStore KeyPool
begin

text \<open>
  \<open>src/qkd_ekm/qkdsim/app.py\<close>: the routes of the KME simulator over its store. An error of a route is
  an HTTPException with a message, or an exception nothing handles (a 500 with no JSON body). The
  configuration comes from the environment. \<open>jwt\<close> and the float monitoring values are not modelled.
  \<open>sim_send\<close> routes the requests of the ETSI client, which makes the simulator a \<open>key_source\<close> of the
  pool.
\<close>

datatype sim_error =
    SimHTTP int string
  | SimCrash py_error

record sim_config =
  saes :: "string list"
  sim_token :: "string option"

definition MAX_KEY_PER_REQUEST :: int where
  "MAX_KEY_PER_REQUEST = 100"

definition MAX_KEY_SIZE :: int where
  "MAX_KEY_SIZE = 8192"

definition MIN_KEY_SIZE :: int where
  "MIN_KEY_SIZE = 8"

text \<open>\<open>[s.strip() for s in env("SIM_SAES", ...).split(",") if s.strip()]\<close>\<close>

definition parse_saes :: "string \<Rightarrow> string list" where
  "parse_saes text = filter (\<lambda>s. s \<noteq> []) (map strip (split_on CHR '','' text))"

definition master_for :: "sim_config \<Rightarrow> string \<Rightarrow> string" where
  "master_for cfg slave_sae =
     (case filter (\<lambda>s. s \<noteq> slave_sae) (saes cfg) of [] \<Rightarrow> slave_sae | m # ms \<Rightarrow> m)"

definition require_sim_token :: "sim_config \<Rightarrow> string option \<Rightarrow> sim_error + unit" where
  "require_sim_token cfg authorization =
     (case sim_token cfg of
        None \<Rightarrow> Inr ()
      | Some t \<Rightarrow> if authorization = Some (''Bearer '' @ t) then Inr () else Inl (SimHTTP 401 ''unauthorized''))"

definition require_sae :: "sim_config \<Rightarrow> string \<Rightarrow> sim_error + unit" where
  "require_sae cfg sae = (if sae \<in> set (saes cfg) then Inr () else Inl (SimHTTP 404 ''unknown SAE''))"

definition sim_status :: "sim_config \<Rightarrow> string option \<Rightarrow> string \<Rightarrow> rat \<Rightarrow> key_store \<Rightarrow> sim_error + json" where
  "sim_status cfg authorization sae now s =
     bind_py (require_sim_token cfg authorization) (\<lambda>_.
     bind_py (require_sae cfg sae) (\<lambda>_.
     Inr (JObj
       [(''slave_SAE_ID'', JStr sae), (''master_SAE_ID'', JStr (master_for cfg sae)),
        (''key_size'', JInt 256), (''stored_key_count'', JInt (pending_count s)),
        (''max_key_count'', JInt (inventory s)), (''max_key_per_request'', JInt MAX_KEY_PER_REQUEST),
        (''max_key_size'', JInt MAX_KEY_SIZE), (''min_key_size'', JInt MIN_KEY_SIZE),
        (''status_extension'', JObj
          [(''current_bits'', JInt (generated_bits now s - deleted_bits s)),
           (''maximum_key_length'', JInt MAX_KEY_SIZE),
           (''num_of_256_keys_available'', JInt (available_256bit_keys s)),
           (''bits_consumed_from_the_beginning'', JInt (consumed_bits s)),
           (''keys_consumed_from_the_beginning'', JInt (consumed_keys s)),
           (''key_requests_from_the_beginning'', JInt (key_requests s)),
           (''num_failed_key_requests_from_the_beginning'', JInt (failed_key_requests s)),
           (''total_generated_bits'', JInt (generated_bits now s)),
           (''deleted_bits'', JInt (deleted_bits s))])])))"

definition sim_key_json :: "sim_key \<Rightarrow> json" where
  "sim_key_json k = key_json \<lparr> k_id = sk_id k, k_material = sk_material k \<rparr>"

definition sim_enc_keys ::
  "sim_config \<Rightarrow> (nat \<Rightarrow> string \<times> bytes) \<Rightarrow> string option \<Rightarrow> string \<Rightarrow> string option \<Rightarrow> key_store \<Rightarrow>
   (sim_error + json) \<times> key_store" where
  "sim_enc_keys cfg rand authorization slave_sae number_param s =
     (case bind_py (require_sim_token cfg authorization) (\<lambda>_. require_sae cfg slave_sae) of
        Inl e \<Rightarrow> (Inl e, s)
      | Inr _ \<Rightarrow>
          (case py_int (case number_param of None \<Rightarrow> ''1'' | Some t \<Rightarrow> t) of
             None \<Rightarrow> (Inl (SimHTTP 400 ''invalid number''), s)
           | Some number \<Rightarrow>
               if number < 1 \<or> number > MAX_KEY_PER_REQUEST then (Inl (SimHTTP 400 ''invalid number''), s)
               else if \<not> source_on s then
                 (Inl (SimHTTP 503 ''source unavailable''), s\<lparr>failed_key_requests := failed_key_requests s + 1\<rparr>)
               else
                 (case sim_new_keys rand (master_for cfg slave_sae, slave_sae) (nat number)
                         (s\<lparr>key_requests := key_requests s + 1\<rparr>) of
                    (keys, s') \<Rightarrow> (Inr (JObj [(''keys'', JList (map sim_key_json keys))]), s'))))"

text \<open>\<open>_dec_key_ids\<close>: the body of a POST, or the query parameter of a GET.\<close>

datatype dec_input =
    DecPost "json option"
  | DecGet "string option"

definition dec_key_ids :: "dec_input \<Rightarrow> sim_error + json list" where
  "dec_key_ids inp =
     (case inp of
        DecPost None \<Rightarrow> Inl (SimCrash ValueError)
      | DecPost (Some (JObj kvs)) \<Rightarrow>
          map_sum SimCrash id
            (bind_py (case map_of (rev kvs) ''key_IDs'' of None \<Rightarrow> Inr [] | Some v \<Rightarrow> py_iter v)
              (map_py (\<lambda>item. obj_item item ''key_ID'')))
      | DecPost (Some j) \<Rightarrow> Inl (SimCrash (OtherError ''AttributeError''))
      | DecGet None \<Rightarrow> Inl (SimHTTP 400 ''missing key_ID'')
      | DecGet (Some k) \<Rightarrow> Inr [JStr k])"

text \<open>The loop of \<open>dec_keys\<close>: each identifier is consumed as it is reached, whatever follows.\<close>

fun dec_loop :: "json list \<Rightarrow> key_store \<Rightarrow> (sim_error + sim_key list) \<times> key_store" where
  "dec_loop [] s = (Inr [], s)"
| "dec_loop (j # js) s =
     (case j of
        JList xs \<Rightarrow> (Inl (SimCrash TypeError), s)
      | JObj kvs \<Rightarrow> (Inl (SimCrash TypeError), s)
      | JStr key_id \<Rightarrow>
          if get_by_id key_id s = None then (Inl (SimHTTP 404 ''unknown key_ID''), s)
          else if sim_is_consumed key_id s then (Inl (SimHTTP 400 ''key already consumed''), s)
          else (case consume key_id s of
              (None, s1) \<Rightarrow> (Inl (SimCrash (OtherError ''AttributeError'')), s1)
            | (Some k, s1) \<Rightarrow>
                (case dec_loop js s1 of (r, s2) \<Rightarrow> (map_sum id (\<lambda>ks. k # ks) r, s2)))
      | _ \<Rightarrow> (Inl (SimHTTP 404 ''unknown key_ID''), s))"

definition sim_dec_keys ::
  "sim_config \<Rightarrow> string option \<Rightarrow> string \<Rightarrow> dec_input \<Rightarrow> key_store \<Rightarrow> (sim_error + json) \<times> key_store" where
  "sim_dec_keys cfg authorization master_sae inp s =
     (case bind_py (require_sim_token cfg authorization) (\<lambda>_.
             bind_py (require_sae cfg master_sae) (\<lambda>_. dec_key_ids inp)) of
        Inl e \<Rightarrow> (Inl e, s)
      | Inr ids \<Rightarrow>
          (case dec_loop ids s of
             (r, s') \<Rightarrow> (map_sum id (\<lambda>ks. JObj [(''keys'', JList (map sim_key_json ks))]) r, s')))"

definition sim_source :: "sim_config \<Rightarrow> string option \<Rightarrow> (string \<times> json) list \<Rightarrow> key_store \<Rightarrow> (sim_error + json) \<times> key_store" where
  "sim_source cfg authorization body s =
     (case require_sim_token cfg authorization of
        Inl e \<Rightarrow> (Inl e, s)
      | Inr _ \<Rightarrow>
          let on = truthy (case map_of (rev body) ''available'' of None \<Rightarrow> JBool True | Some v \<Rightarrow> v)
          in (Inr (JObj [(''source_available'', JBool on)]), s\<lparr>source_on := on\<rparr>))"

section \<open>The simulator as the server of the client\<close>

definition sim_reply :: "sim_error + json \<Rightarrow> reply" where
  "sim_reply r =
     (case r of
        Inr j \<Rightarrow> Reply 200 (Some j)
      | Inl (SimHTTP code msg) \<Rightarrow> Reply code (Some (JObj [(''message'', JStr msg)]))
      | Inl (SimCrash e) \<Rightarrow> Reply 500 None)"

definition sim_send ::
  "sim_config \<Rightarrow> (nat \<Rightarrow> string \<times> bytes) \<Rightarrow> string option \<Rightarrow> request \<Rightarrow> key_store \<Rightarrow> reply \<times> key_store" where
  "sim_send cfg rand authorization req s =
     map_prod sim_reply id
       (case req of
          Get path params \<Rightarrow>
            (case split_on CHR ''/'' path of
               [e, a, v, k, sae, op] \<Rightarrow>
                 if (e, a, v, k) \<noteq> ([], ''api'', ''v1'', ''keys'') then (Inl (SimHTTP 404 ''Not Found''), s)
                 else if op = ''enc_keys'' then
                   sim_enc_keys cfg rand authorization sae (map_of (rev params) ''number'') s
                 else if op = ''dec_keys'' then
                   sim_dec_keys cfg authorization sae (DecGet (map_of (rev params) ''key_ID'')) s
                 else (Inl (SimHTTP 404 ''Not Found''), s)
             | _ \<Rightarrow> (Inl (SimHTTP 404 ''Not Found''), s))
        | Post path body \<Rightarrow>
            (case split_on CHR ''/'' path of
               [e, a, v, k, sae, op] \<Rightarrow>
                 if (e, a, v, k) \<noteq> ([], ''api'', ''v1'', ''keys'') then (Inl (SimHTTP 404 ''Not Found''), s)
                 else if op = ''dec_keys'' then sim_dec_keys cfg authorization sae (DecPost (Some body)) s
                 else (Inl (SimHTTP 404 ''Not Found''), s)
             | _ \<Rightarrow> (Inl (SimHTTP 404 ''Not Found''), s)))"

lemma sim_new_keys_length: "sim_new_keys rand pair n s = (ks, s') \<Longrightarrow> length ks = n"
  by (induction n arbitrary: s ks) (auto split: prod.splits)

definition plain_key :: "sim_key \<Rightarrow> qkey" where
  "plain_key k = \<lparr> k_id = sk_id k, k_material = sk_material k \<rparr>"

lemma received_sim_keys:
  "received_keys (sim_reply (Inr (JObj [(''keys'', JList (map sim_key_json ks))]))) = Inr (map plain_key ks)"
proof -
  have "JObj [(''keys'', JList (map sim_key_json ks))] = keys_json (map plain_key ks)"
    by (simp add: keys_json_def sim_key_json_def plain_key_def o_def)
  then show ?thesis by (simp add: received_keys_def receive_def sim_reply_def)
qed

section \<open>Routing\<close>

lemma length_split_on: "length (split_on c s) = Suc (count_list s c)"
  by (induction s) (auto split: list.splits simp: split_on_not_Nil)

definition key_path :: "string \<Rightarrow> string \<Rightarrow> string" where
  "key_path sae op = ''/api/v1/keys/'' @ sae @ CHR ''/'' # op"

lemma split_key_path:
  assumes "CHR ''/'' \<notin> set sae" "CHR ''/'' \<notin> set op"
  shows "split_on CHR ''/'' (key_path sae op) = [[], ''api'', ''v1'', ''keys'', sae, op]"
  using split_on_prefix [OF assms(1), of op] split_on_word [OF assms(2)] by (simp add: key_path_def)

lemma split_key_path_long:
  assumes "CHR ''/'' \<in> set sae"
  shows "length (split_on CHR ''/'' (key_path sae op)) > 6"
proof -
  have "count_list sae CHR ''/'' > 0" using assms by (simp add: count_list_0_iff flip: neq0_conv)
  then show ?thesis by (simp add: length_split_on key_path_def)
qed

lemma long_list_case: "length xs > 6 \<Longrightarrow> (case xs of [a, b, c, d, e, f] \<Rightarrow> g a b c d e f | _ \<Rightarrow> h) = h"
  by (auto split: list.splits)

lemma enc_request_path: "enc_request sae n z = Get (key_path sae ''enc_keys'') [(''number'', str_int n), (''size'', str_int z)]"
  by (simp add: enc_request_def key_path_def)

lemma send_enc:
  "CHR ''/'' \<notin> set sae \<Longrightarrow>
   sim_send cfg rand auth (enc_request sae n z) s =
     map_prod sim_reply id (sim_enc_keys cfg rand auth sae (Some (str_int n)) s)"
  by (simp add: sim_send_def enc_request_path split_key_path)

lemma send_enc_long:
  "CHR ''/'' \<in> set sae \<Longrightarrow>
   sim_send cfg rand auth (enc_request sae n z) s = (sim_reply (Inl (SimHTTP 404 ''Not Found'')), s)"
  using split_key_path_long [of sae "''enc_keys''"]
  by (simp add: sim_send_def enc_request_path long_list_case)

lemma send_dec:
  assumes "CHR ''/'' \<notin> set sae"
  shows "sim_send cfg rand auth (dec_request sae ids) s =
     map_prod sim_reply id (sim_dec_keys cfg auth sae
       (case ids of [k] \<Rightarrow> DecGet (Some k)
        | _ \<Rightarrow> DecPost (Some (JObj [(''key_IDs'', JList (map (\<lambda>kid. JObj [(''key_ID'', JStr kid)]) ids))]))) s)"
proof -
  have "dec_request sae ids = (case ids of
        [k] \<Rightarrow> Get (key_path sae ''dec_keys'') [(''key_ID'', k)]
      | _ \<Rightarrow> Post (key_path sae ''dec_keys'')
               (JObj [(''key_IDs'', JList (map (\<lambda>kid. JObj [(''key_ID'', JStr kid)]) ids))]))"
    by (simp add: dec_request_def key_path_def split: list.splits)
  then show ?thesis
    by (auto simp: sim_send_def split_key_path assms split: list.splits)
qed

lemma received_error:
  "(\<And>c m. err = SimHTTP c m \<Longrightarrow> c \<ge> 400) \<Longrightarrow> \<exists>e. received_keys (sim_reply (Inl err)) = Inl e"
  by (auto simp: sim_reply_def received_keys_def receive_def split: sim_error.splits)

lemma sim_enc_keys_error:
  "sim_enc_keys cfg rand auth sae num s = (Inl (SimHTTP c m), s') \<Longrightarrow> c \<ge> 400"
  by (auto simp: sim_enc_keys_def require_sim_token_def require_sae_def bind_py_eq_Inl
      split: sum.splits option.splits if_splits prod.splits)

lemma sim_enc_keys_Inr:
  assumes "sim_enc_keys cfg rand auth sae (Some (str_int n)) s = (Inr j, s')"
  obtains ks where "j = JObj [(''keys'', JList (map sim_key_json ks))]" "int (length ks) = n"
    "sim_new_keys rand (master_for cfg sae, sae) (nat n) (s\<lparr>key_requests := key_requests s + 1\<rparr>) = (ks, s')"
proof -
  from assms obtain ks where "j = JObj [(''keys'', JList (map sim_key_json ks))]" "\<not> n < 1"
    "sim_new_keys rand (master_for cfg sae, sae) (nat n) (s\<lparr>key_requests := key_requests s + 1\<rparr>) = (ks, s')"
    by (auto simp: sim_enc_keys_def split: sum.splits option.splits if_splits prod.splits)
  then show thesis using sim_new_keys_length that by fastforce
qed

text \<open>The world of the pool: the simulator's store and the time, which each reading of the clock moves
  on by \<open>dt\<close>.\<close>

definition sim_world_source ::
  "sim_config \<Rightarrow> (nat \<Rightarrow> string \<times> bytes) \<Rightarrow> string option \<Rightarrow> string \<Rightarrow> int \<Rightarrow> key_store \<times> rat \<Rightarrow>
   qkey list py \<times> (key_store \<times> rat)" where
  "sim_world_source cfg rand auth peer n w =
     (case client_enc_keys (sim_send cfg rand auth) peer n (fst w) of (r, s') \<Rightarrow> (r, (s', snd w)))"

definition sim_world_clock :: "rat \<Rightarrow> key_store \<times> rat \<Rightarrow> rat \<times> (key_store \<times> rat)" where
  "sim_world_clock dt w = (snd w, (fst w, snd w + \<bar>dt\<bar>))"

lemma client_enc_length:
  assumes "client_enc_keys (sim_send cfg rand auth) peer n s = (Inr ks, s')"
  shows "int (length ks) = n"
proof (cases "CHR ''/'' \<in> set peer")
  case True
  then show ?thesis
    using assms received_error [of "SimHTTP 404 ''Not Found''"] by (auto simp: client_enc_keys_def send_enc_long)
next
  case False
  obtain r s1 where r: "sim_enc_keys cfg rand auth peer (Some (str_int n)) s = (r, s1)" by fastforce
  then have k: "received_keys (sim_reply r) = Inr ks"
    using assms send_enc [OF False] by (simp add: client_enc_keys_def)
  show ?thesis
  proof (cases r)
    case (Inl err)
    then have "\<exists>e. received_keys (sim_reply (Inl err)) = Inl e"
      using r sim_enc_keys_error by (intro received_error) blast
    then show ?thesis using k Inl by simp
  next
    case (Inr j)
    with r obtain sks where "j = JObj [(''keys'', JList (map sim_key_json sks))]" "int (length sks) = n"
      by (auto elim: sim_enc_keys_Inr)
    then show ?thesis using k Inr received_sim_keys [of sks] by auto
  qed
qed

interpretation simulator: key_source "sim_world_source cfg rand auth" "sim_world_clock dt" snd
  for cfg rand auth dt
proof
  show "sim_world_source cfg rand auth peer n w = (Inr ks, w') \<Longrightarrow> 0 < n \<Longrightarrow> int (length ks) \<le> n" for peer n w ks w'
    using client_enc_length [of cfg rand auth peer n "fst w"] by (auto simp: sim_world_source_def split: prod.splits)
  show "sim_world_source cfg rand auth peer n w = (r, w') \<Longrightarrow> snd w \<le> snd w'" for peer n w r w'
    by (auto simp: sim_world_source_def split: prod.splits)
  show "sim_world_clock dt w = (now, w') \<Longrightarrow> snd w \<le> now \<and> now \<le> snd w'" for w now w'
    by (auto simp: sim_world_clock_def)
qed

section \<open>Delivery\<close>

lemma sim_new_keys_ok:
  assumes "sim_ok rand s" "inj (\<lambda>i. fst (rand i))" "sim_new_keys rand pair n s = (ks, s')"
  shows "sim_ok rand s' \<and> issued_count s' = issued_count s + n \<and> consumed_ids s' = consumed_ids s \<and>
    source_on s' = source_on s \<and>
    ks = map (\<lambda>i. \<lparr> sk_id = fst (rand i), sk_material = snd (rand i), sk_pair = pair \<rparr>)
      [issued_count s..<issued_count s + n]"
  using assms
proof (induction n arbitrary: s ks s')
  case (Suc n)
  obtain k s1 where 1: "sim_new_key rand pair s = (k, s1)" by fastforce
  obtain ks1 s2 where 2: "sim_new_keys rand pair n s1 = (ks1, s2)" by fastforce
  note a = sim_new_key_ok [OF Suc.prems(1,2) 1]
  have "[issued_count s..<issued_count s + Suc n] = issued_count s # [Suc (issued_count s)..<Suc (issued_count s) + n]"
    by (simp add: upt_conv_Cons del: upt_Suc)
  with a Suc.IH [OF _ Suc.prems(2) 2] Suc.prems(3) show ?case
    by (simp add: 1 2 del: upt_Suc)
qed simp

lemma dec_loop_fresh:
  assumes "sim_ok rand s" "inj (\<lambda>i. fst (rand i))" "set is \<subseteq> {..<issued_count s}" "distinct is"
    and "\<forall>i \<in> set is. fst (rand i) \<notin> consumed_ids s"
  shows "\<exists>ks s'. dec_loop (map (\<lambda>i. JStr (fst (rand i))) is) s = (Inr ks, s') \<and>
    map plain_key ks = map (\<lambda>i. \<lparr> k_id = fst (rand i), k_material = snd (rand i) \<rparr>) is \<and>
    consumed_ids s' = consumed_ids s \<union> (\<lambda>i. fst (rand i)) ` set is \<and> sim_ok rand s' \<and>
    s_keys s' = s_keys s"
  using assms
proof (induction "is" arbitrary: s)
  case (Cons i "is")
  obtain pair where p: "map_of (s_keys s) (fst (rand i)) =
      Some \<lparr> sk_id = fst (rand i), sk_material = snd (rand i), sk_pair = pair \<rparr>"
    using Cons.prems(1,3) by (auto simp: sim_ok_def)
  define s1 where "s1 = s\<lparr>consumed_ids := insert (fst (rand i)) (consumed_ids s),
      deleted_bits := deleted_bits s + KEY_BITS\<rparr>"
  have c: "consume (fst (rand i)) s =
      (Some \<lparr> sk_id = fst (rand i), sk_material = snd (rand i), sk_pair = pair \<rparr>, s1)"
    using p Cons.prems(5) by (simp add: consume_def s1_def)
  have ok: "sim_ok rand s1" using consume_ok [OF Cons.prems(1) c] by simp
  have "\<forall>j \<in> set is. fst (rand j) \<notin> consumed_ids s1"
    using Cons.prems(2,4,5) by (auto simp: s1_def dest: injD)
  from Cons.IH [OF ok Cons.prems(2) _ _ this] Cons.prems(3,4) obtain ks s2 where
    2: "dec_loop (map (\<lambda>i. JStr (fst (rand i))) is) s1 = (Inr ks, s2)"
      "map plain_key ks = map (\<lambda>i. \<lparr> k_id = fst (rand i), k_material = snd (rand i) \<rparr>) is"
      "consumed_ids s2 = consumed_ids s1 \<union> (\<lambda>i. fst (rand i)) ` set is" "sim_ok rand s2"
      "s_keys s2 = s_keys s1" by (auto simp: s1_def)
  have "plain_key \<lparr> sk_id = fst (rand i), sk_material = snd (rand i), sk_pair = pair \<rparr> =
      \<lparr> k_id = fst (rand i), k_material = snd (rand i) \<rparr>" by (simp add: plain_key_def)
  with 2 show ?case using p Cons.prems(5) c
    by (simp add: get_by_id_def sim_is_consumed_def) (simp add: s1_def)
qed auto

lemma dec_loop_consumed:
  "key_id \<in> consumed_ids s \<Longrightarrow> map_of (s_keys s) key_id \<noteq> None \<Longrightarrow>
   dec_loop [JStr key_id] s = (Inl (SimHTTP 400 ''key already consumed''), s)"
  by (auto simp: get_by_id_def sim_is_consumed_def)

definition ids_input :: "string list \<Rightarrow> dec_input" where
  "ids_input ids = (case ids of [k] \<Rightarrow> DecGet (Some k)
     | _ \<Rightarrow> DecPost (Some (JObj [(''key_IDs'', JList (map (\<lambda>kid. JObj [(''key_ID'', JStr kid)]) ids))])))"

lemma dec_key_ids_input: "dec_key_ids (ids_input ids) = Inr (map JStr ids)"
proof -
  have m: "map_py (\<lambda>item. obj_item item ''key_ID'') (map (\<lambda>kid. JObj [(''key_ID'', JStr kid)]) ids) = Inr (map JStr ids)"
    by (induction ids) (simp_all add: obj_item_def)
  show ?thesis
  proof (cases "\<exists>k. ids = [k]")
    case True
    then show ?thesis by (auto simp: ids_input_def dec_key_ids_def)
  next
    case False
    then have "ids_input ids =
        DecPost (Some (JObj [(''key_IDs'', JList (map (\<lambda>kid. JObj [(''key_ID'', JStr kid)]) ids))]))"
      by (auto simp: ids_input_def split: list.splits)
    then show ?thesis using m by (simp add: dec_key_ids_def py_iter_def)
  qed
qed

definition sim_ready :: "sim_config \<Rightarrow> string option \<Rightarrow> string \<Rightarrow> bool" where
  "sim_ready cfg auth sae \<longleftrightarrow> require_sim_token cfg auth = Inr () \<and> sae \<in> set (saes cfg) \<and> CHR ''/'' \<notin> set sae"

lemma client_dec_ready:
  assumes "sim_ready cfg auth sae" "dec_loop (map JStr ids) s = (r, s')"
  shows "client_dec_keys (sim_send cfg rand auth) sae ids s =
    (case r of Inl e \<Rightarrow> received_keys (sim_reply (Inl e)) | Inr ks \<Rightarrow> Inr (map plain_key ks), s')"
proof -
  have "sim_send cfg rand auth (dec_request sae ids) s =
      map_prod sim_reply id (sim_dec_keys cfg auth sae (ids_input ids) s)"
    using assms(1) by (simp add: sim_ready_def send_dec ids_input_def)
  moreover have "sim_dec_keys cfg auth sae (ids_input ids) s =
      (map_sum id (\<lambda>ks. JObj [(''keys'', JList (map sim_key_json ks))]) r, s')"
    using assms by (simp add: sim_dec_keys_def sim_ready_def require_sae_def dec_key_ids_input)
  ultimately show ?thesis
    by (simp add: client_dec_keys_def received_sim_keys split: sum.splits)
qed

lemma client_enc_ready:
  assumes "sim_ready cfg auth sae" "source_on s" "1 \<le> n" "n \<le> MAX_KEY_PER_REQUEST"
    and "sim_new_keys rand (master_for cfg sae, sae) (nat n) (s\<lparr>key_requests := key_requests s + 1\<rparr>) = (ks, s')"
  shows "client_enc_keys (sim_send cfg rand auth) sae n s = (Inr (map plain_key ks), s')"
  using assms
  by (simp add: client_enc_keys_def sim_ready_def send_enc sim_enc_keys_def require_sae_def received_sim_keys)

text \<open>Property C38. Key agreement through the simulator: the keys one SAE obtains with \<open>enc_keys\<close> are
  the keys the other SAE obtains with \<open>dec_keys\<close> for their identifiers, with the same material; as
  many come as were asked for; and each is given out by \<open>dec_keys\<close> once, a second request for any of
  them is refused.\<close>

theorem enc_dec_agree:
  assumes "sim_ok rand s" "inj (\<lambda>i. fst (rand i))" "source_on s" "1 \<le> n" "n \<le> MAX_KEY_PER_REQUEST"
    and "sim_ready cfg auth slave" "sim_ready cfg auth master"
  shows "\<exists>ks s1 s2. client_enc_keys (sim_send cfg rand auth) slave n s = (Inr ks, s1) \<and>
    int (length ks) = n \<and> distinct (map k_id ks) \<and>
    client_dec_keys (sim_send cfg rand auth) master (map k_id ks) s1 = (Inr ks, s2) \<and>
    list_all (\<lambda>k. client_dec_keys (sim_send cfg rand auth) master [k_id k] s2 = (Inl QkdError, s2)) ks"
proof -
  let ?s = "s\<lparr>key_requests := key_requests s + 1\<rparr>"
  obtain ks s1 where new: "sim_new_keys rand (master_for cfg slave, slave) (nat n) ?s = (ks, s1)" by fastforce
  have ok: "sim_ok rand ?s" using assms(1) by (simp add: sim_ok_def)
  note n1 = sim_new_keys_ok [OF ok assms(2) new]
  define "is" where "is = [issued_count s..<issued_count s + nat n]"
  define ids where "ids = map (\<lambda>i. fst (rand i)) is"
  have enc: "client_enc_keys (sim_send cfg rand auth) slave n s = (Inr (map plain_key ks), s1)"
    by (rule client_enc_ready [OF assms(6,3,4,5) new])
  have pk: "map plain_key ks = map (\<lambda>i. \<lparr> k_id = fst (rand i), k_material = snd (rand i) \<rparr>) is"
    using n1 by (simp add: is_def plain_key_def)
  then have kid: "map k_id (map plain_key ks) = ids" by (simp add: ids_def)
  have "consumed_ids s \<subseteq> (\<lambda>i. fst (rand i)) ` {..<issued_count s}"
  proof -
    have "fst ` set (s_keys s) = (\<lambda>i. fst (rand i)) ` {..<issued_count s}"
      using assms(1) unfolding sim_ok_def by (metis atLeast_upt lessThan_atLeast0 list.set_map)
    then show ?thesis using assms(1) by (simp add: sim_ok_def)
  qed
  then have fresh: "\<forall>i \<in> set is. fst (rand i) \<notin> consumed_ids s1"
    using n1 assms(2) by (fastforce simp: is_def dest: injD)
  have "set is \<subseteq> {..<issued_count s1}" "distinct is" using n1 by (auto simp: is_def)
  from dec_loop_fresh [OF conjunct1 [OF n1] assms(2) this fresh] obtain ks2 s2 where
    d0: "dec_loop (map (\<lambda>i. JStr (fst (rand i))) is) s1 = (Inr ks2, s2)"
      "map plain_key ks2 = map (\<lambda>i. \<lparr> k_id = fst (rand i), k_material = snd (rand i) \<rparr>) is"
      "consumed_ids s2 = consumed_ids s1 \<union> (\<lambda>i. fst (rand i)) ` set is" "sim_ok rand s2"
      "s_keys s2 = s_keys s1" by blast
  have d: "dec_loop (map JStr ids) s1 = (Inr ks2, s2)" "map plain_key ks2 = map plain_key ks"
    "consumed_ids s2 = consumed_ids s1 \<union> set ids"
    using d0 by (simp_all only: pk ids_def map_map o_def set_map)
  have dec: "client_dec_keys (sim_send cfg rand auth) master ids s1 = (Inr (map plain_key ks), s2)"
    using client_dec_ready [OF assms(7) d(1)] d(2) by simp
  have again: "client_dec_keys (sim_send cfg rand auth) master [k] s2 = (Inl QkdError, s2)" if "k \<in> set ids" for k
  proof -
    have "k \<in> consumed_ids s2" using d(3) that by simp
    moreover from this have "k \<in> fst ` set (s_keys s2)" using d0(4) by (auto simp: sim_ok_def)
    then have "map_of (s_keys s2) k \<noteq> None" by (simp add: map_of_eq_None_iff)
    ultimately show ?thesis
      using client_dec_ready [OF assms(7), of "[k]" s2] dec_loop_consumed [of k s2]
      by (simp add: received_keys_def receive_def sim_reply_def)
  qed
  have "distinct ids" using assms(2) by (simp add: ids_def is_def distinct_map inj_on_def inj_def)
  moreover have "int (length (map plain_key ks)) = n" using pk assms(4) by (simp add: is_def)
  ultimately show ?thesis using enc dec again kid
    by (intro exI [of _ "map plain_key ks"] exI [of _ s1] exI [of _ s2])
      (auto simp: list_all_iff simp del: map_map length_map)
qed

definition demo_rand :: "nat \<Rightarrow> string \<times> bytes" where
  "demo_rand i = (str_int (int i), replicate 32 (of_nat i))"

definition demo_cfg :: sim_config where
  "demo_cfg = \<lparr> saes = [''QKD1'', ''QKD2''], sim_token = None \<rparr>"

lemma demo_rand_inj: "inj (\<lambda>i. fst (demo_rand i))"
  by (rule injI) (simp add: demo_rand_def)

lemma demo_ready: "sim_ready demo_cfg None ''QKD1''" "sim_ready demo_cfg None ''QKD2''"
  by (simp_all add: sim_ready_def demo_cfg_def require_sim_token_def)

theorem enc_dec_agree_witness:
  "\<exists>ks s1 s2. client_enc_keys (sim_send demo_cfg demo_rand None) ''QKD2'' 3 (KeyStore 82 1000 0) = (Inr ks, s1) \<and>
    int (length ks) = 3 \<and> distinct (map k_id ks) \<and>
    client_dec_keys (sim_send demo_cfg demo_rand None) ''QKD1'' (map k_id ks) s1 = (Inr ks, s2) \<and>
    list_all (\<lambda>k. client_dec_keys (sim_send demo_cfg demo_rand None) ''QKD1'' [k_id k] s2 = (Inl QkdError, s2)) ks"
  by (rule enc_dec_agree [OF sim_ok_start demo_rand_inj _ _ _ demo_ready(2,1)])
    (simp_all add: KeyStore_def MAX_KEY_PER_REQUEST_def)

text \<open>A batch request that fails still consumes: when a retrievable key is followed by an
  unknown identifier the simulator answers 404 and the key can never be retrieved afterwards.\<close>

theorem failed_batch_loses_keys:
  assumes "map_of (s_keys s) k = Some key" "k \<notin> consumed_ids s" "map_of (s_keys s) u = None"
  shows "\<exists>s'. dec_loop [JStr k, JStr u] s = (Inl (SimHTTP 404 ''unknown key_ID''), s') \<and>
    dec_loop [JStr k] s' = (Inl (SimHTTP 400 ''key already consumed''), s')"
  using assms by (simp add: get_by_id_def sim_is_consumed_def consume_def)

theorem failed_batch_loses_keys_witness:
  "\<exists>s'. dec_loop [JStr ''0'', JStr ''x''] (snd (sim_new_key demo_rand (''QKD1'', ''QKD2'') (KeyStore 82 1000 0))) =
      (Inl (SimHTTP 404 ''unknown key_ID''), s') \<and>
    dec_loop [JStr ''0''] s' = (Inl (SimHTTP 400 ''key already consumed''), s')"
proof (rule failed_batch_loses_keys)
  have "demo_rand 0 = (''0'', replicate 32 0)" by code_simp
  then have k: "s_keys (snd (sim_new_key demo_rand (''QKD1'', ''QKD2'') (KeyStore 82 1000 0))) =
      [(''0'', \<lparr> sk_id = ''0'', sk_material = replicate 32 0, sk_pair = (''QKD1'', ''QKD2'') \<rparr>)]"
    by (simp add: sim_new_key_def KeyStore_def Let_def)
  show "map_of (s_keys (snd (sim_new_key demo_rand (''QKD1'', ''QKD2'') (KeyStore 82 1000 0)))) ''0'' =
      Some \<lparr> sk_id = ''0'', sk_material = replicate 32 0, sk_pair = (''QKD1'', ''QKD2'') \<rparr>"
    unfolding k by simp
  show "map_of (s_keys (snd (sim_new_key demo_rand (''QKD1'', ''QKD2'') (KeyStore 82 1000 0)))) ''x'' = None"
    unfolding k by simp
qed (simp add: sim_new_key_def KeyStore_def Let_def split: prod.splits)

text \<open>One pass of the pool's pull loop against the simulator returns, whatever state the
  simulator is in and whether it answers or not, and leaves every peer with at most \<open>target\<close> keys.\<close>

theorem pull_from_simulator:
  "\<exists>n p' w'. pull_once (sim_world_source cfg rand auth) (sim_world_clock dt) (k, t) (new_pool ps tgt ttl_s) =
     Inr (n, p', w') \<and>
   (\<forall>q. case map_of (deques p') q of None \<Rightarrow> True | Some d \<Rightarrow> int (length d) \<le> max 0 tgt)"
proof -
  let ?p = "new_pool ps tgt ttl_s"
  have "dom (map_of (deques ?p)) = set ps" by (auto simp: new_pool_def dom_map_of_conv_image_fst image_image)
  then have "set (peers ?p) \<subseteq> dom (map_of (deques ?p))" by (simp add: new_pool_def)
  from simulator.pull_peers_total [OF this, of cfg rand auth dt "(k, t)"] obtain n p' w' where
    pull: "pull_peers (sim_world_source cfg rand auth) (sim_world_clock dt) (peers ?p) (k, t) ?p = Inr (n, p', w')"
    by blast
  have "\<exists>s'. pool_run ?p s' \<and> flight s' = None \<and> the_pool s' = p' \<and> time_now s' \<le> snd w'"
    by (rule simulator.pull_peers_run [OF pool_run.start [of ?p t]])
      (use pull in \<open>simp_all add: start_sys_def\<close>)
  then obtain s' where run: "pool_run ?p s'" "the_pool s' = p'" "flight s' = None" by blast
  have "target p' = tgt" using pool_run_target [OF run(1)] run(2) by (simp add: new_pool_def)
  then have "int (length d) \<le> max 0 tgt" if "map_of (deques p') q = Some d" for q d
    using sys_okD(1) [OF pool_run_ok [OF run(1) refl], of q d] that run by simp
  then show ?thesis using pull by (auto simp: pull_once_def split: option.splits)
qed

end
