(* ===== verification/Auth.thy ===== *)
theory Auth
  imports Web Crypto
begin

text \<open>
  \<open>src/qkd_ekm/common/auth.py\<close>: the two verifiers and the bearer dependency. Both verifiers keep one
  contract, the locale \<open>token_verifier\<close>: a token is accepted with given claims exactly when a stated
  condition holds. \<open>bearer_dep\<close> is proved against the contract and used with both.
\<close>

type_synonym claims = "(string \<times> json) list"

datatype verify_error =
    AuthError string bool
  | Other py_error

type_synonym verifier = "string \<Rightarrow> verify_error + claims"

definition ISSUERS :: "string set" where
  "ISSUERS = {''accounts.google.com'', ''https://accounts.google.com''}"

section \<open>Google identity tokens\<close>

text \<open>\<open>id_token.verify_token\<close> checks signature and expiry; it returns the claims or raises an exception
  of some class. It is a parameter.\<close>

record google_verifier =
  allowed_emails :: "string set"
  audiences :: "string set option"

definition GoogleJwtVerifier :: "string set \<Rightarrow> string set option \<Rightarrow> google_verifier" where
  "GoogleJwtVerifier emails auds =
     \<lparr> allowed_emails = emails,
       audiences = (case auds of None \<Rightarrow> None | Some A \<Rightarrow> if A = {} then None else Some A) \<rparr>"

text \<open>\<open>if claims.get(k) not in S: self._reject(reason, claims)\<close>\<close>

definition require_in :: "claims \<Rightarrow> string \<Rightarrow> string set \<Rightarrow> string \<Rightarrow> verify_error + unit" where
  "require_in c k S reason =
     (case in_strings (obj_get c k) S of
        Inl e \<Rightarrow> Inl (Other e)
      | Inr True \<Rightarrow> Inr ()
      | Inr False \<Rightarrow> Inl (AuthError reason False))"

definition google_verify :: "(string \<Rightarrow> string + claims) \<Rightarrow> google_verifier \<Rightarrow> verifier" where
  "google_verify verify_token v token =
     (case verify_token token of
        Inl cls \<Rightarrow> Inl (AuthError (''invalid token: '' @ cls) True)
      | Inr c \<Rightarrow>
          bind_py (require_in c ''iss'' ISSUERS ''issuer not trusted'') (\<lambda>_.
          bind_py (if obj_get c ''email_verified'' = JBool True then Inr ()
                   else Inl (AuthError ''email not verified'' False)) (\<lambda>_.
          bind_py (require_in c ''email'' (allowed_emails v) ''email not allowed'') (\<lambda>_.
          bind_py (case audiences v of None \<Rightarrow> Inr ()
                   | Some A \<Rightarrow> require_in c ''aud'' A ''audience not allowed'') (\<lambda>_.
          Inr c)))))"

definition google_accepts :: "(string \<Rightarrow> string + claims) \<Rightarrow> google_verifier \<Rightarrow> string \<Rightarrow> claims \<Rightarrow> bool" where
  "google_accepts verify_token v token c \<longleftrightarrow>
     verify_token token = Inr c \<and>
     (\<exists>s \<in> ISSUERS. obj_get c ''iss'' = JStr s) \<and>
     obj_get c ''email_verified'' = JBool True \<and>
     (\<exists>s \<in> allowed_emails v. obj_get c ''email'' = JStr s) \<and>
     (case audiences v of None \<Rightarrow> True | Some A \<Rightarrow> \<exists>s \<in> A. obj_get c ''aud'' = JStr s)"

lemma require_in_iff: "require_in c k S reason = Inr u \<longleftrightarrow> (\<exists>s \<in> S. obj_get c k = JStr s)"
  by (cases "obj_get c k") (auto simp: require_in_def in_strings_def split: bool.splits)

lemma google_verify_iff: "google_verify vt v t = Inr c \<longleftrightarrow> google_accepts vt v t c"
  by (auto simp: google_verify_def google_accepts_def bind_py_eq_Inr require_in_iff
      split: sum.splits option.splits if_splits)

section \<open>Static tokens\<close>

definition static_verify :: "string \<Rightarrow> verifier" where
  "static_verify secret token =
     (if utf8 token = utf8 secret then Inr [(''sub'', JStr ''static'')]
      else Inl (AuthError ''invalid token'' False))"

text \<open>\<open>compare_digest\<close> compares the UTF-8 bytes; UTF-8 is injective, so it compares the strings.\<close>

fun utf8_decode :: "bytes \<Rightarrow> string" where
  "utf8_decode [] = []"
| "utf8_decode [x] = [char_of (unat x)]"
| "utf8_decode (x # y # zs) =
     (if unat x < 128 then char_of (unat x) # utf8_decode (y # zs)
      else char_of ((unat x - 192) * 64 + (unat y - 128)) # utf8_decode zs)"

lemma unat_of_nat_byte: "n < 256 \<Longrightarrow> unat (of_nat n :: byte) = n"
  by (simp add: unat_of_nat)

lemma utf8_decode_utf8: "utf8_decode (utf8 s) = s"
proof (induction s)
  case (Cons c s)
  define n where "n = (of_char c :: nat)"
  have n: "n < 256" "char_of n = c" by (simp_all add: n_def)
  show ?case
  proof (cases "n < 128")
    case True
    then have "utf8 (c # s) = of_nat n # utf8 s" by (simp add: utf8_def n_def)
    then show ?thesis using True n Cons.IH by (cases "utf8 s") (auto simp: unat_of_nat_byte)
  next
    case False
    then have "utf8 (c # s) = of_nat (192 + n div 64) # of_nat (128 + n mod 64) # utf8 s"
      by (simp add: utf8_def n_def Let_def)
    moreover have "n div 64 < 4" using n by (simp add: less_mult_imp_div_less)
    moreover have "n mod 64 < 64" by simp
    ultimately show ?thesis using n Cons.IH by (simp add: unat_of_nat_byte del: of_nat_add)
  qed
qed (simp add: utf8_def)

lemma utf8_inject [simp]: "utf8 s = utf8 t \<longleftrightarrow> s = t"
  by (metis utf8_decode_utf8)

section \<open>The contract of a verifier, and the bearer dependency\<close>

text \<open>\<open>request.headers.get("authorization", "")\<close> is the argument.\<close>

definition bearer_dep :: "verifier \<Rightarrow> string \<Rightarrow> claims http" where
  "bearer_dep verify authorization =
     (if \<not> startswith authorization ''Bearer '' then http_fail 401 ''missing bearer token''
      else case verify (strip (removeprefix authorization ''Bearer '')) of
          Inr c \<Rightarrow> Inr c
        | Inl (AuthError reason unauthenticated) \<Rightarrow>
            http_fail (if unauthenticated then 401 else 403) reason
        | Inl (Other e) \<Rightarrow> Inl (Unhandled e))"

text \<open>\<open>accepts t c\<close> states when the token is accepted; \<open>known t\<close> that the issuer vouches for it, so
  that a refusal is a 403 and not a 401.\<close>

locale token_verifier =
  fixes verify :: verifier and accepts :: "string \<Rightarrow> claims \<Rightarrow> bool" and known :: "string \<Rightarrow> bool"
  assumes accepted: "verify t = Inr c \<longleftrightarrow> accepts t c"
    and refused: "verify t = Inl (AuthError reason u) \<Longrightarrow> u = (\<not> known t)"
begin

lemma bearer_accepts:
  "bearer_dep verify h = Inr c \<longleftrightarrow> (\<exists>t. h = ''Bearer '' @ t \<and> accepts (strip t) c)"
proof -
  define p where "p = ''Bearer ''"
  have known: "bearer_dep verify (p @ t) = Inr c \<longleftrightarrow> accepts (strip t) c" for t
    by (auto simp: bearer_dep_def p_def [symmetric] accepted [symmetric] http_fail_def
        split: sum.splits verify_error.splits)
  have "\<exists>t. h = p @ t" if "bearer_dep verify h = Inr c"
    using that by (auto simp: bearer_dep_def p_def [symmetric] startswith_iff http_fail_def split: if_splits)
  then show ?thesis unfolding p_def [symmetric] using known by blast
qed

lemma bearer_refuses:
  assumes "bearer_dep verify h = Inl err"
  shows "(\<exists>e. err = Unhandled e) \<or>
    fst (error_response err) =
      (if startswith h ''Bearer '' \<and> known (strip (removeprefix h ''Bearer '')) then 403 else 401)"
  using assms refused [of "strip (removeprefix h ''Bearer '')"]
  by (auto simp: bearer_dep_def http_fail_def error_response_def
      split: sum.splits verify_error.splits if_splits)

end

interpretation google: token_verifier "google_verify vt v" "google_accepts vt v"
    "\<lambda>t. \<exists>c. vt t = Inr c" for vt v
proof
  fix t c show "google_verify vt v t = Inr c \<longleftrightarrow> google_accepts vt v t c" by (rule google_verify_iff)
next
  fix t reason u assume a: "google_verify vt v t = Inl (AuthError reason u)"
  have req: "require_in c k S r = Inl (AuthError reason u) \<Longrightarrow> \<not> u" for c k S r
    by (auto simp: require_in_def split: sum.splits bool.splits)
  show "u = (\<not> (\<exists>c. vt t = Inr c))"
    using a by (auto simp: google_verify_def bind_py_eq_Inl split: sum.splits if_splits option.splits dest: req)
qed

interpretation static: token_verifier "static_verify s" "\<lambda>t c. t = s \<and> c = [(''sub'', JStr ''static'')]"
    "\<lambda>t. True" for s
  by unfold_locales (auto simp: static_verify_def split: if_splits)

section \<open>Properties\<close>

text \<open>Property C39. A request to the EKM's Cloud KMS routes passes only with a bearer token that Google's
  verification accepts and whose claims name a trusted issuer, a verified email of the allow-list
  and, when audiences are configured, one of them; nothing else passes and no flag skips it.\<close>

theorem google_bearer_accepts:
  "bearer_dep (google_verify vt (GoogleJwtVerifier emails auds)) h = Inr c \<longleftrightarrow>
     (\<exists>t. h = ''Bearer '' @ t \<and> vt (strip t) = Inr c \<and>
        (\<exists>s \<in> ISSUERS. obj_get c ''iss'' = JStr s) \<and> obj_get c ''email_verified'' = JBool True \<and>
        (\<exists>s \<in> emails. obj_get c ''email'' = JStr s) \<and>
        (auds = None \<or> auds = Some {} \<or> (\<exists>A s. auds = Some A \<and> s \<in> A \<and> obj_get c ''aud'' = JStr s)))"
  unfolding google.bearer_accepts google_accepts_def GoogleJwtVerifier_def
  by (cases auds) (auto split: if_splits)

text \<open>A caller of the VPN-side routes passes exactly with the shared secret (after the strip
  of the header), and is refused with 401 when the header is no bearer token and 403 otherwise.\<close>

theorem static_bearer:
  "bearer_dep (static_verify secret) h =
     (if \<not> startswith h ''Bearer '' then http_fail 401 ''missing bearer token''
      else if strip (removeprefix h ''Bearer '') = secret then Inr [(''sub'', JStr ''static'')]
      else http_fail 403 ''invalid token'')"
  by (simp add: bearer_dep_def static_verify_def)

end
