(* ===== verification/EkmApp.thy ===== *)
theory EkmApp
  imports Auth KeyPool Lifecycle
begin

text \<open>
  \<open>src/qkd_ekm/ekm/app.py\<close>: the EKM's HTTP routes over the store, the pool and the three flags of the
  process. A handler takes the state to the response and the new state, errors included (a failed
  request may already have taken a key out of the pool). Per request the environment gives the time
  and two fresh nonces; FastAPI's validation of a body is its parsed value or None. Log lines are
  not modelled.
\<close>

record ekm =
  e_store :: store
  e_pool :: pool
  continuity_authority :: bool
  recovery_pending :: bool
  source_seen :: bool
  seen_kms_token :: bool

record ekm_env =
  verify_kms :: verifier
  verify_vpn :: verifier
  the_aead :: aead
  bind_peer :: string

record fresh =
  nonce1 :: bytes
  nonce2 :: bytes
  now_s :: rat

type_synonym 'a handler = "'a http \<times> ekm"

definition create_app :: "store \<Rightarrow> pool \<Rightarrow> ekm" where
  "create_app st p = \<lparr> e_store = st, e_pool = p, continuity_authority = True, recovery_pending = False,
     source_seen = source_available p, seen_kms_token = False \<rparr>"

definition app_PURPOSES :: "string list" where
  "app_PURPOSES = [''vpn'', ''file'']"

text \<open>\<open>_b64d(value)\<close>: \<open>value or ""\<close> is decoded; a value that is no string raises TypeError.\<close>

definition app_b64d :: "json \<Rightarrow> bytes http" where
  "app_b64d v =
     (if \<not> truthy v then Inr []
      else case v of
          JStr s \<Rightarrow> (case b64d s of Inl e \<Rightarrow> http_fail 400 ''malformed base64'' | Inr x \<Rightarrow> Inr x)
        | _ \<Rightarrow> Inl (Unhandled TypeError))"

definition kms_claims :: "ekm_env \<Rightarrow> string \<Rightarrow> ekm \<Rightarrow> claims handler" where
  "kms_claims env authorization s =
     (case bearer_dep (verify_kms env) authorization of
        Inl e \<Rightarrow> (Inl e, s)
      | Inr c \<Rightarrow> (Inr c, s\<lparr>seen_kms_token := True\<rparr>))"

definition vpn_claims :: "ekm_env \<Rightarrow> string \<Rightarrow> ekm \<Rightarrow> claims handler" where
  "vpn_claims env authorization s = (bearer_dep (verify_vpn env) authorization, s)"

definition check_recovery :: "ekm \<Rightarrow> ekm" where
  "check_recovery s =
     (let available = source_available (e_pool s)
      in s\<lparr>recovery_pending := (recovery_pending s \<or> (available \<and> \<not> source_seen s)),
           source_seen := available\<rparr>)"

definition app_allocate :: "string \<Rightarrow> ekm \<Rightarrow> qkey handler" where
  "app_allocate peer s =
     (case allocate (e_store s) peer (e_pool s) of
        (r, p') \<Rightarrow>
          (case r of
             Inr key \<Rightarrow> Inr key
           | Inl e \<Rightarrow>
               if e = KeyError then http_fail 404 (''unknown peer '' @ peer)
               else if e = PoolEmpty then http_fail 503 ''no QKD key available''
               else Inl (Unhandled e), s\<lparr>e_pool := p'\<rparr>))"

definition app_bind :: "rat \<Rightarrow> string \<Rightarrow> string \<Rightarrow> string \<Rightarrow> string \<Rightarrow> ekm \<Rightarrow> unit handler" where
  "app_bind now qkd_key_id purpose object_id peer s =
     (case bind_row qkd_key_id purpose object_id peer now (e_store s) of
        Inr st \<Rightarrow> (Inr (), s\<lparr>e_store := st\<rparr>)
      | Inl e \<Rightarrow>
          (if e = AlreadyBound
           then Inl (HTTPException 400 (Body (error_body 400 ''key already bound'' (Some ''FAILED_PRECONDITION''))))
           else Inl (Unhandled e), s))"

text \<open>\<open>json_body\<close>: None is a body that is not JSON.\<close>

definition json_body :: "json option \<Rightarrow> (string \<times> json) list http" where
  "json_body body =
     (case body of
        None \<Rightarrow> http_fail 400 ''malformed JSON body''
      | Some (JObj kvs) \<Rightarrow> Inr kvs
      | Some j \<Rightarrow> http_fail 400 ''body must be an object'')"

section \<open>Wrap and unwrap\<close>

text \<open>The first use of an external key, up to and including \<open>put_kek\<close>, and the whole of it.\<close>

definition first_use_put :: "ekm_env \<Rightarrow> fresh \<Rightarrow> string \<Rightarrow> ekm \<Rightarrow> qkey handler" where
  "first_use_put env f key_id s =
     (case app_allocate (bind_peer env) s of
        (Inl e, s1) \<Rightarrow> (Inl e, s1)
      | (Inr key, s1) \<Rightarrow>
          (case put_kek (the_aead env) (nonce1 f) key_id (k_id key) (k_material key) (e_store s1) of
             Inl e \<Rightarrow> (Inl (Unhandled e), s1)
           | Inr st \<Rightarrow> (Inr key, s1\<lparr>e_store := st\<rparr>)))"

definition first_use :: "ekm_env \<Rightarrow> fresh \<Rightarrow> string \<Rightarrow> ekm \<Rightarrow> bytes handler" where
  "first_use env f key_id s =
     (case first_use_put env f key_id s of
        (Inl e, s1) \<Rightarrow> (Inl e, s1)
      | (Inr key, s1) \<Rightarrow>
          (case bind_row (k_id key) ''ekm'' key_id (bind_peer env) (now_s f) (e_store s1) of
             Inr st \<Rightarrow> (Inr (k_material key), s1\<lparr>e_store := st\<rparr>)
           | Inl e \<Rightarrow> if e = AlreadyBound then (Inr (k_material key), s1) else (Inl (Unhandled e), s1)))"

definition app_wrap :: "ekm_env \<Rightarrow> fresh \<Rightarrow> string \<Rightarrow> (string \<times> json) list \<Rightarrow> bytes \<Rightarrow> ekm \<Rightarrow> json handler" where
  "app_wrap env f key_id body aad s0 =
     (let s = check_recovery s0
      in case app_b64d (obj_get body ''plaintext'') of
           Inl e \<Rightarrow> (Inl e, s)
         | Inr plaintext \<Rightarrow>
             (case get_kek (the_aead env) key_id (e_store s) of
                Inl e \<Rightarrow> (Inl (Unhandled e), s)
              | Inr found \<Rightarrow>
                  (case (case found of Some kek \<Rightarrow> (Inr kek, s) | None \<Rightarrow> first_use env f key_id s) of
                     (Inl e, s1) \<Rightarrow> (Inl e, s1)
                   | (Inr kek, s1) \<Rightarrow>
                       (case aes_gcm_wrap (the_aead env) (nonce2 f) kek plaintext aad of
                          Inl e \<Rightarrow> (Inl (Unhandled e), s1)
                        | Inr blob \<Rightarrow> (Inr (JObj [(''wrappedBlob'', JStr (b64e blob))]), s1)))))"

definition app_unwrap :: "ekm_env \<Rightarrow> string \<Rightarrow> (string \<times> json) list \<Rightarrow> bytes \<Rightarrow> ekm \<Rightarrow> json handler" where
  "app_unwrap env key_id body aad s =
     (case get_kek (the_aead env) key_id (e_store s) of
        Inl e \<Rightarrow> (Inl (Unhandled e), s)
      | Inr None \<Rightarrow> (http_fail 404 (''unknown key '' @ key_id), s)
      | Inr (Some kek) \<Rightarrow>
          (case app_b64d (obj_get body ''wrappedBlob'') of
             Inl e \<Rightarrow> (Inl e, s)
           | Inr blob \<Rightarrow>
               (case aes_gcm_unwrap (the_aead env) kek blob aad of
                  Inl e \<Rightarrow> (if e = ValueError then http_fail 400 ''unwrap failed'' else Inl (Unhandled e), s)
                | Inr plaintext \<Rightarrow> (Inr (JObj [(''plaintext'', JStr (b64e plaintext))]), s))))"

definition wrap_or_unwrap :: "ekm_env \<Rightarrow> fresh \<Rightarrow> string \<Rightarrow> json option \<Rightarrow> ekm \<Rightarrow> json handler" where
  "wrap_or_unwrap env f key_id_op body s =
     (case rpartition_at CHR '':'' key_id_op of
        (key_id, sep, operation) \<Rightarrow>
          if operation \<notin> {''wrap'', ''unwrap''} \<or> key_id = []
          then (http_fail 404 (''unknown operation '' @ key_id_op), s)
          else case json_body body of
              Inl e \<Rightarrow> (Inl e, s)
            | Inr kvs \<Rightarrow>
                (case app_b64d (obj_get kvs ''additionalAuthenticatedData'') of
                   Inl e \<Rightarrow> (Inl e, s)
                 | Inr aad \<Rightarrow>
                     if operation = ''wrap'' then app_wrap env f key_id kvs aad s
                     else app_unwrap env key_id kvs aad s))"

definition describe_key :: "string \<Rightarrow> json http" where
  "describe_key key_id_op =
     (if CHR '':'' \<in> set key_id_op then http_fail 404 (''unknown operation '' @ key_id_op)
      else Inr (JObj [(''name'', JStr key_id_op), (''keyManagementMode'', JStr ''MANUAL'')]))"

section \<open>State, authority, recovery and new keys\<close>

definition pool_sizes :: "pool \<Rightarrow> (string \<times> nat) list py" where
  "pool_sizes p = map_py (\<lambda>q. bind_py (pool_size q p) (\<lambda>n. Inr (q, n))) (rev (remdups (rev (peers p))))"

definition read_state :: "ekm \<Rightarrow> json handler" where
  "read_state s0 =
     (let s = check_recovery s0
      in case pool_sizes (e_pool s) of
           Inl e \<Rightarrow> (Inl (Unhandled e), s)
         | Inr sizes \<Rightarrow>
             let bindings_count = binding_count (e_store s);
                 modes = derive (source_available (e_pool s)) True (sum_list (map snd sizes))
                   (bindings_count > 0) (continuity_authority s) (recovery_pending s) False
             in (Inr (JObj
                  [(''mode'', JStr (d_mode modes)), (''storage'', JBool (d_storage modes)),
                   (''fresh_allocation'', JBool (d_fresh_allocation modes)),
                   (''established_vpn'', JStr (d_established_vpn modes)),
                   (''pool'', JObj (map (\<lambda>(q, n). (q, JInt (int n))) sizes)),
                   (''bindings_count'', JInt (int bindings_count)),
                   (''source_available'', JBool (source_available (e_pool s))),
                   (''continuity_authority'', JBool (continuity_authority s)),
                   (''recovery_pending'', JBool (recovery_pending s))]), s))"

definition set_authority :: "bool option \<Rightarrow> ekm \<Rightarrow> json handler" where
  "set_authority body s =
     (case body of
        None \<Rightarrow> (Inl Invalid, s)
      | Some b \<Rightarrow> (Inr (JObj [(''continuity_authority'', JBool b)]), s\<lparr>continuity_authority := b\<rparr>))"

definition ack_recovery :: "ekm \<Rightarrow> json handler" where
  "ack_recovery s = (Inr (JObj [(''recovery_pending'', JBool False)]), s\<lparr>recovery_pending := False\<rparr>)"

definition new_key :: "fresh \<Rightarrow> string \<Rightarrow> string \<Rightarrow> ekm \<Rightarrow> json handler" where
  "new_key f peer purpose s =
     (if purpose \<notin> set app_PURPOSES then (http_fail 400 (''unknown purpose '' @ purpose), s)
      else case app_allocate peer s of
          (Inl e, s1) \<Rightarrow> (Inl e, s1)
        | (Inr key, s1) \<Rightarrow>
            (case app_bind (now_s f) (k_id key) purpose (peer @ CHR '':'' # k_id key) peer s1 of
               (Inl e, s2) \<Rightarrow> (Inl e, s2)
             | (Inr _, s2) \<Rightarrow>
                 (Inr (JObj [(''key_id'', JStr (k_id key)), (''key'', JStr (b64e (k_material key))),
                             (''qkd_name'', JStr peer)]), s2)))"

section \<open>The routes\<close>

text \<open>A request is a route once its body decodes. The body of \<open>POST /api/authority\<close> is decoded by the framework
  before the handler's dependencies run: one that is not JSON is answered 400 there, with or without a valid
  bearer and without a change of state, and is no \<open>route\<close>. JSON of another shape is \<open>PostAuthority None\<close>,
  which the handler's dependency sees first. The bodies of wrap and unwrap are decoded in the handler.\<close>

datatype route =
    KmsPost string "json option"
  | KmsGet string
  | GetState
  | PostAuthority "bool option"
  | PostAck
  | GetNew string string
  | Healthz

definition guarded :: "claims handler \<Rightarrow> (ekm \<Rightarrow> 'a handler) \<Rightarrow> 'a handler" where
  "guarded auth h = (case auth of (Inl e, s) \<Rightarrow> (Inl e, s) | (Inr c, s) \<Rightarrow> h s)"

definition serve :: "ekm_env \<Rightarrow> fresh \<Rightarrow> string \<Rightarrow> route \<Rightarrow> ekm \<Rightarrow> json handler" where
  "serve env f authorization r s =
     (case r of
        KmsPost op body \<Rightarrow> guarded (kms_claims env authorization s) (wrap_or_unwrap env f op body)
      | KmsGet op \<Rightarrow> guarded (kms_claims env authorization s) (\<lambda>s. (describe_key op, s))
      | GetState \<Rightarrow> guarded (vpn_claims env authorization s) read_state
      | PostAuthority body \<Rightarrow> guarded (vpn_claims env authorization s) (set_authority body)
      | PostAck \<Rightarrow> guarded (vpn_claims env authorization s) ack_recovery
      | GetNew peer purpose \<Rightarrow> guarded (vpn_claims env authorization s) (new_key f peer purpose)
      | Healthz \<Rightarrow> (Inr (JObj [(''status'', JStr ''ok'')]), s))"

end
