(* ===== verification/EkmService.thy ===== *)
theory EkmService
  imports EkmApp
begin

text \<open>
  The EKM as a running service: requests interleaved with the pool's background passes, restarts of
  the process and a crash in the middle of the first use of an external key. The store survives a
  restart, the pool and the flags do not. Theorems about whole runs.
\<close>

datatype ekm_event =
    Request string route fresh
  | Fill string "qkey list py" rat
  | Evict string rat
  | Restart
  | CrashAfterPut string fresh

definition restart :: "ekm \<Rightarrow> ekm" where
  "restart s = create_app (e_store s) (new_pool (peers (e_pool s)) (target (e_pool s)) (ttl (e_pool s)))"

text \<open>The crash happens in a wrap of \<open>key_id\<close> that found no key, after \<open>put_kek\<close> committed.\<close>

definition ekm_next :: "ekm_env \<Rightarrow> ekm_event \<Rightarrow> ekm \<Rightarrow> json http option \<times> ekm" where
  "ekm_next env ev s =
     (case ev of
        Request h r f \<Rightarrow> (case serve env f h r s of (resp, s') \<Rightarrow> (Some resp, s'))
      | Fill peer result now \<Rightarrow> (None, s\<lparr>e_pool := snd (receive_pull peer result now (e_pool s))\<rparr>)
      | Evict peer now \<Rightarrow> (None, s\<lparr>e_pool := snd (expire_peer peer now (e_pool s))\<rparr>)
      | Restart \<Rightarrow> (None, restart s)
      | CrashAfterPut key_id f \<Rightarrow>
          (None, restart (if get_kek (the_aead env) key_id (e_store s) = Inr None
                          then snd (first_use_put env f key_id s) else s)))"

text \<open>The identifiers \<open>/new\<close> delivered, read off the responses.\<close>

definition delivered :: "ekm_event \<Rightarrow> json http option \<Rightarrow> string list" where
  "delivered ev resp =
     (case (ev, resp) of
        (Request h (GetNew peer purpose) f, Some (Inr (JObj ((k, JStr key_id) # rest)))) \<Rightarrow> [key_id]
      | _ \<Rightarrow> [])"

fun exec :: "ekm_env \<Rightarrow> ekm_event list \<Rightarrow> ekm \<Rightarrow> string list \<times> ekm" where
  "exec env [] s = ([], s)"
| "exec env (ev # evs) s =
     (case ekm_next env ev s of (resp, s1) \<Rightarrow>
      (case exec env evs s1 of (ids, s2) \<Rightarrow> (delivered ev resp @ ids, s2)))"

section \<open>What a step does to the store\<close>

lemma check_recovery_simps [simp]:
  "e_store (check_recovery s) = e_store s" "e_pool (check_recovery s) = e_pool s"
  "continuity_authority (check_recovery s) = continuity_authority s"
  by (simp_all add: check_recovery_def Let_def)

lemma app_allocate_store [simp]: "e_store (snd (app_allocate peer s)) = e_store s"
  by (auto simp: app_allocate_def split: prod.splits)

lemma app_allocate_storeD: "app_allocate peer s = (r, s') \<Longrightarrow> e_store s' = e_store s"
  using app_allocate_store [of peer s] by simp

lemma app_allocate_fresh: "app_allocate peer s = (Inr key, s') \<Longrightarrow> \<not> is_consumed (k_id key) (e_store s)"
  by (auto simp: app_allocate_def allocate_def http_fail_def
      split: prod.splits option.splits list.splits if_splits sum.splits)

text \<open>The rows of keys delivered by \<open>/new\<close>, those of external keys, and the keys stored.\<close>

definition new_rows :: "ekm \<Rightarrow> binding_row list" where
  "new_rows s = filter (\<lambda>b. b_purpose b \<in> set app_PURPOSES) (rows (e_store s))"

lemma first_use_put_rows: "first_use_put env f key_id s = (r, s') \<Longrightarrow> rows (e_store s') = rows (e_store s)"
  by (auto simp: first_use_put_def dest!: app_allocate_storeD put_kek_frame split: prod.splits sum.splits)

lemma first_use_put_kek:
  "first_use_put env f key_id s = (r, s') \<Longrightarrow> ob \<noteq> key_id \<Longrightarrow>
   get_kek A ob (e_store s') = get_kek A ob (e_store s)"
  by (auto simp: first_use_put_def put_kek_other dest!: app_allocate_storeD split: prod.splits sum.splits)

lemma bind_row_kek: "bind_row k p ob peer now st = Inr st' \<Longrightarrow> get_kek A x st' = get_kek A x st"
  by (rule get_kek_frame) (auto simp: bind_row_Inr)

lemma first_use_rows:
  assumes "first_use env f key_id s = (r, s')"
  shows "rows (e_store s') = rows (e_store s) \<or>
    (\<exists>b. rows (e_store s') = rows (e_store s) @ [b] \<and> b_purpose b = ''ekm'' \<and> b_object b = key_id)"
proof -
  obtain r1 s1 where 1: "first_use_put env f key_id s = (r1, s1)" by fastforce
  show ?thesis using assms first_use_put_rows [OF 1]
    by (auto simp: first_use_def 1 bind_row_Inr split: sum.splits if_splits)
qed

lemma first_use_kek:
  assumes "first_use env f key_id s = (r, s')" "ob \<noteq> key_id"
  shows "get_kek A ob (e_store s') = get_kek A ob (e_store s)"
proof -
  obtain r1 s1 where 1: "first_use_put env f key_id s = (r1, s1)" by fastforce
  show ?thesis using assms(1) first_use_put_kek [OF 1 assms(2)]
    by (auto simp: first_use_def 1 bind_row_kek split: sum.splits if_splits)
qed

text \<open>A wrap either leaves the store alone, or it runs the first use of its own external key.\<close>

lemma app_wrap_store:
  assumes "app_wrap env f key_id body aad s = (r, s')"
  shows "e_store s' = e_store s \<or>
    (get_kek (the_aead env) key_id (e_store s) = Inr None \<and>
     (\<exists>r1. first_use env f key_id (check_recovery s) = (r1, s')))"
  using assms
  by (auto simp: app_wrap_def Let_def split: sum.splits option.splits prod.splits if_splits)

lemma app_unwrap_state: "snd (app_unwrap env key_id body aad s) = s"
  by (auto simp: app_unwrap_def split: sum.splits option.splits)

lemma wrap_or_unwrap_store:
  assumes "wrap_or_unwrap env f op body s = (r, s')"
  shows "e_store s' = e_store s \<or>
    (\<exists>key_id. get_kek (the_aead env) key_id (e_store s) = Inr None \<and>
       (\<exists>r1. first_use env f key_id (check_recovery s) = (r1, s')))"
proof -
  obtain key_id sep operation where op: "rpartition_at CHR '':'' op = (key_id, sep, operation)"
    by (cases "rpartition_at CHR '':'' op")
  from assms consider "s' = s" | kvs aad where "app_wrap env f key_id kvs aad s = (r, s')"
    | kvs aad where "app_unwrap env key_id kvs aad s = (r, s')"
    by (auto simp: wrap_or_unwrap_def op split: sum.splits if_splits)
  then show ?thesis
  proof cases
    case 2
    from app_wrap_store [OF this] show ?thesis by blast
  next
    case 3
    then have "s' = s" using app_unwrap_state [of env key_id kvs aad s] by simp
    then show ?thesis by simp
  qed simp
qed

lemma store_rows_ok:
  assumes "first_use env f key_id s = (r, s')" "store_ok (e_store s)"
  shows "store_ok (e_store s')"
proof -
  obtain r1 s1 where 1: "first_use_put env f key_id s = (r1, s1)" by fastforce
  have "store_ok (e_store s1)" using assms(2) first_use_put_rows [OF 1] by (simp add: store_ok_def)
  then show ?thesis using assms(1)
    by (auto simp: first_use_def 1 split: sum.splits if_splits intro: bind_row_ok)
qed

lemma new_key_result:
  assumes "new_key f peer purpose s = (r, s')"
  shows "(\<exists>e. r = Inl e) \<and> e_store s' = e_store s \<or>
    (\<exists>(key :: qkey) kvs. r = Inr (JObj ((''key_id'', JStr (k_id key)) # kvs)) \<and> purpose \<in> set app_PURPOSES \<and>
       bind_row (k_id key) purpose (peer @ CHR '':'' # k_id key) peer (now_s f) (e_store s) = Inr (e_store s'))"
proof (cases "purpose \<in> set app_PURPOSES")
  case True
  obtain ra s1 where a: "app_allocate peer s = (ra, s1)" by fastforce
  note st = app_allocate_storeD [OF a]
  show ?thesis
  proof (cases ra)
    case (Inl e)
    then show ?thesis using assms True a st by (auto simp: new_key_def)
  next
    case (Inr key)
    show ?thesis
    proof (cases "bind_row (k_id key) purpose (peer @ CHR '':'' # k_id key) peer (now_s f) (e_store s)")
      case (Inl e)
      then show ?thesis using assms True a st Inr by (auto simp: new_key_def app_bind_def split: if_splits)
    next
      case (Inr st1)
      then have e: "e_store s' = st1" "r = Inr (JObj [(''key_id'', JStr (k_id key)),
          (''key'', JStr (b64e (k_material key))), (''qkd_name'', JStr peer)])"
        using assms True a st \<open>ra = Inr key\<close> by (auto simp: new_key_def app_bind_def)
      show ?thesis
        by (rule disjI2, rule exI [of _ key]) (use e Inr True in auto)
    qed
  qed
qed (use assms in \<open>auto simp: new_key_def http_fail_def\<close>)

lemma kms_claims_store: "kms_claims env h s = (r, s') \<Longrightarrow> e_store s' = e_store s \<and> e_pool s' = e_pool s \<and>
    recovery_pending s' = recovery_pending s \<and> source_seen s' = source_seen s \<and>
    continuity_authority s' = continuity_authority s"
  by (auto simp: kms_claims_def split: sum.splits)

lemma vpn_claims_state: "vpn_claims env h s = (r, s') \<Longrightarrow> s' = s"
  by (simp add: vpn_claims_def)

lemma read_state_store: "read_state s = (r, s') \<Longrightarrow> s' = check_recovery s"
  by (auto simp: read_state_def Let_def split: sum.splits)

text \<open>A request leaves the store, runs one first use, or delivers one key.\<close>

lemma serve_store:
  assumes "serve env f h r s = (resp, s')"
  shows "e_store s' = e_store s \<and> delivered (Request h r f) (Some resp) = [] \<or>
    (\<exists>key_id s1 r1. e_store s1 = e_store s \<and> get_kek (the_aead env) key_id (e_store s) = Inr None \<and>
       first_use env f key_id s1 = (r1, s') \<and> delivered (Request h r f) (Some resp) = []) \<or>
    (\<exists>k p ob q. p \<in> set app_PURPOSES \<and> bind_row k p ob q (now_s f) (e_store s) = Inr (e_store s') \<and>
       delivered (Request h r f) (Some resp) = [k])"
proof (cases r)
  case (KmsPost op body)
  obtain rc sc where c: "kms_claims env h s = (rc, sc)" by fastforce
  show ?thesis
  proof (cases rc)
    case (Inl e)
    then show ?thesis using assms KmsPost kms_claims_store [OF c]
      by (auto simp: serve_def guarded_def c delivered_def)
  next
    case (Inr cl)
    then have "wrap_or_unwrap env f op body sc = (resp, s')"
      using assms KmsPost by (simp add: serve_def guarded_def c)
    from wrap_or_unwrap_store [OF this] kms_claims_store [OF c] KmsPost show ?thesis
      by (auto simp: delivered_def)
  qed
next
  case (GetNew peer purpose)
  obtain rc sc where c: "vpn_claims env h s = (rc, sc)" by fastforce
  show ?thesis
  proof (cases rc)
    case (Inl e)
    then show ?thesis using assms GetNew vpn_claims_state [OF c]
      by (auto simp: serve_def guarded_def c delivered_def)
  next
    case (Inr cl)
    then have "new_key f peer purpose s = (resp, s')"
      using assms GetNew vpn_claims_state [OF c] by (simp add: serve_def guarded_def c)
    from new_key_result [OF this] show ?thesis
    proof (elim disjE exE conjE)
      fix key kvs
      assume k: "resp = Inr (JObj ((''key_id'', JStr (k_id key)) # kvs))" "purpose \<in> set app_PURPOSES"
        "bind_row (k_id key) purpose (peer @ CHR '':'' # k_id key) peer (now_s f) (e_store s) = Inr (e_store s')"
      have "delivered (Request h r f) (Some resp) = [k_id key]" by (simp add: GetNew k(1) delivered_def)
      then show ?thesis using k(2,3) by blast
    qed (simp add: delivered_def GetNew)
  qed
qed (use assms in \<open>auto simp: serve_def guarded_def delivered_def set_authority_def ack_recovery_def
    dest!: kms_claims_store vpn_claims_state read_state_store split: prod.splits sum.splits option.splits\<close>)

section \<open>What a run does\<close>

text \<open>The rows of delivered keys grow by exactly the identifiers a step delivers; stored keys stay.\<close>

lemma bind_new_rows:
  "bind_row k p ob q now (e_store s) = Inr (e_store s') \<Longrightarrow>
   map b_key (new_rows s') = map b_key (new_rows s) @ (if p \<in> set app_PURPOSES then [k] else [])"
  by (auto simp: bind_row_Inr new_rows_def)

lemma first_use_new_rows: "first_use env f key_id s = (r, s') \<Longrightarrow> new_rows s' = new_rows s"
  using first_use_rows [of env f key_id s r s'] by (auto simp: new_rows_def app_PURPOSES_def)

lemma restart_simps [simp]: "e_store (restart s) = e_store s"
  by (simp add: restart_def create_app_def)

lemma new_rows_store: "e_store s' = e_store s \<Longrightarrow> new_rows s' = new_rows s"
  by (simp add: new_rows_def)

lemma next_accounts:
  assumes "ekm_next env ev s = (resp, s')"
  shows "map b_key (new_rows s') = map b_key (new_rows s) @ delivered ev resp"
proof (cases ev)
  case (Request h r f)
  obtain rs s1 where sv: "serve env f h r s = (rs, s1)" by fastforce
  then have e: "resp = Some rs" "s' = s1" using assms Request by (simp_all add: ekm_next_def)
  from serve_store [OF sv] show ?thesis unfolding e Request
  proof (elim disjE exE conjE)
    fix key_id s2 r1
    assume f: "e_store s2 = e_store s" "first_use env f key_id s2 = (r1, s1)"
      "delivered (Request h r f) (Some rs) = []"
    then show "map b_key (new_rows s1) = map b_key (new_rows s) @ delivered (Request h r f) (Some rs)"
      using first_use_new_rows [OF f(2)] new_rows_store [OF f(1)] by simp
  next
    assume f: "e_store s1 = e_store s" "delivered (Request h r f) (Some rs) = []"
    show "map b_key (new_rows s1) = map b_key (new_rows s) @ delivered (Request h r f) (Some rs)"
      using new_rows_store [OF f(1)] f(2) by simp
  next
    fix k p ob q
    assume f: "p \<in> set app_PURPOSES" "bind_row k p ob q (now_s f) (e_store s) = Inr (e_store s1)"
      "delivered (Request h r f) (Some rs) = [k]"
    show "map b_key (new_rows s1) = map b_key (new_rows s) @ delivered (Request h r f) (Some rs)"
      using bind_new_rows [OF f(2)] f(1,3) by simp
  qed
next
  case (CrashAfterPut key_id f)
  obtain r1 s1 where 1: "first_use_put env f key_id s = (r1, s1)" by fastforce
  have "new_rows s1 = new_rows s" using first_use_put_rows [OF 1] by (simp add: new_rows_def)
  then show ?thesis using assms CrashAfterPut 1
    by (auto simp: ekm_next_def delivered_def new_rows_def split: if_splits)
qed (use assms in \<open>auto simp: ekm_next_def delivered_def new_rows_def\<close>)

lemma next_store_ok:
  assumes "ekm_next env ev s = (resp, s')" "store_ok (e_store s)"
  shows "store_ok (e_store s')"
proof (cases ev)
  case (Request h r f)
  obtain rs s1 where sv: "serve env f h r s = (rs, s1)" by fastforce
  then have "s' = s1" using assms Request by (simp add: ekm_next_def)
  with serve_store [OF sv] assms(2) show ?thesis
    by (elim disjE exE conjE) (simp_all add: store_rows_ok bind_row_ok)
next
  case (CrashAfterPut key_id f)
  obtain r1 s1 where 1: "first_use_put env f key_id s = (r1, s1)" by fastforce
  have "store_ok (e_store s1)" using first_use_put_rows [OF 1] assms(2) by (simp add: store_ok_def)
  then show ?thesis using assms CrashAfterPut 1 by (auto simp: ekm_next_def split: if_splits)
qed (use assms in \<open>auto simp: ekm_next_def\<close>)

lemma next_kek:
  assumes "ekm_next env ev s = (resp, s')" "get_kek (the_aead env) ob (e_store s) = Inr (Some m)"
  shows "get_kek (the_aead env) ob (e_store s') = Inr (Some m)"
proof (cases ev)
  case (Request h r f)
  obtain rs s1 where sv: "serve env f h r s = (rs, s1)" by fastforce
  then have "s' = s1" using assms Request by (simp add: ekm_next_def)
  from serve_store [OF sv] show ?thesis unfolding \<open>s' = s1\<close>
  proof (elim disjE exE conjE)
    fix key_id s2 r1
    assume f: "e_store s2 = e_store s" "get_kek (the_aead env) key_id (e_store s) = Inr None"
      "first_use env f key_id s2 = (r1, s1)"
    then have "ob \<noteq> key_id" using assms(2) by auto
    from first_use_kek [OF f(3) this] show "get_kek (the_aead env) ob (e_store s1) = Inr (Some m)"
      using f(1) assms(2) by simp
  qed (use assms(2) in \<open>simp_all add: bind_row_kek\<close>)
next
  case (CrashAfterPut key_id f)
  obtain r1 s1 where 1: "first_use_put env f key_id s = (r1, s1)" by fastforce
  show ?thesis using assms CrashAfterPut first_use_put_kek [OF 1, of ob]
    by (cases "ob = key_id") (auto simp: ekm_next_def 1 split: if_splits)
qed (use assms in \<open>auto simp: ekm_next_def\<close>)

lemma exec_accounts:
  "exec env evs s = (ids, s') \<Longrightarrow> map b_key (new_rows s') = map b_key (new_rows s) @ ids \<and>
   (store_ok (e_store s) \<longrightarrow> store_ok (e_store s'))"
proof (induction evs arbitrary: s ids s')
  case (Cons ev evs)
  obtain resp s1 where 1: "ekm_next env ev s = (resp, s1)" by fastforce
  obtain ids1 s2 where 2: "exec env evs s1 = (ids1, s2)" by fastforce
  from Cons.IH [OF 2] next_accounts [OF 1] next_store_ok [OF 1] Cons.prems show ?case
    by (simp add: 1 2)
qed simp

lemma exec_kek:
  "exec env evs s = (ids, s') \<Longrightarrow> get_kek (the_aead env) ob (e_store s) = Inr (Some m) \<Longrightarrow>
   get_kek (the_aead env) ob (e_store s') = Inr (Some m)"
proof (induction evs arbitrary: s ids s')
  case (Cons ev evs)
  obtain resp s1 where 1: "ekm_next env ev s = (resp, s1)" by fastforce
  obtain ids1 s2 where 2: "exec env evs s1 = (ids1, s2)" by fastforce
  from Cons.IH [OF 2 next_kek [OF 1 Cons.prems(2)]] Cons.prems(1) show ?case by (simp add: 1 2)
qed simp

section \<open>Wrapping and unwrapping across a run\<close>

text \<open>Reading a stored key only gives what \<open>put_kek\<close> stored there.\<close>

definition env_ok :: "ekm_env \<Rightarrow> fresh \<Rightarrow> ekm \<Rightarrow> bool" where
  "env_ok env f s \<longleftrightarrow> aead_ok (the_aead env) \<and> key_ok (local_key (e_store s)) \<and>
     length (nonce1 f) = NONCE_LEN \<and> length (nonce2 f) = NONCE_LEN"

lemma first_use_stores:
  assumes "env_ok env f s" "first_use env f key_id s = (Inr kek, s')"
  shows "get_kek (the_aead env) key_id (e_store s') = Inr (Some kek)"
proof -
  obtain r1 s1 where 1: "first_use_put env f key_id s = (r1, s1)" by fastforce
  with assms(2) obtain key where r1: "r1 = Inr key" by (cases r1) (auto simp: first_use_def)
  obtain ra sa where a: "app_allocate (bind_peer env) s = (ra, sa)" by fastforce
  have ra: "ra = Inr key" using 1 a r1 by (auto simp: first_use_put_def split: sum.splits)
  have st: "e_store sa = e_store s" by (rule app_allocate_storeD [OF a])
  have "aead_ok (the_aead env)" "key_ok (local_key (e_store sa))" "length (nonce1 f) = NONCE_LEN"
    using assms(1) st by (simp_all add: env_ok_def)
  from put_get_kek [OF this, of key_id "k_id key" "k_material key"] obtain st1 where
    p: "put_kek (the_aead env) (nonce1 f) key_id (k_id key) (k_material key) (e_store sa) = Inr st1"
      "get_kek (the_aead env) key_id st1 = Inr (Some (k_material key))" by metis
  have s1: "s1 = sa\<lparr>e_store := st1\<rparr>" using 1 a ra p(1) by (simp add: first_use_put_def)
  have "kek = k_material key" "get_kek (the_aead env) key_id (e_store s') = get_kek (the_aead env) key_id st1"
    using assms(2) by (auto simp: first_use_def 1 r1 s1 bind_row_kek split: sum.splits if_splits)
  then show ?thesis using p(2) by simp
qed

lemma app_wrap_Inr:
  assumes "env_ok env f s" "app_wrap env f key_id body aad s = (Inr j, s')"
  obtains p kek blob where "app_b64d (obj_get body ''plaintext'') = Inr p"
    "get_kek (the_aead env) key_id (e_store s') = Inr (Some kek)"
    "aes_gcm_wrap (the_aead env) (nonce2 f) kek p aad = Inr blob"
    "j = JObj [(''wrappedBlob'', JStr (b64e blob))]"
proof -
  let ?s = "check_recovery s"
  from assms(2) obtain p found where p: "app_b64d (obj_get body ''plaintext'') = Inr p"
    "get_kek (the_aead env) key_id (e_store s) = Inr found"
    by (auto simp: app_wrap_def Let_def split: sum.splits)
  obtain rk s1 where k: "(case found of Some kek \<Rightarrow> (Inr kek, ?s) | None \<Rightarrow> first_use env f key_id ?s) = (rk, s1)"
    by fastforce
  with assms(2) p obtain kek where kek: "rk = Inr kek"
    by (cases rk) (auto simp: app_wrap_def Let_def)
  from assms(2) p k kek obtain blob where b: "aes_gcm_wrap (the_aead env) (nonce2 f) kek p aad = Inr blob"
    "j = JObj [(''wrappedBlob'', JStr (b64e blob))]" "s' = s1"
    by (auto simp: app_wrap_def Let_def split: sum.splits)
  have "env_ok env f ?s" using assms(1) by (simp add: env_ok_def)
  then have "get_kek (the_aead env) key_id (e_store s1) = Inr (Some kek)"
    using k kek p(2) first_use_stores by (auto split: option.splits)
  then show thesis using that p(1) b by simp
qed

lemma app_b64d_string: "app_b64d (JStr (b64e x)) = Inr x"
  by (simp add: app_b64d_def)

lemma wrap_then_unwrap:
  assumes "env_ok env f s" "app_wrap env f key_id body aad s = (Inr j, s1)"
    and "exec env evs s1 = (ids, s2)"
  shows "\<exists>p blob. j = JObj [(''wrappedBlob'', JStr (b64e blob))] \<and>
    app_b64d (obj_get body ''plaintext'') = Inr p \<and>
    fst (app_unwrap env key_id [(''wrappedBlob'', JStr (b64e blob))] aad s2) = Inr (JObj [(''plaintext'', JStr (b64e p))]) \<and>
    (aad' \<noteq> aad \<longrightarrow> fst (app_unwrap env key_id [(''wrappedBlob'', JStr (b64e blob))] aad' s2) = http_fail 400 ''unwrap failed'')"
proof -
  from app_wrap_Inr [OF assms(1,2)] obtain p kek blob where w:
    "app_b64d (obj_get body ''plaintext'') = Inr p"
    "get_kek (the_aead env) key_id (e_store s1) = Inr (Some kek)"
    "aes_gcm_wrap (the_aead env) (nonce2 f) kek p aad = Inr blob"
    "j = JObj [(''wrappedBlob'', JStr (b64e blob))]" by metis
  have A: "aead_ok (the_aead env)" "length (nonce2 f) = NONCE_LEN" using assms(1) by (simp_all add: env_ok_def)
  have "key_ok kek" by (rule wrap_key_ok [OF A(1) w(3)])
  from wrap_unwrap [OF A(1) this A(2), of p aad] w(3) have u:
    "aes_gcm_unwrap (the_aead env) kek blob aad = Inr p"
    "\<And>a'. a' \<noteq> aad \<Longrightarrow> aes_gcm_unwrap (the_aead env) kek blob a' = Inl ValueError" by auto
  have g: "get_kek (the_aead env) key_id (e_store s2) = Inr (Some kek)" by (rule exec_kek [OF assms(3) w(2)])
  show ?thesis using w(1,4) u g
    by (intro exI [of _ p] exI [of _ blob]) (simp add: app_unwrap_def obj_get_def app_b64d_string)
qed

section \<open>Crash between the two writes\<close>

text \<open>Once a key can be read for \<open>key_id\<close> no step ever writes its binding row.\<close>

definition ekm_bound :: "string \<Rightarrow> ekm \<Rightarrow> bool" where
  "ekm_bound key_id s \<longleftrightarrow> (\<exists>b \<in> set (rows (e_store s)). b_purpose b = ''ekm'' \<and> b_object b = key_id)"

lemma next_never_binds:
  assumes "ekm_next env ev s = (resp, s')" "get_kek (the_aead env) key_id (e_store s) = Inr (Some m)"
    and "\<not> ekm_bound key_id s"
  shows "\<not> ekm_bound key_id s'"
proof (cases ev)
  case (Request h r f)
  obtain rs s1 where sv: "serve env f h r s = (rs, s1)" by fastforce
  then have "s' = s1" using assms Request by (simp add: ekm_next_def)
  from serve_store [OF sv] show ?thesis unfolding \<open>s' = s1\<close>
  proof (elim disjE exE conjE)
    fix other s2 r1
    assume f: "e_store s2 = e_store s" "get_kek (the_aead env) other (e_store s) = Inr None"
      "first_use env f other s2 = (r1, s1)"
    then have "other \<noteq> key_id" using assms(2) by auto
    with first_use_rows [OF f(3)] f(1) assms(3) show "\<not> ekm_bound key_id s1" by (auto simp: ekm_bound_def)
  next
    fix k p ob q
    assume "p \<in> set app_PURPOSES" "bind_row k p ob q (now_s f) (e_store s) = Inr (e_store s1)"
    then show "\<not> ekm_bound key_id s1"
      using assms(3) by (auto simp: ekm_bound_def bind_row_Inr app_PURPOSES_def)
  qed (use assms(3) in \<open>simp add: ekm_bound_def\<close>)
next
  case (CrashAfterPut other f)
  obtain r1 s1 where 1: "first_use_put env f other s = (r1, s1)" by fastforce
  show ?thesis using assms CrashAfterPut first_use_put_rows [OF 1]
    by (auto simp: ekm_next_def 1 ekm_bound_def split: if_splits)
qed (use assms in \<open>auto simp: ekm_next_def ekm_bound_def\<close>)

lemma exec_never_binds:
  "exec env evs s = (ids, s') \<Longrightarrow> get_kek (the_aead env) key_id (e_store s) = Inr (Some m) \<Longrightarrow>
   \<not> ekm_bound key_id s \<Longrightarrow> \<not> ekm_bound key_id s'"
proof (induction evs arbitrary: s ids s')
  case (Cons ev evs)
  obtain resp s1 where 1: "ekm_next env ev s = (resp, s1)" by fastforce
  obtain ids1 s2 where 2: "exec env evs s1 = (ids1, s2)" by fastforce
  from Cons.IH [OF 2 next_kek [OF 1 Cons.prems(2)] next_never_binds [OF 1 Cons.prems(2,3)]] Cons.prems(1)
  show ?case by (simp add: 1 2)
qed simp

section \<open>Properties\<close>

text \<open>Property C6. A QKD key is delivered at most once, ever: over any run of the service (requests good or
  bad, pool passes, restarts, crashes) the identifiers \<open>/new\<close> answered with are pairwise distinct,
  and each has its own row in the store, in the order of delivery.\<close>

theorem keys_delivered_once:
  assumes "exec env evs (create_app (open_store key) p) = (ids, s')"
  shows "distinct ids \<and> ids = map b_key (new_rows s') \<and> store_ok (e_store s')"
proof -
  have "new_rows (create_app (open_store key) p) = []" "store_ok (e_store (create_app (open_store key) p))"
    by (simp_all add: new_rows_def create_app_def open_store_def store_ok_def)
  with exec_accounts [OF assms] have "map b_key (new_rows s') = ids" "store_ok (e_store s')" by auto
  moreover from this(2) have "distinct (map b_key (new_rows s'))"
    by (simp add: store_ok_def new_rows_def distinct_map_filter)
  ultimately show ?thesis by simp
qed

text \<open>Property C8. An external key keeps its key material: once a KEK can be read for an external key, no
  request, pool pass, restart or crash ever changes what is read for it.\<close>

theorem kek_never_changes:
  assumes "get_kek (the_aead env) key_id (e_store s) = Inr (Some kek)"
  shows "get_kek (the_aead env) key_id (e_store (snd (exec env evs s))) = Inr (Some kek)"
  using exec_kek [of env evs s "fst (exec env evs s)" "snd (exec env evs s)"] assms by simp

text \<open>Property C9. Without the bearer token its route asks for, a request fails and changes nothing.\<close>

theorem unauthorized_changes_nothing:
  assumes "bearer_dep (case r of KmsPost op b \<Rightarrow> verify_kms env | KmsGet op \<Rightarrow> verify_kms env | _ \<Rightarrow> verify_vpn env) h = Inl err"
    and "r \<noteq> Healthz"
  shows "serve env f h r s = (Inl err, s)"
  using assms by (cases r) (simp_all add: serve_def guarded_def kms_claims_def vpn_claims_def)

text \<open>Property C7. Cloud KMS always gets its plaintext back: what a wrap answered for an external key
  unwraps, under the same associated data and after any run of other requests, pool passes, restarts
  and crashes, to the plaintext that was sent, and under other associated data to the error 400.\<close>

theorem unwrap_after_any_run:
  assumes "env_ok env f s" "app_wrap env f key_id body aad s = (Inr j, s1)"
    and "exec env evs s1 = (ids, s2)" "aad' \<noteq> aad"
  shows "\<exists>p blob. j = JObj [(''wrappedBlob'', JStr (b64e blob))] \<and>
    app_b64d (obj_get body ''plaintext'') = Inr p \<and>
    fst (app_unwrap env key_id [(''wrappedBlob'', JStr (b64e blob))] aad s2) = Inr (JObj [(''plaintext'', JStr (b64e p))]) \<and>
    fst (app_unwrap env key_id [(''wrappedBlob'', JStr (b64e blob))] aad' s2) = http_fail 400 ''unwrap failed''"
  using wrap_then_unwrap [OF assms(1-3), of aad'] assms(4) by blast

text \<open>Unwrap fails closed: an external key the store has no material for is answered 404,
  and unwrap never changes the state, in particular it never allocates a key.\<close>

theorem unwrap_never_allocates:
  "snd (app_unwrap env key_id body aad s) = s \<and>
   (map_of (keks (e_store s)) key_id = None \<longleftrightarrow>
      fst (app_unwrap env key_id body aad s) = http_fail 404 (''unknown key '' @ key_id))"
proof -
  have "fst (app_unwrap env key_id body aad s) \<noteq> http_fail 404 m" if some: "map_of (keks (e_store s)) key_id \<noteq> None" for m
  proof (cases "get_kek (the_aead env) key_id (e_store s)")
    case (Inl e)
    then show ?thesis by (simp add: app_unwrap_def http_fail_def)
  next
    case (Inr found)
    then obtain kek where kek: "found = Some kek" using some get_kek_None by (cases found) auto
    have "x \<noteq> HTTPException 404 d" if "app_b64d v = Inl x" for v x d
      using that by (auto simp: app_b64d_def http_fail_def split: json.splits sum.splits if_splits)
    then show ?thesis using Inr kek
      by (auto simp: app_unwrap_def http_fail_def split: sum.splits)
  qed
  moreover have "fst (app_unwrap env key_id body aad s) = http_fail 404 (''unknown key '' @ key_id)"
    if "map_of (keks (e_store s)) key_id = None"
    using that get_kek_None [of "the_aead env" key_id "e_store s"] by (simp add: app_unwrap_def)
  ultimately show ?thesis using app_unwrap_state by blast
qed

text \<open>A crash between the two writes of a first use leaves a key in service without its
  binding: when the material was committed and the row was not, the external key keeps wrapping with
  that material in every later run, and no run ever writes the row that would mark the QKD unit as
  spent on it.\<close>

theorem crash_leaves_key_unbound:
  assumes "env_ok env f s" "first_use_put env f key_id s = (Inr key, s1)" "\<not> ekm_bound key_id s"
    and "exec env evs (restart s1) = (ids, s2)"
  shows "get_kek (the_aead env) key_id (e_store s2) = Inr (Some (k_material key)) \<and> \<not> ekm_bound key_id s2"
proof -
  obtain ra sa where a: "app_allocate (bind_peer env) s = (ra, sa)" by fastforce
  have ra: "ra = Inr key" using assms(2) a by (auto simp: first_use_put_def split: sum.splits)
  have st: "e_store sa = e_store s" by (rule app_allocate_storeD [OF a])
  have "aead_ok (the_aead env)" "key_ok (local_key (e_store sa))" "length (nonce1 f) = NONCE_LEN"
    using assms(1) st by (simp_all add: env_ok_def)
  from put_get_kek [OF this, of key_id "k_id key" "k_material key"] obtain st1 where
    p: "put_kek (the_aead env) (nonce1 f) key_id (k_id key) (k_material key) (e_store sa) = Inr st1"
      "get_kek (the_aead env) key_id st1 = Inr (Some (k_material key))" by metis
  have s1: "e_store s1 = st1" using assms(2) a ra p(1) by (auto simp: first_use_put_def)
  have "\<not> ekm_bound key_id (restart s1)"
    using assms(3) first_use_put_rows [OF assms(2)] by (simp add: ekm_bound_def)
  moreover have g: "get_kek (the_aead env) key_id (e_store (restart s1)) = Inr (Some (k_material key))"
    using p(2) s1 by simp
  ultimately show ?thesis using exec_never_binds [OF assms(4) g] exec_kek [OF assms(4) g] by blast
qed

text \<open>The reported mode follows the lifecycle table: \<open>/api/state\<close> reports RECOVERY while a
  recovery is pending, else READY while the source answers, else BUFFERED while keys are buffered,
  else SUSPENDED without continuity authority, else BINDING_HOLDOVER or EXHAUSTED by whether a binding
  exists.\<close>

theorem state_reports_mode:
  assumes "read_state s = (Inr (JObj kvs), s')" "pool_sizes (e_pool s) = Inr sizes"
  shows "s' = check_recovery s \<and> map_of kvs ''mode'' = Some (JStr
    (if recovery_pending s' then ''RECOVERY''
     else if source_available (e_pool s) then ''READY''
     else if sum_list (map snd sizes) > 0 then ''BUFFERED''
     else if \<not> continuity_authority s then ''SUSPENDED''
     else if rows (e_store s) \<noteq> [] then ''BINDING_HOLDOVER'' else ''EXHAUSTED''))"
  using assms by (auto simp: read_state_def Let_def derive_def binding_count_def)

text \<open>The two flags of the latch, and what leaves them alone.\<close>

definition latch :: "ekm \<Rightarrow> bool \<times> bool" where
  "latch s = (recovery_pending s, source_seen s)"

definition latched :: "ekm \<Rightarrow> bool" where
  "latched s \<longleftrightarrow> recovery_pending s \<or> \<not> source_seen s"

definition quiet :: "ekm_event \<Rightarrow> bool" where
  "quiet ev = (case ev of Request h PostAck f \<Rightarrow> False | Restart \<Rightarrow> False | CrashAfterPut k f \<Rightarrow> False | _ \<Rightarrow> True)"

lemma latched_latch: "latch s' = latch s \<Longrightarrow> latched s' = latched s"
  by (simp add: latch_def latched_def)

lemma latched_check: "latched s \<Longrightarrow> latched (check_recovery s)"
  by (auto simp: latched_def check_recovery_def Let_def)

lemma app_allocate_latch: "app_allocate peer s = (r, s') \<Longrightarrow> latch s' = latch s"
  by (auto simp: app_allocate_def latch_def split: prod.splits)

lemma first_use_latch: "first_use env f k s = (r, s') \<Longrightarrow> latch s' = latch s"
proof -
  assume u: "first_use env f k s = (r, s')"
  obtain r1 s1 where 1: "first_use_put env f k s = (r1, s1)" by fastforce
  have "latch s1 = latch s"
    using 1 by (auto simp: first_use_put_def dest!: app_allocate_latch split: prod.splits sum.splits)
      (simp add: latch_def)
  then show ?thesis using u by (auto simp: first_use_def 1 latch_def split: sum.splits if_splits)
qed

lemma app_wrap_latch: "app_wrap env f k body aad s = (r, s') \<Longrightarrow> latch s' = latch (check_recovery s)"
  by (auto simp: app_wrap_def Let_def dest: first_use_latch split: sum.splits option.splits prod.splits)

lemma new_key_latch: "new_key f peer purpose s = (r, s') \<Longrightarrow> latch s' = latch s"
proof -
  assume n: "new_key f peer purpose s = (r, s')"
  obtain r1 s1 where 1: "app_allocate peer s = (r1, s1)" by fastforce
  have "latch s1 = latch s" by (rule app_allocate_latch [OF 1])
  then show ?thesis using n
    by (auto simp: new_key_def 1 app_bind_def latch_def split: sum.splits if_splits prod.splits)
qed

lemma wrap_or_unwrap_latched:
  assumes "wrap_or_unwrap env f op body s = (r, s')" "latched s"
  shows "latched s'"
proof -
  obtain key_id sep operation where op: "rpartition_at CHR '':'' op = (key_id, sep, operation)"
    by (cases "rpartition_at CHR '':'' op")
  from assms consider "s' = s" | kvs aad where "app_wrap env f key_id kvs aad s = (r, s')"
    | kvs aad where "app_unwrap env key_id kvs aad s = (r, s')"
    by (auto simp: wrap_or_unwrap_def op split: sum.splits if_splits)
  then show ?thesis
  proof cases
    case 2
    from latched_latch [OF app_wrap_latch [OF this]] latched_check [OF assms(2)] show ?thesis by simp
  next
    case 3
    then have "s' = s" using app_unwrap_state [of env key_id kvs aad s] by simp
    then show ?thesis using assms(2) by simp
  qed (use assms(2) in simp)
qed

lemma kms_claims_latched: "kms_claims env h s = (r, s') \<Longrightarrow> latched s' = latched s"
  using kms_claims_store [of env h s r s'] by (simp add: latched_def)

lemma serve_latched:
  assumes "serve env f h r s = (resp, s')" "latched s" "r \<noteq> PostAck"
  shows "latched s'"
proof (cases r)
  case (KmsPost op body)
  obtain rc sc where c: "kms_claims env h s = (rc, sc)" by fastforce
  then have "latched sc" using kms_claims_latched assms(2) by simp
  then show ?thesis using assms KmsPost wrap_or_unwrap_latched
    by (auto simp: serve_def guarded_def c split: sum.splits)
next
  case (KmsGet op)
  obtain rc sc where c: "kms_claims env h s = (rc, sc)" by fastforce
  then have "latched sc" using kms_claims_latched assms(2) by simp
  then show ?thesis using assms KmsGet by (auto simp: serve_def guarded_def c split: sum.splits)
next
  case GetState
  then show ?thesis using assms latched_check [OF assms(2)]
    by (auto simp: serve_def guarded_def dest!: vpn_claims_state read_state_store split: prod.splits sum.splits)
next
  case (PostAuthority b)
  then show ?thesis using assms
    by (auto simp: serve_def guarded_def set_authority_def latched_def dest!: vpn_claims_state
        split: prod.splits sum.splits option.splits)
next
  case (GetNew peer purpose)
  then show ?thesis using assms latched_latch [OF new_key_latch]
    by (auto simp: serve_def guarded_def dest!: vpn_claims_state split: prod.splits sum.splits)
qed (use assms in \<open>simp_all add: serve_def\<close>)

lemma next_latched:
  assumes "ekm_next env ev s = (resp, s')" "latched s" "quiet ev"
  shows "latched s'"
proof (cases ev)
  case (Request h r f)
  obtain rs s1 where sv: "serve env f h r s = (rs, s1)" by fastforce
  have "r \<noteq> PostAck" using assms(3) Request by (auto simp: quiet_def)
  from serve_latched [OF sv assms(2) this] assms(1) Request sv show ?thesis by (simp add: ekm_next_def)
qed (use assms in \<open>auto simp: ekm_next_def latched_def quiet_def\<close>)

lemma exec_latched:
  "exec env evs s = (ids, s') \<Longrightarrow> latched s \<Longrightarrow> list_all quiet evs \<Longrightarrow> latched s'"
proof (induction evs arbitrary: s ids s')
  case (Cons ev evs)
  obtain resp s1 where 1: "ekm_next env ev s = (resp, s1)" by fastforce
  obtain ids1 s2 where 2: "exec env evs s1 = (ids1, s2)" by fastforce
  from Cons.IH [OF 2 next_latched [OF 1 Cons.prems(2)]] Cons.prems show ?case by (simp add: 1 2)
qed simp

text \<open>The recovery latch: once an outage was observed (a request looked while the source was
  down), every later report made while the source answers is RECOVERY, through any requests and pool
  passes, until a recovery is acknowledged or the process restarts.\<close>

theorem observed_outage_latches:
  assumes "\<not> source_available (e_pool s0)" "exec env evs (check_recovery s0) = (ids, s)"
    and "list_all quiet evs" "source_available (e_pool s)" "read_state s = (Inr (JObj kvs), s')"
  shows "map_of kvs ''mode'' = Some (JStr ''RECOVERY'')"
proof -
  have "latched (check_recovery s0)" using assms(1) by (simp add: latched_def check_recovery_def Let_def)
  from exec_latched [OF assms(2) this assms(3)] have "recovery_pending (check_recovery s)"
    using assms(4) by (auto simp: latched_def check_recovery_def Let_def)
  then show ?thesis using assms(5) by (auto simp: read_state_def Let_def derive_def split: sum.splits)
qed

text \<open>An outage nobody observed is not latched: a pull that fails and one that succeeds
  between two observations leave the report READY with no acknowledgement.\<close>

theorem unobserved_outage_not_latched:
  assumes "source_available (e_pool s)" "source_seen s" "\<not> recovery_pending s"
    and "exec env [Fill peer (Inl QkdUnavailable) t1, Fill peer (Inr ks) t2] s = (ids, s2)"
    and "read_state s2 = (Inr (JObj kvs), s')"
  shows "map_of kvs ''mode'' = Some (JStr ''READY'')"
  using assms
  by (auto simp: ekm_next_def receive_pull_def read_state_def Let_def derive_def check_recovery_def
      split: sum.splits)

section \<open>A concrete service\<close>

definition demo_env :: ekm_env where
  "demo_env = \<lparr> verify_kms = static_verify ''k'', verify_vpn = static_verify ''s'',
     the_aead = clear_aead, bind_peer = ''QKD2'' \<rparr>"

definition demo_fresh :: fresh where
  "demo_fresh = \<lparr> nonce1 = replicate 12 0, nonce2 = replicate 12 1, now_s = 1 \<rparr>"

definition demo_stock :: pool where
  "demo_stock = (new_pool [''QKD2''] 5 600)\<lparr>deques :=
     [(''QKD2'', [(\<lparr> k_id = ''a'', k_material = replicate 32 1 \<rparr>, 0), (\<lparr> k_id = ''b'', k_material = replicate 32 2 \<rparr>, 0)])]\<rparr>"

definition demo_ekm :: ekm where
  "demo_ekm = create_app (open_store (replicate 32 9)) demo_stock"

definition demo_wrapped :: ekm where
  "demo_wrapped = snd (app_wrap demo_env demo_fresh ''v1'' [(''plaintext'', JStr ''aGk='')] [7] demo_ekm)"

lemma demo_env_ok: "env_ok demo_env demo_fresh demo_ekm"
  by (simp add: env_ok_def demo_env_def demo_fresh_def demo_ekm_def create_app_def open_store_def
      clear_aead_ok key_ok_def NONCE_LEN_def)

definition demo_requests :: "ekm_event list" where
  "demo_requests =
     [Request ''Bearer s'' (GetNew ''QKD2'' ''vpn'') demo_fresh, Restart,
      Fill ''QKD2'' (Inr [\<lparr> k_id = ''b'', k_material = [2] \<rparr>]) 5,
      Request ''Bearer s'' (GetNew ''QKD2'' ''file'') demo_fresh]"

theorem keys_delivered_once_witness:
  "fst (exec demo_env demo_requests demo_ekm) = [''a'', ''b''] \<and>
   map b_key (new_rows (snd (exec demo_env demo_requests demo_ekm))) = [''a'', ''b'']"
proof -
  have "fst (exec demo_env demo_requests demo_ekm) = [''a'', ''b'']" by code_simp
  with keys_delivered_once [of demo_env demo_requests "replicate 32 9" demo_stock "[''a'', ''b'']"
      "snd (exec demo_env demo_requests demo_ekm)"]
  show ?thesis by (metis demo_ekm_def prod.collapse)
qed

lemma demo_wrapped_kek: "get_kek (the_aead demo_env) ''v1'' (e_store demo_wrapped) = Inr (Some (replicate 32 1))"
  by code_simp

theorem kek_never_changes_witness:
  "get_kek (the_aead demo_env) ''v1'' (e_store (snd (exec demo_env demo_requests demo_wrapped))) =
     Inr (Some (replicate 32 1))"
  by (rule kek_never_changes [OF demo_wrapped_kek])

theorem unauthorized_changes_nothing_witness:
  "serve demo_env demo_fresh ''Bearer x'' (GetNew ''QKD2'' ''vpn'') demo_ekm = (http_fail 403 ''invalid token'', demo_ekm)"
proof -
  have "bearer_dep (static_verify ''s'') ''Bearer x'' =
      Inl (HTTPException 403 (Body (error_body 403 ''invalid token'' None)))" by code_simp
  then show ?thesis
    using unauthorized_changes_nothing [of demo_env "GetNew ''QKD2'' ''vpn''"] by (simp add: demo_env_def http_fail_def)
qed

lemma demo_wrap:
  "app_wrap demo_env demo_fresh ''v1'' [(''plaintext'', JStr ''aGk='')] [7] demo_ekm =
     (Inr (JObj [(''wrappedBlob'', JStr ''AQEBAQEBAQEBAQEBAWgBaQAH'')]), demo_wrapped)"
proof -
  have "fst (app_wrap demo_env demo_fresh ''v1'' [(''plaintext'', JStr ''aGk='')] [7] demo_ekm) =
    Inr (JObj [(''wrappedBlob'', JStr ''AQEBAQEBAQEBAQEBAWgBaQAH'')])" by code_simp
  then show ?thesis unfolding demo_wrapped_def by (metis prod.collapse)
qed

theorem unwrap_after_any_run_witness:
  "fst (app_unwrap demo_env ''v1'' [(''wrappedBlob'', JStr ''AQEBAQEBAQEBAQEBAWgBaQAH'')] [7]
      (snd (exec demo_env demo_requests demo_wrapped))) = Inr (JObj [(''plaintext'', JStr ''aGk='')])"
proof -
  have "app_b64d (obj_get [(''plaintext'', JStr ''aGk='')] ''plaintext'') = Inr [0x68, 0x69]" by code_simp
  moreover have "b64e [0x68, 0x69] = ''aGk=''" by code_simp
  ultimately show ?thesis
    using unwrap_after_any_run [OF demo_env_ok demo_wrap prod.collapse [symmetric], of "[8]" demo_requests] by auto
qed

lemma demo_put: "first_use_put demo_env demo_fresh ''v1'' demo_ekm =
    (Inr \<lparr> k_id = ''a'', k_material = replicate 32 1 \<rparr>, snd (first_use_put demo_env demo_fresh ''v1'' demo_ekm))"
proof -
  have "fst (first_use_put demo_env demo_fresh ''v1'' demo_ekm) = Inr \<lparr> k_id = ''a'', k_material = replicate 32 1 \<rparr>"
    by code_simp
  then show ?thesis by (metis prod.collapse)
qed

theorem crash_leaves_key_unbound_witness:
  "\<not> ekm_bound ''v1'' (snd (exec demo_env demo_requests
      (restart (snd (first_use_put demo_env demo_fresh ''v1'' demo_ekm)))))"
proof -
  have "\<not> ekm_bound ''v1'' demo_ekm"
    by (simp add: ekm_bound_def demo_ekm_def create_app_def open_store_def)
  from crash_leaves_key_unbound [OF demo_env_ok demo_put this prod.collapse [symmetric]] show ?thesis by blast
qed

definition demo_down :: ekm where
  "demo_down = demo_ekm\<lparr>e_pool := demo_stock\<lparr>source_available := False\<rparr>\<rparr>"

definition demo_back :: ekm where
  "demo_back = snd (exec demo_env [Fill ''QKD2'' (Inr []) 5] (check_recovery demo_down))"

definition state_json :: "string \<Rightarrow> bool \<Rightarrow> bool \<Rightarrow> (string \<times> json) list" where
  "state_json m fresh pending =
     [(''mode'', JStr m), (''storage'', JBool True), (''fresh_allocation'', JBool fresh),
      (''established_vpn'', JStr ''distinct''), (''pool'', JObj [(''QKD2'', JInt 2)]), (''bindings_count'', JInt 0),
      (''source_available'', JBool True), (''continuity_authority'', JBool True), (''recovery_pending'', JBool pending)]"

lemma read_stateI: "fst (read_state s) = r \<Longrightarrow> read_state s = (r, snd (read_state s))"
  by (metis prod.collapse)

theorem observed_outage_latches_witness:
  "map_of (state_json ''RECOVERY'' False True) ''mode'' = Some (JStr ''RECOVERY'') \<and>
   fst (read_state demo_back) = Inr (JObj (state_json ''RECOVERY'' False True))"
proof -
  have r: "fst (read_state demo_back) = Inr (JObj (state_json ''RECOVERY'' False True))" by code_simp
  have "source_available (e_pool demo_back)" by code_simp
  moreover have "\<not> source_available (e_pool demo_down)" by code_simp
  moreover have "list_all quiet [Fill ''QKD2'' (Inr []) 5]" by (simp add: quiet_def)
  ultimately show ?thesis
    using observed_outage_latches [of demo_down demo_env _ _ demo_back, OF _ _ _ _ read_stateI [OF r]] r
    by (metis demo_back_def prod.collapse)
qed

theorem unobserved_outage_not_latched_witness:
  "fst (read_state (snd (exec demo_env [Fill ''QKD2'' (Inl QkdUnavailable) 1, Fill ''QKD2'' (Inr []) 2] demo_ekm))) =
     Inr (JObj (state_json ''READY'' True False)) \<and> map_of (state_json ''READY'' True False) ''mode'' = Some (JStr ''READY'')"
proof -
  have r: "fst (read_state (snd (exec demo_env [Fill ''QKD2'' (Inl QkdUnavailable) 1, Fill ''QKD2'' (Inr []) 2] demo_ekm))) =
     Inr (JObj (state_json ''READY'' True False))" by code_simp
  have "source_available (e_pool demo_ekm)" "source_seen demo_ekm" "\<not> recovery_pending demo_ekm" by code_simp+
  from unobserved_outage_not_latched [OF this prod.collapse [symmetric] read_stateI [OF r]] r show ?thesis by blast
qed

theorem state_reports_mode_witness:
  "map_of (state_json ''RECOVERY'' False True) ''mode'' = Some (JStr ''RECOVERY'')"
proof -
  have r: "fst (read_state demo_back) = Inr (JObj (state_json ''RECOVERY'' False True))" by code_simp
  have p: "recovery_pending (snd (read_state demo_back))" by code_simp
  have "pool_sizes (e_pool demo_back) = Inr [(''QKD2'', 2)]" by code_simp
  from state_reports_mode [OF read_stateI [OF r] this] p show ?thesis by simp
qed

end
