(* ===== verification/EkmClient.thy ===== *)
theory EkmClient
  imports EkmApp
begin

text \<open>
  \<open>EkmClient\<close> of \<open>src/qkd_ekm/vpn/app.py\<close>, which the VPN and the upload server use to draw keys, and
  what the EKM makes of its request: the path is decoded before it is routed (as ASGI has it), the
  routes are tried in the order \<open>ekm/app.py\<close> registers them, and the response is the JSON of the
  handler or the error envelope. The text of a transport error is left out, and a \<open>message\<close> of an
  error body that is no string is not turned into text.
\<close>

section \<open>\<open>quote(peer, safe='')\<close>\<close>

definition unreserved :: "string" where
  "unreserved = ''ABCDEFGHIJKLMNOPQRSTUVWXYZabcdefghijklmnopqrstuvwxyz0123456789_.-~''"

definition hex_digits :: "string" where
  "hex_digits = ''0123456789ABCDEF''"

definition quote_byte :: "byte \<Rightarrow> string" where
  "quote_byte b =
     (let n = unat b; c = char_of n
      in if c \<in> set unreserved then [c] else [CHR ''%'', hex_digits ! (n div 16), hex_digits ! (n mod 16)])"

definition quote :: "string \<Rightarrow> string" where
  "quote s = concat (map quote_byte (utf8 s))"

text \<open>The server's decoding of a path.\<close>

definition hex_val :: "char \<Rightarrow> nat option" where
  "hex_val c =
     (let n = of_char c :: nat
      in if 48 \<le> n \<and> n \<le> 57 then Some (n - 48)
         else if 65 \<le> n \<and> n \<le> 70 then Some (n - 55)
         else if 97 \<le> n \<and> n \<le> 102 then Some (n - 87) else None)"

fun unpercent :: "string \<Rightarrow> bytes" where
  "unpercent [] = []"
| "unpercent (c # s) =
     (case s of
        a # b # t \<Rightarrow>
          (if c = CHR ''%'' then
             (case (hex_val a, hex_val b) of
                (Some x, Some y) \<Rightarrow> of_nat (16 * x + y) # unpercent t
              | _ \<Rightarrow> of_char c # unpercent s)
           else of_char c # unpercent s)
      | _ \<Rightarrow> of_char c # unpercent s)"

declare unpercent.simps(2) [simp del]

definition unquote :: "string \<Rightarrow> string" where
  "unquote s = utf8_decode (unpercent s)"

definition quoted_as :: "string \<Rightarrow> byte \<Rightarrow> bool" where
  "quoted_as w b \<longleftrightarrow>
     (case w of
        [c] \<Rightarrow> c \<in> set unreserved \<and> of_char c = b
      | [p, h, l] \<Rightarrow> p = CHR ''%'' \<and> h \<in> set hex_digits \<and> l \<in> set hex_digits \<and>
          (case (hex_val h, hex_val l) of (Some x, Some y) \<Rightarrow> of_nat (16 * x + y) = b | _ \<Rightarrow> False)
      | _ \<Rightarrow> False)"

lemma hex_digits_length: "length hex_digits = 16"
  by (simp add: hex_digits_def)

lemma hex_val_digit: "k < 16 \<Longrightarrow> hex_val (hex_digits ! k) = Some k"
proof -
  assume "k < 16"
  then have "k = 0 \<or> k = 1 \<or> k = 2 \<or> k = 3 \<or> k = 4 \<or> k = 5 \<or> k = 6 \<or> k = 7 \<or> k = 8 \<or> k = 9 \<or>
      k = 10 \<or> k = 11 \<or> k = 12 \<or> k = 13 \<or> k = 14 \<or> k = 15" by presburger
  then show ?thesis by (elim disjE) (simp_all add: hex_val_def hex_digits_def)
qed

lemma quoted_as_byte: "quoted_as (quote_byte b) b"
proof -
  have b: "unat b < 256" using unsigned_less [of b] by simp
  then have "unat b div 16 < 16" "unat b mod 16 < 16" by (simp_all add: less_mult_imp_div_less)
  then have "hex_val (hex_digits ! (unat b div 16)) = Some (unat b div 16)"
    "hex_val (hex_digits ! (unat b mod 16)) = Some (unat b mod 16)"
    "hex_digits ! (unat b div 16) \<in> set hex_digits" "hex_digits ! (unat b mod 16) \<in> set hex_digits"
    by (auto intro!: hex_val_digit nth_mem simp: hex_digits_length)
  moreover have "(of_nat (16 * (unat b div 16) + unat b mod 16) :: byte) = b" by simp
  moreover have "(of_char (char_of (unat b)) :: byte) = b"
  proof -
    have "(of_char (char_of (unat b)) :: byte) = of_nat (of_char (char_of (unat b) :: char))"
      by (rule of_nat_of_char [symmetric])
    then show ?thesis using b by simp
  qed
  ultimately show ?thesis by (simp add: quoted_as_def quote_byte_def Let_def del: of_nat_add of_nat_mult)
qed

lemma percent_reserved: "CHR ''%'' \<notin> set unreserved" "CHR ''/'' \<notin> set unreserved" "CHR ''/'' \<notin> set hex_digits"
  by (simp_all add: unreserved_def hex_digits_def)

lemma unpercent_plain: "c \<noteq> CHR ''%'' \<Longrightarrow> unpercent (c # s) = of_char c # unpercent s"
  by (simp add: unpercent.simps(2) split: list.splits)

lemma unpercent_escape:
  "hex_val h = Some x \<Longrightarrow> hex_val l = Some y \<Longrightarrow>
   unpercent (CHR ''%'' # h # l # s) = of_nat (16 * x + y) # unpercent s"
  by (simp add: unpercent.simps(2))

lemma unpercent_byte: "quoted_as w b \<Longrightarrow> unpercent (w @ s) = b # unpercent s"
proof -
  assume q: "quoted_as w b"
  show ?thesis
  proof (cases "length w = 1")
    case True
    with q obtain c where "w = [c]" "c \<in> set unreserved" "of_char c = b"
      by (auto simp: quoted_as_def length_Suc_conv)
    then show ?thesis using percent_reserved(1) unpercent_plain [of c s] by auto
  next
    case False
    with q obtain h l x y where "w = [CHR ''%'', h, l]" "hex_val h = Some x" "hex_val l = Some y"
      "of_nat (16 * x + y) = b"
      by (auto simp: quoted_as_def split: list.splits option.splits)
    then show ?thesis using unpercent_escape [of h x l y s] by simp
  qed
qed

lemma unpercent_quote: "unpercent (concat (map quote_byte bs)) = bs"
  by (induction bs) (simp_all add: unpercent_byte [OF quoted_as_byte])

lemma unquote_quote [simp]: "unquote (quote s) = s"
  by (simp add: unquote_def quote_def unpercent_quote utf8_decode_utf8)

lemma quoted_as_chars: "quoted_as w b \<Longrightarrow> set w \<subseteq> insert CHR ''%'' (set unreserved \<union> set hex_digits)"
  by (auto simp: quoted_as_def split: list.splits)

lemma quote_segment: "CHR ''/'' \<notin> set (quote s)"
  using quoted_as_chars [OF quoted_as_byte] percent_reserved by (fastforce simp: quote_def)

lemma unpercent_safe: "set w \<subseteq> set unreserved \<Longrightarrow> unpercent (w @ s) = map of_char w @ unpercent s"
proof (induction w)
  case (Cons c w)
  then have "c \<noteq> CHR ''%''" using percent_reserved(1) by auto
  with Cons show ?case by (simp add: unpercent_plain)
qed simp

section \<open>The client\<close>

definition ekm_error :: "int \<Rightarrow> json option \<Rightarrow> string" where
  "ekm_error status body =
     (case (case body of None \<Rightarrow> Inl ValueError
              | Some j \<Rightarrow> bind_py (obj_item j ''error'') (\<lambda>e. bind_py (obj_item e ''message'') as_str)) of
        Inr message \<Rightarrow> message
      | Inl e \<Rightarrow> ''EKM HTTP '' @ str_int status)"

definition ekm_result :: "reply \<Rightarrow> (string \<times> bytes) py" where
  "ekm_result r =
     (case r of
        TransportError \<Rightarrow> Inl (RuntimeError ''EKM unreachable'')
      | Reply status body \<Rightarrow>
          if status \<noteq> 200 then Inl (RuntimeError (ekm_error status body))
          else case body of
              None \<Rightarrow> Inl ValueError
            | Some j \<Rightarrow>
                bind_py (obj_item j ''key_id'') (\<lambda>i. bind_py (as_str i) (\<lambda>key_id.
                bind_py (obj_item j ''key'') (\<lambda>v. bind_py (as_str v) (\<lambda>text.
                bind_py (b64d text) (\<lambda>key. Inr (key_id, key)))))))"

definition ekm_new_request :: "string \<Rightarrow> string \<Rightarrow> request" where
  "ekm_new_request peer purpose = Get (''/api/'' @ quote peer @ ''/new'') [(''purpose'', purpose)]"

definition ekm_new ::
  "(request \<Rightarrow> 'w \<Rightarrow> reply \<times> 'w) \<Rightarrow> string \<Rightarrow> string \<Rightarrow> 'w \<Rightarrow> (string \<times> bytes) py \<times> 'w" where
  "ekm_new send peer purpose w =
     (case send (ekm_new_request peer purpose) w of (r, w') \<Rightarrow> (ekm_result r, w'))"

section \<open>The EKM behind it\<close>

definition envelope_json :: "envelope \<Rightarrow> json" where
  "envelope_json e =
     JObj [(''error'', JObj [(''code'', JInt (e_code e)), (''message'', JStr (e_message e)),
                             (''status'', JStr (e_status e))])]"

definition ekm_reply :: "json http \<Rightarrow> reply" where
  "ekm_reply m =
     (case m of
        Inr j \<Rightarrow> Reply 200 (Some j)
      | Inl err \<Rightarrow> (case error_response err of (code, b) \<Rightarrow> Reply code (Some (envelope_json b))))"

text \<open>The route of a GET request, with the path as the server decodes it.\<close>

definition ekm_get_route :: "string \<Rightarrow> (string \<times> string) list \<Rightarrow> route option" where
  "ekm_get_route path params =
     (if path = ''/healthz'' then Some Healthz
      else if startswith path ''/api/keys/'' then Some (KmsGet (removeprefix path ''/api/keys/''))
      else if path = ''/api/state'' then Some GetState
      else case split_on CHR ''/'' path of
          [e, a, peer, n] \<Rightarrow>
            if e = [] \<and> a = ''api'' \<and> peer \<noteq> [] \<and> n = ''new''
            then Some (GetNew peer (case map_of (rev params) ''purpose'' of None \<Rightarrow> ''vpn'' | Some p \<Rightarrow> p))
            else None
        | _ \<Rightarrow> None)"

definition ekm_get ::
  "ekm_env \<Rightarrow> fresh \<Rightarrow> string \<Rightarrow> request \<Rightarrow> ekm \<Rightarrow> reply \<times> ekm" where
  "ekm_get env f authorization req s =
     (case req of
        Get path params \<Rightarrow>
          (case ekm_get_route (unquote path) params of
             None \<Rightarrow> (ekm_reply (Inl (HTTPException 404 (Text ''Not Found''))), s)
           | Some r \<Rightarrow> map_prod ekm_reply id (serve env f authorization r s))
      | Post path body \<Rightarrow> (ekm_reply (Inl (HTTPException 404 (Text ''Not Found''))), s))"

lemma ekm_result_key:
  "ekm_result (Reply 200 (Some (JObj [(''key_id'', JStr i), (''key'', JStr (b64e k)), (''qkd_name'', q)]))) = Inr (i, k)"
  by (simp add: ekm_result_def obj_item_def as_str_def)

lemma ekm_result_error: "ekm_result (ekm_reply (http_fail c m)) = (if c = 200 then Inl KeyError else Inl (RuntimeError m))"
  by (simp add: ekm_result_def ekm_reply_def http_fail_def error_response_def error_body_def envelope_json_def
      ekm_error_def obj_item_def as_str_def)

lemma unquote_new_path: "unquote (''/api/'' @ quote peer @ ''/new'') = ''/api/'' @ peer @ ''/new''"
proof -
  have tail: "unpercent (concat (map quote_byte bs) @ s) = bs @ unpercent s" for bs s
    by (induction bs) (simp_all add: unpercent_byte [OF quoted_as_byte])
  have "unpercent (''/api/'' @ quote peer @ ''/new'') = utf8 (''/api/'' @ peer @ ''/new'')"
    by (simp add: unpercent_plain quote_def tail utf8_def)
  then show ?thesis by (simp add: unquote_def utf8_decode_utf8)
qed

lemma new_path_route:
  assumes "CHR ''/'' \<notin> set peer" "peer \<noteq> []" "peer \<noteq> ''keys''"
  shows "ekm_get_route (unquote (''/api/'' @ quote peer @ ''/new'')) [(''purpose'', p)] = Some (GetNew peer p)"
proof -
  have "\<not> startswith (''/api/'' @ peer @ ''/new'') ''/api/keys/''"
  proof
    assume "startswith (''/api/'' @ peer @ ''/new'') ''/api/keys/''"
    then obtain t where "peer @ CHR ''/'' # ''new'' = ''keys'' @ CHR ''/'' # t" by (auto simp: startswith_iff)
    then have "takeWhile (\<lambda>x. x \<noteq> CHR ''/'') (peer @ CHR ''/'' # ''new'') =
        takeWhile (\<lambda>x. x \<noteq> CHR ''/'') (''keys'' @ CHR ''/'' # t)" by presburger
    then have "peer = ''keys''" using takeWhile_until [OF assms(1)] takeWhile_until [of "CHR ''/''" "''keys''" t] by simp
    then show False using assms(3) by simp
  qed
  moreover have "split_on CHR ''/'' (''/api/'' @ peer @ ''/new'') = [[], ''api'', peer, ''new'']"
    using assms split_on_prefix [of "CHR ''/''" peer "''new''"] by simp
  moreover have "''/api/'' @ peer @ ''/new'' \<noteq> ''/api/state''"
  proof
    assume "''/api/'' @ peer @ ''/new'' = ''/api/state''"
    then have e: "peer @ CHR ''/'' # ''new'' = ''state''" by simp
    have "CHR ''/'' \<in> set (peer @ CHR ''/'' # ''new'')" by simp
    then have "CHR ''/'' \<in> set ''state''" unfolding e .
    then show False by simp
  qed
  ultimately show ?thesis using assms(2)
    unfolding unquote_new_path ekm_get_route_def by simp
qed

lemma ekm_new_get:
  assumes "CHR ''/'' \<notin> set peer" "peer \<noteq> []" "peer \<noteq> ''keys''"
  shows "ekm_new (ekm_get env f h) peer u s =
    (case serve env f h (GetNew peer u) s of (m, s') \<Rightarrow> (ekm_result (ekm_reply m), s'))"
  unfolding ekm_new_def ekm_new_request_def ekm_get_def
  by (simp only: request.case new_path_route [OF assms] option.case) (simp add: map_prod_def split: prod.splits)

section \<open>Properties\<close>

text \<open>Quoting does not confine a peer name to its path segment: the server decodes the path before
  it routes it, so the peer \<open>keys/x\<close> (which \<open>/api/file_key\<close> takes from the request body) reaches the
  Cloud KMS route of the external key \<open>x/new\<close>, while a name without a slash reaches \<open>/new\<close>.\<close>

theorem quoted_peer_reaches_other_route:
  "ekm_get_route (unquote (''/api/'' @ quote (''keys/'' @ x) @ ''/new'')) [(''purpose'', p)] = Some (KmsGet (x @ ''/new'')) \<and>
   (CHR ''/'' \<notin> set peer \<longrightarrow> peer \<noteq> [] \<longrightarrow> peer \<noteq> ''keys'' \<longrightarrow>
     ekm_get_route (unquote (''/api/'' @ quote peer @ ''/new'')) [(''purpose'', p)] = Some (GetNew peer p))"
  using new_path_route [of peer p] unfolding unquote_new_path
  by (simp add: ekm_get_route_def startswith_def removeprefix_def)

theorem quoted_peer_reaches_other_route_witness:
  "ekm_get_route (unquote (''/api/'' @ quote ''keys/v1'' @ ''/new'')) [(''purpose'', ''file'')] = Some (KmsGet ''v1/new'') \<and>
   ekm_get_route (unquote (''/api/'' @ quote ''QKD2'' @ ''/new'')) [(''purpose'', ''vpn'')] = Some (GetNew ''QKD2'' ''vpn'')"
  using quoted_peer_reaches_other_route [of "''v1''" "''file''" "''QKD2''"]
    quoted_peer_reaches_other_route [of "''v1''" "''vpn''" "''QKD2''"] by simp

end
