(* ===== verification/Ipv4.thy ===== *)
theory Ipv4
  imports QkdPrelude
begin

text \<open>
  What \<open>src/qkd_ekm/vpn/app.py\<close> uses of Python's \<open>ipaddress\<close> for IPv4: \<open>ip_interface(s).ip\<close>,
  \<open>ip_network(s)\<close>, \<open>.hosts()\<close> and \<open>str\<close>. An address is a number from 0 to below \<open>2 ^ 32\<close>. A mask is a prefix
  length; the dotted form of a mask and IPv6 are refused here and not there.
\<close>

section \<open>Addresses\<close>

definition dec_value :: "string \<Rightarrow> int" where
  "dec_value s = foldl (\<lambda>a c. 10 * a + (case digit_val c of Some d \<Rightarrow> int d | None \<Rightarrow> 0)) 0 s"

definition parse_octet :: "string \<Rightarrow> int py" where
  "parse_octet s =
     (if s = [] \<or> (\<exists>c \<in> set s. digit_val c = None) \<or> length s > 3 \<or> (length s > 1 \<and> hd s = CHR ''0'') \<or>
         dec_value s > 255
      then Inl ValueError else Inr (dec_value s))"

definition parse_ipv4 :: "string \<Rightarrow> int py" where
  "parse_ipv4 s =
     (case map_py parse_octet (split_on CHR ''.'' s) of
        Inr [a, b, c, d] \<Rightarrow> Inr (((a * 256 + b) * 256 + c) * 256 + d)
      | _ \<Rightarrow> Inl ValueError)"

definition ipv4_str :: "int \<Rightarrow> string" where
  "ipv4_str n =
     str_int (n div 16777216) @ CHR ''.'' # str_int (n div 65536 mod 256) @ CHR ''.'' #
     str_int (n div 256 mod 256) @ CHR ''.'' # str_int (n mod 256)"

section \<open>Interfaces and networks\<close>

definition parse_prefix :: "string \<Rightarrow> nat py" where
  "parse_prefix s =
     (if s = [] \<or> (\<exists>c \<in> set s. digit_val c = None) \<or> dec_value s > 32
      then Inl ValueError else Inr (nat (dec_value s)))"

definition ip_interface :: "string \<Rightarrow> (int \<times> nat) py" where
  "ip_interface s =
     (case split_on CHR ''/'' s of
        [a] \<Rightarrow> bind_py (parse_ipv4 a) (\<lambda>n. Inr (n, 32))
      | [a, p] \<Rightarrow> bind_py (parse_ipv4 a) (\<lambda>n. bind_py (parse_prefix p) (\<lambda>len. Inr (n, len)))
      | _ \<Rightarrow> Inl ValueError)"

definition ip_network :: "string \<Rightarrow> (int \<times> nat) py" where
  "ip_network s =
     bind_py (ip_interface s) (\<lambda>(n, len). if n mod 2 ^ (32 - len) = 0 then Inr (n, len) else Inl ValueError)"

definition hosts :: "int \<times> nat \<Rightarrow> int list" where
  "hosts net =
     (case net of (n, len) \<Rightarrow>
        if len = 32 then [n] else if len = 31 then [n, n + 1] else [n + 1 .. n + 2 ^ (32 - len) - 2])"

section \<open>Printing is parsed back\<close>

lemma dot_no_digit: "digit_val CHR ''.'' = None"
  by (simp add: digit_val_def)

lemma str_nat_short:
  "k < 10 \<Longrightarrow> str_nat k = [digit_char k]"
  "10 \<le> k \<Longrightarrow> k < 100 \<Longrightarrow> str_nat k = [digit_char (k div 10), digit_char (k mod 10)]"
  "100 \<le> k \<Longrightarrow> k < 1000 \<Longrightarrow>
     str_nat k = [digit_char (k div 100), digit_char (k div 10 mod 10), digit_char (k mod 10)]"
proof -
  show s1: "str_nat k = [digit_char k]" if "k < 10" for k
    using that by (subst str_nat.simps) simp
  show s2: "str_nat k = [digit_char (k div 10), digit_char (k mod 10)]" if "10 \<le> k" "k < 100" for k
    using that s1 [of "k div 10"] by (subst str_nat.simps) simp
  show "str_nat k = [digit_char (k div 100), digit_char (k div 10 mod 10), digit_char (k mod 10)]"
    if "100 \<le> k" "k < 1000" for k
  proof -
    have "k div 10 div 10 = k div 100" by (simp add: div_mult2_eq [symmetric])
    then show ?thesis using that s2 [of "k div 10"] by (subst str_nat.simps) simp
  qed
qed

lemma digit_char_zero: "0 < d \<Longrightarrow> d < 10 \<Longrightarrow> digit_char d \<noteq> CHR ''0''"
  using digit_val_digit [of d] by (auto simp: digit_val_def)

lemma parse_octet_digits:
  "a < 10 \<Longrightarrow> parse_octet [digit_char a] = Inr (int a)"
  "0 < a \<Longrightarrow> a < 10 \<Longrightarrow> b < 10 \<Longrightarrow> parse_octet [digit_char a, digit_char b] = Inr (10 * int a + int b)"
  "0 < a \<Longrightarrow> a < 10 \<Longrightarrow> b < 10 \<Longrightarrow> c < 10 \<Longrightarrow> 100 * a + 10 * b + c < 256 \<Longrightarrow>
     parse_octet [digit_char a, digit_char b, digit_char c] = Inr (100 * int a + 10 * int b + int c)"
  using digit_char_zero by (auto simp: parse_octet_def dec_value_def)

lemma parse_octet_str:
  assumes "0 \<le> k" "k < 256"
  shows "parse_octet (str_int k) = Inr k"
proof -
  define m where "m = nat k"
  have m: "str_int k = str_nat m" "int m = k" "m < 256" using assms by (simp_all add: str_int_def m_def)
  consider "m < 10" | "10 \<le> m" "m < 100" | "100 \<le> m" by linarith
  then have "parse_octet (str_nat m) = Inr (int m)"
  proof cases
    case 1
    then show ?thesis by (simp add: str_nat_short parse_octet_digits)
  next
    case 2
    have "int (10 * (m div 10) + m mod 10) = int m" by (simp only: mult_div_mod_eq)
    then have "10 * int (m div 10) + int (m mod 10) = int m" by (simp only: of_nat_add of_nat_mult of_nat_numeral)
    moreover have "parse_octet [digit_char (m div 10), digit_char (m mod 10)] = Inr (10 * int (m div 10) + int (m mod 10))"
      using 2 by (intro parse_octet_digits(2)) auto
    ultimately show ?thesis using 2 by (simp only: str_nat_short(2))
  next
    case 3
    have "10 * (m div 10) + m mod 10 = m" "10 * (m div 10 div 10) + m div 10 mod 10 = m div 10"
      by (rule mult_div_mod_eq)+
    moreover have "m div 100 = m div 10 div 10" by (simp add: div_mult2_eq [symmetric])
    ultimately have e: "100 * (m div 100) + 10 * (m div 10 mod 10) + m mod 10 = m" by linarith
    have "int (100 * (m div 100) + 10 * (m div 10 mod 10) + m mod 10) = int m" by (simp only: e)
    then have "100 * int (m div 100) + 10 * int (m div 10 mod 10) + int (m mod 10) = int m"
      by (simp only: of_nat_add of_nat_mult of_nat_numeral)
    moreover have "parse_octet [digit_char (m div 100), digit_char (m div 10 mod 10), digit_char (m mod 10)] =
        Inr (100 * int (m div 100) + 10 * int (m div 10 mod 10) + int (m mod 10))"
      using 3 m(3) e by (intro parse_octet_digits(3)) auto
    moreover have "str_nat m = [digit_char (m div 100), digit_char (m div 10 mod 10), digit_char (m mod 10)]"
      using 3 m(3) by (intro str_nat_short(3)) simp_all
    ultimately show ?thesis by (simp only:)
  qed
  then show ?thesis using m(1,2) by simp
qed

lemma str_octet_no_dot: "0 \<le> k \<Longrightarrow> k < 256 \<Longrightarrow> CHR ''.'' \<notin> set (str_int k)"
  using parse_octet_str [of k] dot_no_digit by (fastforce simp: parse_octet_def split: if_splits)

lemma parse_ipv4_str:
  assumes "0 \<le> n" "n < 2 ^ 32"
  shows "parse_ipv4 (ipv4_str n) = Inr n"
proof -
  define a b c d where "a = n div 16777216" "b = n div 65536 mod 256" "c = n div 256 mod 256" "d = n mod 256"
  note abcd = this
  have lt: "0 \<le> a" "0 \<le> b" "0 \<le> c" "0 \<le> d" "a < 256" "b < 256" "c < 256" "d < 256"
    using assms by (simp_all add: abcd)
  have "split_on CHR ''.'' (ipv4_str n) = [str_int a, str_int b, str_int c, str_int d]"
    using lt by (simp add: ipv4_str_def split_on_prefix split_on_word str_octet_no_dot flip: abcd)
  moreover have "((a * 256 + b) * 256 + c) * 256 + d = n"
  proof -
    have "n div 16777216 = n div 256 div 256 div 256" "n div 65536 = n div 256 div 256"
      by (simp_all add: zdiv_zmult2_eq [symmetric])
    then show ?thesis by (simp add: abcd)
  qed
  ultimately show ?thesis using lt by (simp add: parse_ipv4_def parse_octet_str)
qed

lemma ipv4_str_inject:
  "0 \<le> m \<Longrightarrow> m < 2 ^ 32 \<Longrightarrow> 0 \<le> n \<Longrightarrow> n < 2 ^ 32 \<Longrightarrow> ipv4_str m = ipv4_str n \<longleftrightarrow> m = n"
  by (metis parse_ipv4_str sum.inject(2))

section \<open>Hosts of a network\<close>

lemma foldl_digits_nonneg: "0 \<le> a \<Longrightarrow> 0 \<le> foldl (\<lambda>a c. 10 * a + (case digit_val c of Some d \<Rightarrow> int d | None \<Rightarrow> 0)) a s"
  by (induction s arbitrary: a) (auto split: option.splits)

lemma parse_ipv4_bound:
  assumes p: "parse_ipv4 s = Inr n"
  shows "0 \<le> n" "n < 2 ^ 32"
proof -
  from p obtain a b c d where q: "map_py parse_octet (split_on CHR ''.'' s) = Inr [a, b, c, d]"
    and n: "n = ((a * 256 + b) * 256 + c) * 256 + d"
    by (auto simp: parse_ipv4_def split: sum.splits list.splits)
  have oct: "parse_octet w = Inr x \<Longrightarrow> 0 \<le> x \<and> x < 256" for w x
    by (auto simp: parse_octet_def dec_value_def foldl_digits_nonneg split: if_splits)
  have "length (split_on CHR ''.'' s) = Suc (Suc (Suc (Suc 0)))" using map_py_length [OF q] by simp
  then obtain u v w x where "split_on CHR ''.'' s = [u, v, w, x]" by (auto simp: length_Suc_conv)
  with q oct have "0 \<le> a \<and> a < 256" "0 \<le> b \<and> b < 256" "0 \<le> c \<and> c < 256" "0 \<le> d \<and> d < 256"
    by (auto simp: bind_py_eq_Inr)
  then show "0 \<le> n" "n < 2 ^ 32" using n by simp_all
qed

lemma ip_network_bounds:
  assumes "ip_network s = Inr (n, len)"
  shows "len \<le> 32" "0 \<le> n" "n + 2 ^ (32 - len) \<le> 2 ^ 32"
proof -
  have i: "ip_interface s = Inr (n, len)" and m: "n mod 2 ^ (32 - len) = 0"
    using assms by (auto simp: ip_network_def bind_py_eq_Inr split: if_splits)
  from i show len: "len \<le> 32"
    by (auto simp: ip_interface_def bind_py_eq_Inr parse_prefix_def split: list.splits if_splits)
  from i show "0 \<le> n"
    by (auto simp: ip_interface_def bind_py_eq_Inr dest: parse_ipv4_bound split: list.splits)
  from i have "n < 2 ^ 32"
    by (auto simp: ip_interface_def bind_py_eq_Inr dest: parse_ipv4_bound split: list.splits)
  moreover obtain q where q: "n = 2 ^ (32 - len) * q" using m by auto
  moreover have e: "(2 :: int) ^ 32 = 2 ^ (32 - len) * 2 ^ len" using len by (simp add: power_add [symmetric])
  ultimately have "2 ^ (32 - len) * q < 2 ^ (32 - len) * 2 ^ len" by metis
  then have "q < 2 ^ len" by (simp only: mult_less_cancel_left_pos zero_less_power zero_less_numeral)
  then have "2 ^ (32 - len) * (q + 1) \<le> 2 ^ (32 - len) * 2 ^ len" by (intro mult_left_mono) simp_all
  then show "n + 2 ^ (32 - len) \<le> 2 ^ 32" using q e by (simp add: distrib_left)
qed

lemma hosts_bounds:
  assumes "ip_network s = Inr net" "h \<in> set (hosts net)"
  shows "0 \<le> h" "h < 2 ^ 32"
proof -
  obtain n len where net: "net = (n, len)" by (cases net)
  note b = ip_network_bounds [OF assms(1) [unfolded net]]
  have "n \<le> h \<and> h < n + 2 ^ (32 - len)" using assms(2) b(1) unfolding net hosts_def by (auto split: if_splits)
  then show "0 \<le> h" "h < 2 ^ 32" using b by linarith+
qed

lemma hosts_distinct: "distinct (hosts net)"
  by (cases net) (simp add: hosts_def)

lemma hosts_strings_distinct: "ip_network s = Inr net \<Longrightarrow> distinct (map ipv4_str (hosts net))"
  unfolding distinct_map inj_on_def using hosts_distinct hosts_bounds ipv4_str_inject by metis

end
