(* ===== verification/VpnApp.thy ===== *)
theory VpnApp
  imports EkmClient Ipv4 "HOL-Library.AList"
begin

text \<open>
  \<open>src/qkd_ekm/vpn/app.py\<close>: the VPN control API over the peer file, the event loop's timers and
  WireGuard. A datetime is its number of microseconds, and a handler reads the clock once. A task is
  a number, the moment its sleep ends and the work it then does; cancelling takes it off the list.
  \<open>installs\<close> is the history of the peers \<open>wg set\<close> accepted: the later entry of a peer is in force.
  What \<open>wg\<close> and the file system do is given per event. A handler without an \<open>await\<close> after its call
  to the EKM runs to its end at the moment the reply is there, which is the moment modelled; records
  are not removed once a request answered for them, so the record a refresh looked up is still the
  one in the dictionary.
\<close>

section \<open>The state\<close>

record vpn_settings =
  public_endpoint :: string
  tunnel_cidr :: string
  server_address :: string
  allowed_ips :: string
  refresh_s :: int
  activation_delay_s :: int
  server_peer :: string

record peer_record =
  client_ip :: string
  peer_qkd_id :: string
  preshared_key_id :: "string option"
  next_refresh_at :: "int option"
  refresh_due :: bool

datatype work =
    Due string
  | Activate string string bytes

record vpn =
  peers_mem :: "(string \<times> peer_record) list"
  peers_disk :: "(string \<times> peer_record) list"
  tasks :: "(nat \<times> int \<times> work) list"
  next_task :: nat
  timers :: "(string \<times> nat) list"
  activations :: "(string \<times> nat) list"
  installs :: "(string \<times> bytes \<times> string) list"

text \<open>What the outside does during one handler or task.\<close>

record vpn_io =
  wg_set :: "unit py"
  wg_public_key :: "string py"
  file_write :: "unit py"
  now_us :: int

text \<open>\<open>PeerFile(path)\<close> and the empty dictionaries of \<open>create_app\<close>, after a start or a restart.\<close>

definition vpn_create_app :: "(string \<times> peer_record) list \<Rightarrow> (string \<times> bytes \<times> string) list \<Rightarrow> vpn" where
  "vpn_create_app file accepted =
     \<lparr> peers_mem = file, peers_disk = file, tasks = [], next_task = 0, timers = [], activations = [],
       installs = accepted \<rparr>"

definition peers_save :: "vpn_io \<Rightarrow> vpn \<Rightarrow> unit py \<times> vpn" where
  "peers_save io v =
     (case file_write io of
        Inl e \<Rightarrow> (Inl e, v)
      | Inr _ \<Rightarrow> (Inr (), v\<lparr>peers_disk := peers_mem v\<rparr>))"

section \<open>Request bodies\<close>

definition wireguard_key :: "string \<Rightarrow> string py" where
  "wireguard_key value =
     (if length value \<noteq> 44 then Inl ValueError
      else case b64d value of
          Inl e \<Rightarrow> Inl ValueError
        | Inr raw \<Rightarrow> if length raw \<noteq> 32 then Inl ValueError else Inr value)"

definition qkd_id_ok :: "string \<Rightarrow> bool" where
  "qkd_id_ok s \<longleftrightarrow> 1 \<le> length s \<and> length s \<le> 32 \<and>
     (\<forall>c \<in> set s. c \<in> set ''ABCDEFGHIJKLMNOPQRSTUVWXYZabcdefghijklmnopqrstuvwxyz0123456789_-'')"

text \<open>None is a RequestValidationError; a body that is not JSON is refused before the handler.\<close>

definition body_key :: "(string \<times> json) list \<Rightarrow> string option" where
  "body_key kvs =
     (case obj_get kvs ''public_key'' of
        JStr s \<Rightarrow> (case wireguard_key s of Inr k \<Rightarrow> Some k | Inl e \<Rightarrow> None)
      | _ \<Rightarrow> None)"

definition StartConnection :: "json \<Rightarrow> (string \<times> string) option" where
  "StartConnection j =
     (case j of
        JObj kvs \<Rightarrow>
          (case body_key kvs of
             None \<Rightarrow> None
           | Some k \<Rightarrow>
               (case map_of (rev kvs) ''qkd_id'' of
                  None \<Rightarrow> Some (k, ''QKD2'')
                | Some (JStr q) \<Rightarrow> if qkd_id_ok q then Some (k, q) else None
                | Some v \<Rightarrow> None))
      | _ \<Rightarrow> None)"

definition RefreshConnection :: "json \<Rightarrow> string option" where
  "RefreshConnection j = (case j of JObj kvs \<Rightarrow> body_key kvs | _ \<Rightarrow> None)"

section \<open>Timers\<close>

definition schedule :: "int \<Rightarrow> work \<Rightarrow> int \<Rightarrow> vpn \<Rightarrow> nat \<times> vpn" where
  "schedule delay w now v =
     (next_task v,
      v\<lparr>tasks := tasks v @ [(next_task v, now + delay * 1000000, w)], next_task := next_task v + 1\<rparr>)"

definition cancel_task :: "nat option \<Rightarrow> vpn \<Rightarrow> vpn" where
  "cancel_task running v =
     (case running of None \<Rightarrow> v | Some i \<Rightarrow> v\<lparr>tasks := filter (\<lambda>t. fst t \<noteq> i) (tasks v)\<rparr>)"

definition arm_refresh_timer :: "vpn_settings \<Rightarrow> int \<Rightarrow> string \<Rightarrow> vpn \<Rightarrow> vpn" where
  "arm_refresh_timer st now pubkey v =
     (case schedule (refresh_s st) (Due pubkey) now (cancel_task (map_of (timers v) pubkey) v) of
        (i, v1) \<Rightarrow> v1\<lparr>timers := AList.update pubkey i (timers v1)\<rparr>)"

section \<open>Addresses and records\<close>

definition addresses_taken :: "vpn \<Rightarrow> string set" where
  "addresses_taken v = (\<lambda>p. client_ip (snd p)) ` set (peers_mem v)"

definition allocate_ip :: "vpn_settings \<Rightarrow> vpn \<Rightarrow> string http" where
  "allocate_ip st v =
     (case ip_interface (server_address st) of
        Inl e \<Rightarrow> Inl (Unhandled e)
      | Inr (ip, len) \<Rightarrow>
          (case ip_network (tunnel_cidr st) of
             Inl e \<Rightarrow> Inl (Unhandled e)
           | Inr net \<Rightarrow>
               (case find (\<lambda>host. ipv4_str host \<notin> insert (ipv4_str ip) (addresses_taken v)) (hosts net) of
                  Some host \<Rightarrow> Inr (ipv4_str host)
                | None \<Rightarrow> http_fail 503 ''tunnel address pool exhausted'')))"

definition record_for :: "vpn_settings \<Rightarrow> string \<Rightarrow> string \<Rightarrow> vpn \<Rightarrow> (peer_record \<times> bool) http \<times> vpn" where
  "record_for st pubkey qkd_id v =
     (case map_of (peers_mem v) pubkey of
        Some record \<Rightarrow> (Inr (record, False), v)
      | None \<Rightarrow>
          (case allocate_ip st v of
             Inl e \<Rightarrow> (Inl e, v)
           | Inr ip \<Rightarrow>
               let record = \<lparr> client_ip = ip, peer_qkd_id = qkd_id, preshared_key_id = None,
                              next_refresh_at = None, refresh_due = False \<rparr>
               in (Inr (record, True), v\<lparr>peers_mem := peers_mem v @ [(pubkey, record)]\<rparr>)))"

definition vpn_new_key ::
  "(request \<Rightarrow> 'w \<Rightarrow> reply \<times> 'w) \<Rightarrow> string \<Rightarrow> 'w \<Rightarrow> (string \<times> bytes) http \<times> 'w" where
  "vpn_new_key send qkd_id w =
     (case ekm_new send qkd_id ''vpn'' w of
        (r, w') \<Rightarrow>
          (case r of
             Inr kk \<Rightarrow> Inr kk
           | Inl (RuntimeError m) \<Rightarrow> http_fail 503 m
           | Inl e \<Rightarrow> Inl (Unhandled e), w'))"

definition apply_key ::
  "vpn_settings \<Rightarrow> vpn_io \<Rightarrow> string \<Rightarrow> peer_record \<Rightarrow> string \<Rightarrow> bytes \<Rightarrow> bool \<Rightarrow> vpn \<Rightarrow> unit py \<times> vpn" where
  "apply_key st io pubkey record key_id key new_record v =
     (case wg_set io of
        Inl e \<Rightarrow>
          (Inl e, if new_record then v\<lparr>peers_mem := AList.delete pubkey (peers_mem v)\<rparr> else v)
      | Inr _ \<Rightarrow>
          let record' = record\<lparr>preshared_key_id := Some key_id, refresh_due := False,
                               next_refresh_at := Some (now_us io + refresh_s st * 1000000)\<rparr>;
              v1 = v\<lparr>installs := installs v @ [(pubkey, key, client_ip record @ ''/32'')],
                     peers_mem := AList.update pubkey record' (peers_mem v)\<rparr>
          in case peers_save io v1 of
               (Inl e, v2) \<Rightarrow> (Inl e, v2)
             | (Inr _, v2) \<Rightarrow> (Inr (), arm_refresh_timer st (now_us io) pubkey v2))"

section \<open>The routes\<close>

record start_reply =
  sr_qkd_id :: string
  sr_server_public_key :: string
  sr_endpoint :: string
  sr_preshared_key_id :: string
  sr_client_ip :: string
  sr_allowed_ips :: string
  sr_effective_time :: int
  sr_refresh_after_s :: int

record refresh_reply =
  rr_preshared_key_id :: string
  rr_effective_time :: int

definition start_connection ::
  "vpn_settings \<Rightarrow> vpn_io \<Rightarrow> (request \<Rightarrow> 'w \<Rightarrow> reply \<times> 'w) \<Rightarrow> string \<Rightarrow> string \<Rightarrow> 'w \<times> vpn \<Rightarrow>
   start_reply http \<times> 'w \<times> vpn" where
  "start_connection st io send public_key qkd_id wv =
     (case vpn_new_key send qkd_id (fst wv) of
        (Inl e, w') \<Rightarrow> (Inl e, w', snd wv)
      | (Inr (key_id, key), w') \<Rightarrow>
          (case record_for st public_key qkd_id (snd wv) of
             (Inl e, v1) \<Rightarrow> (Inl e, w', v1)
           | (Inr (record, new_record), v1) \<Rightarrow>
               (case apply_key st io public_key record key_id key new_record v1 of
                  (Inl (RuntimeError m), v2) \<Rightarrow>
                    (Inl (HTTPException 500 (Body (error_body 500 ''failed to configure WireGuard peer''
                       (Some ''INTERNAL'')))), w', v2)
                | (Inl e, v2) \<Rightarrow> (Inl (Unhandled e), w', v2)
                | (Inr _, v2) \<Rightarrow>
                    (map_sum Unhandled (\<lambda>pub.
                       \<lparr> sr_qkd_id = server_peer st, sr_server_public_key = pub,
                         sr_endpoint = public_endpoint st, sr_preshared_key_id = key_id,
                         sr_client_ip = client_ip record, sr_allowed_ips = allowed_ips st,
                         sr_effective_time = now_us io, sr_refresh_after_s = refresh_s st \<rparr>)
                       (wg_public_key io), w', v2))))"

definition refresh_connection ::
  "vpn_settings \<Rightarrow> vpn_io \<Rightarrow> (request \<Rightarrow> 'w \<Rightarrow> reply \<times> 'w) \<Rightarrow> string \<Rightarrow> 'w \<times> vpn \<Rightarrow>
   refresh_reply http \<times> 'w \<times> vpn" where
  "refresh_connection st io send pubkey wv =
     (case map_of (peers_mem (snd wv)) pubkey of
        None \<Rightarrow> (http_fail 404 ''unknown peer'', wv)
      | Some record \<Rightarrow>
          (case vpn_new_key send (peer_qkd_id record) (fst wv) of
             (Inl e, w') \<Rightarrow> (Inl e, w', snd wv)
           | (Inr (key_id, key), w') \<Rightarrow>
               (case schedule (activation_delay_s st) (Activate pubkey key_id key) (now_us io)
                       (cancel_task (map_of (activations (snd wv)) pubkey) (snd wv)) of
                  (i, v1) \<Rightarrow>
                    (Inr \<lparr> rr_preshared_key_id = key_id,
                           rr_effective_time = now_us io + activation_delay_s st * 1000000 \<rparr>,
                     w', v1\<lparr>activations := AList.update pubkey i (activations v1)\<rparr>))))"

record peer_status =
  ps_pubkey :: string
  ps_client_ip :: string
  ps_preshared_key_id :: "string option"
  ps_next_refresh_at :: "int option"
  ps_refresh_due :: bool

definition vpn_status :: "vpn \<Rightarrow> peer_status list" where
  "vpn_status v =
     map (\<lambda>(pubkey, r). \<lparr> ps_pubkey = pubkey, ps_client_ip = client_ip r,
            ps_preshared_key_id = preshared_key_id r, ps_next_refresh_at = next_refresh_at r,
            ps_refresh_due = refresh_due r \<rparr>) (peers_mem v)"

datatype vpn_route =
    Start json
  | Refresh json
  | Status
  | VpnHealthz

datatype vpn_answer =
    Started start_reply
  | Refreshing refresh_reply
  | Peers "peer_status list"
  | Ok

definition vpn_serve ::
  "vpn_settings \<Rightarrow> verifier \<Rightarrow> vpn_io \<Rightarrow> (request \<Rightarrow> 'w \<Rightarrow> reply \<times> 'w) \<Rightarrow> string \<Rightarrow> vpn_route \<Rightarrow> 'w \<times> vpn \<Rightarrow>
   vpn_answer http \<times> 'w \<times> vpn" where
  "vpn_serve st verify io send authorization r wv =
     (if r = VpnHealthz then (Inr Ok, wv)
      else case bearer_dep verify authorization of
          Inl e \<Rightarrow> (Inl e, wv)
        | Inr c \<Rightarrow>
            (case r of
               Start j \<Rightarrow>
                 (case StartConnection j of
                    None \<Rightarrow> (Inl Invalid, wv)
                  | Some (k, q) \<Rightarrow> apfst (map_sum id Started) (start_connection st io send k q wv))
             | Refresh j \<Rightarrow>
                 (case RefreshConnection j of
                    None \<Rightarrow> (Inl Invalid, wv)
                  | Some k \<Rightarrow> apfst (map_sum id Refreshing) (refresh_connection st io send k wv))
             | _ \<Rightarrow> (Inr (Peers (vpn_status (snd wv))), wv)))"

section \<open>The tasks\<close>

definition run_due :: "vpn_io \<Rightarrow> string \<Rightarrow> vpn \<Rightarrow> vpn" where
  "run_due io pubkey v =
     (if pubkey \<in> fst ` set (peers_mem v)
      then snd (peers_save io (v\<lparr>peers_mem := AList.map_entry pubkey (\<lambda>r. r\<lparr>refresh_due := True\<rparr>) (peers_mem v)\<rparr>))
      else v)"

definition run_activate :: "vpn_settings \<Rightarrow> vpn_io \<Rightarrow> string \<Rightarrow> string \<Rightarrow> bytes \<Rightarrow> vpn \<Rightarrow> vpn" where
  "run_activate st io pubkey key_id key v =
     (case map_of (peers_mem v) pubkey of
        None \<Rightarrow> v
      | Some record \<Rightarrow> snd (apply_key st io pubkey record key_id key False v))"

text \<open>A task whose sleep is over runs and is gone.\<close>

definition fire :: "vpn_settings \<Rightarrow> vpn_io \<Rightarrow> nat \<Rightarrow> vpn \<Rightarrow> vpn" where
  "fire st io i v =
     (case map_of (tasks v) i of
        None \<Rightarrow> v
      | Some (deadline, w) \<Rightarrow>
          if now_us io < deadline then v
          else let v1 = cancel_task (Some i) v
               in case w of
                    Due pubkey \<Rightarrow> run_due io pubkey v1
                  | Activate pubkey key_id key \<Rightarrow> run_activate st io pubkey key_id key v1)"

end
