(* ===== verification/WireGuard.thy ===== *)
theory WireGuard
  imports Crypto "HOL-Library.AList"
begin

text \<open>
  \<open>src/qkd_ekm/vpn/wg.py\<close> and \<open>src/qkd_ekm/client/wgclient.py\<close>: the commands both sides run. The
  runner (\<open>subprocess.run\<close> in production) is a parameter: what it makes of a command may depend on the
  files and on every command before. So is the file system: every file operation may fail with OSError,
  and a failing write may leave part of the text behind. A host is the files by path and the commands run
  so far with their standard input; directories, file modes and log lines are not modelled.
\<close>

section \<open>Running a command\<close>

record host =
  files :: "(string \<times> string) list"
  commands :: "(string list \<times> string option) list"

record completed =
  returncode :: int
  out_text :: string
  err_text :: string

type_synonym runner = "string list \<Rightarrow> string option \<Rightarrow> host \<Rightarrow> completed py"

type_synonym 'a on_host = "'a py \<times> host"

fun join_with :: "string \<Rightarrow> string list \<Rightarrow> string" where
  "join_with sep [] = []"
| "join_with sep [x] = x"
| "join_with sep (x # xs) = x @ sep @ join_with sep xs"

definition wg_run :: "runner \<Rightarrow> string list \<Rightarrow> string option \<Rightarrow> bool \<Rightarrow> host \<Rightarrow> completed on_host" where
  "wg_run runner args stdin check h =
     ((case runner args stdin h of
         Inl e \<Rightarrow> Inl e
       | Inr res \<Rightarrow>
           if check \<and> returncode res \<noteq> 0
           then Inl (RuntimeError (join_with '' '' args @ '': '' @
                  strip (if err_text res = [] then out_text res else err_text res)))
           else Inr res),
      h\<lparr>commands := commands h @ [(args, stdin)]\<rparr>)"

section \<open>Files\<close>

text \<open>The operations on files. \<open>OpenTruncate\<close> is \<open>os.open\<close> with \<open>O_CREAT | O_TRUNC\<close>; \<open>MakeTemp\<close> is \<open>mkstemp\<close> with the
  name it chose.\<close>

datatype file_op =
    MakeDirs string
  | MakeParent string
  | MakeTemp string
  | Chmod string
  | OpenTruncate string
  | WriteText string
  | ReadText string
  | Unlink string

text \<open>What the file system answers: None is success, Some \<open>n\<close> is OSError; of a write, \<open>n\<close> characters did
  not reach the file by then.\<close>

type_synonym disk = "file_op \<Rightarrow> host \<Rightarrow> nat option"

definition on_disk :: "disk \<Rightarrow> file_op \<Rightarrow> (host \<Rightarrow> host) \<Rightarrow> host \<Rightarrow> unit on_host" where
  "on_disk disk op f h = (case disk op h of None \<Rightarrow> (Inr (), f h) | Some n \<Rightarrow> (Inl OSError, h))"

definition put_file :: "string \<Rightarrow> string \<Rightarrow> host \<Rightarrow> host" where
  "put_file path text h = h\<lparr>files := AList.update path text (files h)\<rparr>"

definition drop_file :: "string \<Rightarrow> host \<Rightarrow> host" where
  "drop_file path h = h\<lparr>files := AList.delete path (files h)\<rparr>"

definition write_text :: "disk \<Rightarrow> string \<Rightarrow> string \<Rightarrow> host \<Rightarrow> unit on_host" where
  "write_text disk path text h =
     (case disk (WriteText path) h of
        None \<Rightarrow> (Inr (), put_file path text h)
      | Some n \<Rightarrow> (Inl OSError, put_file path (take (length text - n) text) h))"

text \<open>One step after another; the first error ends the sequence.\<close>

definition then_do :: "'a on_host \<Rightarrow> ('a \<Rightarrow> host \<Rightarrow> 'b on_host) \<Rightarrow> 'b on_host" where
  "then_do m f = (case m of (Inl e, h) \<Rightarrow> (Inl e, h) | (Inr x, h) \<Rightarrow> f x h)"

lemma then_do_simps [simp]: "then_do (Inl e, h) f = (Inl e, h)" "then_do (Inr x, h) f = f x h"
  by (simp_all add: then_do_def)

lemma wg_run_commands [simp]:
  "commands (snd (wg_run runner args stdin check h)) = commands h @ [(args, stdin)]"
  "files (snd (wg_run runner args stdin check h)) = files h"
  by (simp_all add: wg_run_def)

section \<open>The server's side: \<open>WG\<close>\<close>

definition wg_exists :: "runner \<Rightarrow> string \<Rightarrow> host \<Rightarrow> bool on_host" where
  "wg_exists runner iface h =
     then_do (wg_run runner [''ip'', ''link'', ''show'', iface] None False h) (\<lambda>r h. (Inr (returncode r = 0), h))"

definition ensure_interface :: "runner \<Rightarrow> string \<Rightarrow> string \<Rightarrow> int \<Rightarrow> string \<Rightarrow> host \<Rightarrow> unit on_host" where
  "ensure_interface runner iface private_key_file listen_port address h =
     then_do (wg_exists runner iface h) (\<lambda>there h.
     then_do (if there then (Inr (), h)
              else then_do (wg_run runner [''ip'', ''link'', ''add'', iface, ''type'', ''wireguard''] None True h)
                     (\<lambda>_ h. (Inr (), h))) (\<lambda>_ h.
     then_do (wg_run runner [''wg'', ''set'', iface, ''listen-port'', str_int listen_port,
                ''private-key'', private_key_file] None True h) (\<lambda>_ h.
     then_do (wg_run runner [''ip'', ''addr'', ''add'', address, ''dev'', iface] None False h) (\<lambda>_ h.
     then_do (wg_run runner [''ip'', ''link'', ''set'', iface, ''up''] None True h) (\<lambda>_ h. (Inr (), h))))))"

definition wg_show_public_key :: "runner \<Rightarrow> string \<Rightarrow> host \<Rightarrow> string on_host" where
  "wg_show_public_key runner iface h =
     then_do (wg_run runner [''wg'', ''show'', iface, ''public-key''] None True h) (\<lambda>r h. (Inr (strip (out_text r)), h))"

text \<open>\<open>path\<close> is the name \<open>mkstemp\<close> chose. The \<open>try\<close> begins once the file exists; the \<open>finally\<close> runs whatever
  happened in it, and an error of its own replaces the result.\<close>

definition with_psk_file :: "disk \<Rightarrow> string \<Rightarrow> bytes \<Rightarrow> (host \<Rightarrow> unit on_host) \<Rightarrow> host \<Rightarrow> unit on_host" where
  "with_psk_file disk path psk body h =
     then_do (on_disk disk (MakeTemp path) (put_file path []) h) (\<lambda>_ h.
       case then_do (on_disk disk (Chmod path) id h) (\<lambda>_ h. then_do (write_text disk path (b64e psk) h) (\<lambda>_ h. body h)) of
         (r, h) \<Rightarrow>
           (case on_disk disk (Unlink path) (drop_file path) h of
              (Inl e, h) \<Rightarrow> (Inl e, h)
            | (Inr _, h) \<Rightarrow> (r, h)))"

definition set_peer ::
  "disk \<Rightarrow> runner \<Rightarrow> string \<Rightarrow> string \<Rightarrow> string \<Rightarrow> bytes \<Rightarrow> string \<Rightarrow> host \<Rightarrow> unit on_host" where
  "set_peer disk runner iface path pubkey psk allowed h =
     with_psk_file disk path psk
       (\<lambda>h. then_do (wg_run runner [''wg'', ''set'', iface, ''peer'', pubkey, ''preshared-key'', path,
                       ''allowed-ips'', allowed] None True h) (\<lambda>_ h. (Inr (), h))) h"

definition remove_peer :: "runner \<Rightarrow> string \<Rightarrow> string \<Rightarrow> host \<Rightarrow> unit on_host" where
  "remove_peer runner iface pubkey h =
     then_do (wg_run runner [''wg'', ''set'', iface, ''peer'', pubkey, ''remove''] None True h) (\<lambda>_ h. (Inr (), h))"

definition wg_show :: "runner \<Rightarrow> string \<Rightarrow> host \<Rightarrow> string on_host" where
  "wg_show runner iface h =
     then_do (wg_run runner [''wg'', ''show'', iface] None True h) (\<lambda>r h. (Inr (strip (out_text r)), h))"

definition ensure_ip_forward :: "runner \<Rightarrow> host \<Rightarrow> unit on_host" where
  "ensure_ip_forward runner h =
     then_do (wg_run runner [''sysctl'', ''-w'', ''net.ipv4.ip_forward=1''] None True h) (\<lambda>_ h. (Inr (), h))"

text \<open>\<open>s.split()\<close>: the words between white space.\<close>

fun words_from :: "string \<Rightarrow> string \<Rightarrow> string list" where
  "words_from w [] = (if w = [] then [] else [w])"
| "words_from w (c # cs) =
     (if is_space c then (if w = [] then words_from [] cs else w # words_from [] cs)
      else words_from (w @ [c]) cs)"

definition default_route_iface :: "runner \<Rightarrow> host \<Rightarrow> string on_host" where
  "default_route_iface runner h =
     then_do (wg_run runner [''ip'', ''-o'', ''-4'', ''route'', ''show'', ''to'', ''default''] None True h) (\<lambda>r h.
       ((case dropWhile (\<lambda>w. w \<noteq> ''dev'') (words_from [] (out_text r)) of
           [] \<Rightarrow> Inl ValueError
         | [d] \<Rightarrow> Inl IndexError
         | d # iface # rest \<Rightarrow> Inr iface), h))"

definition ensure_masquerade :: "runner \<Rightarrow> string \<Rightarrow> host \<Rightarrow> unit on_host" where
  "ensure_masquerade runner tunnel h =
     then_do (default_route_iface runner h) (\<lambda>uplink h.
       let rule = [''POSTROUTING'', ''-s'', tunnel, ''-o'', uplink, ''-j'', ''MASQUERADE'']
       in then_do (wg_run runner ([''iptables'', ''-t'', ''nat'', ''-C''] @ rule) None False h) (\<lambda>r h.
            if returncode r \<noteq> 0
            then then_do (wg_run runner ([''iptables'', ''-t'', ''nat'', ''-A''] @ rule) None True h) (\<lambda>_ h. (Inr (), h))
            else (Inr (), h)))"

definition ensure_private_key :: "disk \<Rightarrow> runner \<Rightarrow> string \<Rightarrow> host \<Rightarrow> string on_host" where
  "ensure_private_key disk runner path h =
     (if map_of (files h) path \<noteq> None then (Inr path, h)
      else then_do (on_disk disk (MakeParent path) id h) (\<lambda>_ h.
        then_do (wg_run runner [''wg'', ''genkey''] None False h) (\<lambda>r h.
        let key = strip (out_text r)
        in if returncode r \<noteq> 0 \<or> key = []
           then (Inl (RuntimeError (''wg genkey failed: '' @ strip (err_text r))), h)
           else then_do (on_disk disk (OpenTruncate path) (put_file path []) h) (\<lambda>_ h.
             then_do (write_text disk path (key @ [CHR 0x0A]) h) (\<lambda>_ h. (Inr path, h))))))"

section \<open>The client's side: \<open>WGClient\<close>\<close>

definition genkey :: "runner \<Rightarrow> host \<Rightarrow> (string \<times> string) on_host" where
  "genkey runner h =
     then_do (wg_run runner [''wg'', ''genkey''] None True h) (\<lambda>r h.
       let priv = strip (out_text r)
       in then_do (wg_run runner [''wg'', ''pubkey''] (Some priv) True h) (\<lambda>r h. (Inr (priv, strip (out_text r)), h)))"

record wg_conf =
  c_priv :: string
  c_address :: string
  c_server_pub :: string
  c_psk :: string
  c_endpoint :: string
  c_allowed_ips :: string
  c_keepalive :: int

text \<open>\<open>_CONF_TEMPLATE.format(...)\<close>, line by line.\<close>

definition conf_lines :: "wg_conf \<Rightarrow> string list" where
  "conf_lines c =
     [''[Interface]'', ''PrivateKey = '' @ c_priv c, ''Address = '' @ c_address c, [],
      ''[Peer]'', ''PublicKey = '' @ c_server_pub c, ''PresharedKey = '' @ c_psk c,
      ''Endpoint = '' @ c_endpoint c, ''AllowedIPs = '' @ c_allowed_ips c,
      ''PersistentKeepalive = '' @ str_int (c_keepalive c)]"

definition conf_text :: "wg_conf \<Rightarrow> string" where
  "conf_text c = concat (map (\<lambda>l. l @ [CHR 0x0A]) (conf_lines c))"

definition write_conf :: "disk \<Rightarrow> string \<Rightarrow> wg_conf \<Rightarrow> host \<Rightarrow> unit on_host" where
  "write_conf disk path c h =
     then_do (on_disk disk (MakeParent path) id h) (\<lambda>_ h.
     then_do (on_disk disk (OpenTruncate path) (put_file path []) h) (\<lambda>_ h.
     write_text disk path (conf_text c) h))"

definition wg_up :: "runner \<Rightarrow> string \<Rightarrow> host \<Rightarrow> unit on_host" where
  "wg_up runner conf h = then_do (wg_run runner [''wg-quick'', ''up'', conf] None True h) (\<lambda>_ h. (Inr (), h))"

definition wg_down :: "runner \<Rightarrow> string \<Rightarrow> host \<Rightarrow> unit on_host" where
  "wg_down runner conf h = then_do (wg_run runner [''wg-quick'', ''down'', conf] None True h) (\<lambda>_ h. (Inr (), h))"

definition set_psk ::
  "disk \<Rightarrow> runner \<Rightarrow> string \<Rightarrow> string \<Rightarrow> string \<Rightarrow> bytes \<Rightarrow> host \<Rightarrow> unit on_host" where
  "set_psk disk runner iface path server_pub psk h =
     with_psk_file disk path psk
       (\<lambda>h. then_do (wg_run runner [''wg'', ''set'', iface, ''peer'', server_pub, ''preshared-key'', path] None True h)
              (\<lambda>_ h. (Inr (), h))) h"

definition client_show :: "runner \<Rightarrow> string \<Rightarrow> host \<Rightarrow> string on_host" where
  "client_show runner iface h =
     then_do (wg_run runner [''wg'', ''show'', iface] None False h) (\<lambda>r h. (Inr (strip (out_text r)), h))"

section \<open>What a key does not touch\<close>

lemma then_do_last [simp]:
  "commands (snd (then_do m (\<lambda>_ h. (Inr x, h)))) = commands (snd m)" "files (snd (then_do m (\<lambda>_ h. (Inr x, h)))) = files (snd m)"
  by (cases m; cases "fst m"; auto)+

lemma delete_update: "AList.delete k (AList.update k v xs) = AList.delete k xs"
  by (induction xs) auto

lemma split_on_lines:
  assumes "\<forall>l \<in> set ls. c \<notin> set l"
  shows "split_on c (concat (map (\<lambda>l. l @ [c]) ls)) = ls @ [[]]"
  using assms
proof (induction ls)
  case (Cons l ls)
  then show ?case using split_on_prefix [of c l "concat (map (\<lambda>l. l @ [c]) ls)"] by simp
qed simp

lemma on_disk_simps [simp]:
  "on_disk disk op f h = (Inr u, h') \<longleftrightarrow> disk op h = None \<and> h' = f h"
  "commands (put_file path t h) = commands h" "commands (drop_file path h) = commands h"
  "map_of (files (put_file path t h)) = (map_of (files h))(path \<mapsto> t)"
  by (auto simp: on_disk_def put_file_def drop_file_def update_conv' split: option.splits)

lemma then_do_Inr:
  "then_do m f = (Inr y, h') \<longleftrightarrow> (\<exists>x h. m = (Inr x, h) \<and> f x h = (Inr y, h'))"
  by (cases m; cases "fst m") (auto simp: then_do_def)

lemma write_text_Inr: "write_text disk path t h = (Inr u, h') \<longleftrightarrow> disk (WriteText path) h = None \<and> h' = put_file path t h"
  by (auto simp: write_text_def split: option.splits)

lemma wg_run_Inr: "wg_run runner args stdin check h = (Inr r, h') \<Longrightarrow> commands h' = commands h @ [(args, stdin)] \<and> files h' = files h"
  by (auto simp: wg_run_def split: sum.splits)

lemma write_conf_Inr:
  "write_conf disk path c h = (Inr u, h') \<Longrightarrow>
   map_of (files h') = (map_of (files h))(path \<mapsto> conf_text c) \<and> commands h' = commands h"
  by (auto simp: write_conf_def then_do_Inr write_text_Inr)

lemma set_psk_Inr:
  assumes "set_psk disk runner iface path pubkey psk h = (Inr u, h')"
  shows "commands h' = commands h @ [([''wg'', ''set'', iface, ''peer'', pubkey, ''preshared-key'', path], None)]"
proof -
  let ?args = "[''wg'', ''set'', iface, ''peer'', pubkey, ''preshared-key'', path]"
  let ?inner = "then_do (on_disk disk (Chmod path) id (put_file path [] h)) (\<lambda>_ h. then_do (write_text disk path (b64e psk) h) (\<lambda>_ h.
        then_do (wg_run runner ?args None True h) (\<lambda>_ h. (Inr (), h))))"
  obtain r h2 where inner: "?inner = (r, h2)" by (cases ?inner)
  with assms have "(case on_disk disk (Unlink path) (drop_file path) h2 of (Inl e, h) \<Rightarrow> (Inl e, h) | (Inr _, h) \<Rightarrow> (r, h)) = (Inr u, h')"
    by (auto simp: set_psk_def with_psk_file_def then_do_Inr)
  then have "r = Inr ()" "h' = drop_file path h2"
    by (auto simp: on_disk_def split: option.splits)
  with inner show ?thesis by (auto simp: then_do_Inr write_text_Inr dest!: wg_run_Inr)
qed

text \<open>What \<open>wg-quick\<close> finds under a name in a configuration file.\<close>

definition conf_field :: "string \<Rightarrow> string \<Rightarrow> string option" where
  "conf_field name text =
     map_option (\<lambda>l. removeprefix l (name @ '' = ''))
       (find (\<lambda>l. startswith l (name @ '' = '')) (split_on (CHR 0x0A) text))"

lemma str_int_no_newline: "CHR 0x0A \<notin> set (str_int i)"
proof -
  have "CHR 0x0A \<notin> set (str_nat n)" for n
  proof (induction n rule: str_nat.induct)
    case (1 n)
    have "digit_char d \<noteq> CHR 0x0A" if "d < 10" for d
      using of_char_digit [OF that] by auto
    then show ?case using 1 by (subst str_nat.simps) (auto simp: eq_commute [of "CHR 0x0A"])
  qed
  then show ?thesis by (simp add: str_int_def)
qed

section \<open>Properties\<close>

text \<open>What handing a pre-shared key to the one command \<open>args\<close> may come to, from \<open>h\<close> to the result \<open>r\<close> on \<open>h2\<close>:
  either a file operation failed, no command ran and the result is OSError, or the command ran once, on a host that differs from
  \<open>h\<close> only in the temporary file, which holds the whole key in base64; its result is the result, unless
  deleting the file failed. The temporary file is gone, unless deleting it failed.\<close>

definition handed_over ::
  "disk \<Rightarrow> runner \<Rightarrow> string list \<Rightarrow> string \<Rightarrow> bytes \<Rightarrow> host \<Rightarrow> unit py \<Rightarrow> host \<Rightarrow> bool" where
  "handed_over disk runner args path psk h r h2 \<longleftrightarrow>
     (commands h2 = commands h \<and> r = Inl OSError \<and> (\<exists>op h3. disk op h3 \<noteq> None) \<or>
      (\<exists>h1. map_of (files h1) = (map_of (files h))(path \<mapsto> b64e psk) \<and> commands h1 = commands h \<and>
         commands h2 = commands h @ [(args, None)] \<and>
         (r = map_sum id (\<lambda>_. ()) (fst (wg_run runner args None True h1)) \<or>
          r = Inl OSError \<and> (\<exists>h3. disk (Unlink path) h3 \<noteq> None)))) \<and>
     (map_of (files h2) = map_of (files h) \<or> r = Inl OSError \<and> (\<exists>h3. disk (Unlink path) h3 \<noteq> None))"

lemma with_psk_file_hands_over:
  assumes "map_of (files h) path = None"
    and "with_psk_file disk path psk (\<lambda>h. then_do (wg_run runner args None True h) (\<lambda>_ h. (Inr (), h))) h = (r, h2)"
  shows "handed_over disk runner args path psk h r h2"
proof (cases "disk (MakeTemp path) h")
  case (Some n)
  with assms(2) show ?thesis by (auto simp: with_psk_file_def on_disk_def handed_over_def)
next
  case None
  let ?h0 = "put_file path [] h"
  let ?body = "\<lambda>h. then_do (wg_run runner args None True h) (\<lambda>_ h. (Inr (), h))"
  obtain r4 h4 where inner: "then_do (on_disk disk (Chmod path) id ?h0)
      (\<lambda>_ h. then_do (write_text disk path (b64e psk) h) (\<lambda>_ h. ?body h)) = (r4, h4)" by fastforce
  have end4: "if disk (Unlink path) h4 = None then r = r4 \<and> h2 = drop_file path h4 else r = Inl OSError \<and> h2 = h4"
    using assms(2) None inner by (auto simp: with_psk_file_def on_disk_def split: option.splits)
  have drop: "map_of (files (drop_file path h')) = map_of (files h)"
    if "map_of (files h') = (map_of (files h))(path := v)" for h' v
    using that assms(1) by (auto simp: drop_file_def delete_conv' fun_eq_iff)
  have put: "map_of (files (put_file path t h')) = (map_of (files h))(path \<mapsto> t)"
    if "map_of (files h') = (map_of (files h))(path := v)" for t h' v
    using that by (simp add: put_file_def update_conv')
  have h0: "map_of (files ?h0) = (map_of (files h))(path \<mapsto> [])" "commands ?h0 = commands h"
    by (simp_all add: put_file_def update_conv')
  let ?done = "\<exists>h1. map_of (files h1) = (map_of (files h))(path \<mapsto> b64e psk) \<and> commands h1 = commands h \<and>
      commands h4 = commands h @ [(args, None)] \<and> r4 = map_sum id (\<lambda>_. ()) (fst (wg_run runner args None True h1))"
  have mid: "(commands h4 = commands h \<and> r4 = Inl OSError \<and> (\<exists>op h3. disk op h3 \<noteq> None) \<or> ?done) \<and> (\<exists>t. map_of (files h4) = (map_of (files h))(path \<mapsto> t))"
  proof (cases "disk (Chmod path) ?h0 = None \<and> disk (WriteText path) ?h0 = None")
    case True
    let ?h1 = "put_file path (b64e psk) ?h0"
    have run: "?body ?h1 = (r4, h4)" using inner True by (simp add: on_disk_def write_text_def)
    obtain w h5 where w: "wg_run runner args None True ?h1 = (w, h5)" by fastforce
    have "r4 = map_sum id (\<lambda>_. ()) w" "h4 = h5" using run w by (cases w; simp)+
    moreover have "commands h5 = commands h @ [(args, None)]" "files h5 = files ?h1"
      using wg_run_commands [of runner args None True ?h1, unfolded w snd_conv] h0(2) by (simp_all add: put_file_def)
    moreover have "map_of (files ?h1) = (map_of (files h))(path \<mapsto> b64e psk)" "commands ?h1 = commands h"
      using put [OF h0(1)] h0(2) by (simp_all add: put_file_def)
    moreover have "map_of (files h4) = map_of (files ?h1)" using calculation(2,4) by simp
    ultimately have ?done by (intro exI [of _ ?h1]) (simp add: w)
    then show ?thesis using \<open>map_of (files h4) = map_of (files ?h1)\<close> \<open>map_of (files ?h1) = _\<close> by metis
  next
    case False
    then have "r4 = Inl OSError \<and> (h4 = ?h0 \<or> (\<exists>t. h4 = put_file path t ?h0))"
      using inner by (cases "disk (Chmod path) ?h0") (auto simp: on_disk_def write_text_def)
    moreover have "\<exists>op h3. disk op h3 \<noteq> None" using False by blast
    ultimately show ?thesis using h0 put [OF h0(1)] by (auto simp: put_file_def)
  qed
  show ?thesis
  proof (cases "disk (Unlink path) h4")
    case None
    then have "r = r4" "commands h2 = commands h4" "map_of (files h2) = map_of (files h)"
      using end4 drop mid by (auto simp: drop_file_def)
    then show ?thesis using mid by (auto simp: handed_over_def)
  next
    case (Some n)
    then show ?thesis using end4 mid by (auto simp: handed_over_def)
  qed
qed

text \<open>Property C33. A pre-shared key reaches \<open>wg\<close> through a file and through nothing else, on either side: when the
  command runs, the file that it names holds exactly the key in base64 and every other file is as before;
  the command line and its input are the same for every key; afterwards no file is left or changed, whatever
  the command does, unless deleting the file fails, which is reported.\<close>

theorem psk_leaves_no_trace:
  assumes "map_of (files h) path = None"
    and "set_peer disk runner iface path pubkey psk allowed h = (r1, h1)"
    and "set_psk disk runner iface path pubkey psk h = (r2, h2)"
  shows "handed_over disk runner [''wg'', ''set'', iface, ''peer'', pubkey, ''preshared-key'', path, ''allowed-ips'', allowed]
      path psk h r1 h1 \<and>
    handed_over disk runner [''wg'', ''set'', iface, ''peer'', pubkey, ''preshared-key'', path] path psk h r2 h2"
  using assms by (simp add: set_peer_def set_psk_def with_psk_file_hands_over)

text \<open>A file system that never fails.\<close>

definition good_disk :: disk where
  "good_disk = (\<lambda>op h. None)"

theorem psk_leaves_no_trace_witness:
  "\<exists>r1 h1 r2 h2.
     handed_over good_disk (\<lambda>args stdin h. Inl OSError)
       [''wg'', ''set'', ''wg0'', ''peer'', ''p'', ''preshared-key'', ''/t'', ''allowed-ips'', ''a''] ''/t'' [1] \<lparr> files = [], commands = [] \<rparr> r1 h1 \<and>
     handed_over good_disk (\<lambda>args stdin h. Inl OSError)
       [''wg'', ''set'', ''wg0'', ''peer'', ''p'', ''preshared-key'', ''/t''] ''/t'' [1] \<lparr> files = [], commands = [] \<rparr> r2 h2"
proof -
  let ?h = "\<lparr> files = [], commands = [] \<rparr>" and ?run = "\<lambda>args stdin h. Inl OSError"
  have "map_of (files ?h) ''/t'' = None" by simp
  from psk_leaves_no_trace [OF this prod.collapse [symmetric] prod.collapse [symmetric],
      where disk = good_disk and runner = ?run and iface = "''wg0''" and pubkey = "''p''" and psk = "[1]" and allowed = "''a''"]
  show ?thesis by blast
qed

text \<open>The configuration file holds what was put in: with no line break in a field, \<open>wg-quick\<close>
  reads back the private key, the pre-shared key, the server's key, the endpoint and the addresses.\<close>

theorem conf_reads_back:
  assumes "CHR 0x0A \<notin> set (c_priv c @ c_address c @ c_server_pub c @ c_psk c @ c_endpoint c @ c_allowed_ips c)"
  shows "conf_field ''PrivateKey'' (conf_text c) = Some (c_priv c) \<and>
    conf_field ''PresharedKey'' (conf_text c) = Some (c_psk c) \<and>
    conf_field ''PublicKey'' (conf_text c) = Some (c_server_pub c) \<and>
    conf_field ''Endpoint'' (conf_text c) = Some (c_endpoint c) \<and>
    conf_field ''Address'' (conf_text c) = Some (c_address c) \<and>
    conf_field ''AllowedIPs'' (conf_text c) = Some (c_allowed_ips c)"
proof -
  have "\<forall>l \<in> set (conf_lines c). CHR 0x0A \<notin> set l"
    using assms by (simp add: conf_lines_def str_int_no_newline)
  then have "split_on (CHR 0x0A) (conf_text c) = conf_lines c @ [[]]"
    unfolding conf_text_def by (rule split_on_lines)
  then show ?thesis
    by (simp add: conf_field_def conf_lines_def startswith_def removeprefix_def)
qed

theorem conf_reads_back_witness:
  "conf_field ''PresharedKey'' (conf_text \<lparr> c_priv = ''a'', c_address = ''10.20.0.2/32'', c_server_pub = ''b'', c_psk = ''c'',
     c_endpoint = ''vpn:51819'', c_allowed_ips = ''10.20.0.0/24'', c_keepalive = 25 \<rparr>) = Some ''c''"
  using conf_reads_back [of "\<lparr> c_priv = ''a'', c_address = ''10.20.0.2/32'', c_server_pub = ''b'', c_psk = ''c'',
     c_endpoint = ''vpn:51819'', c_allowed_ips = ''10.20.0.0/24'', c_keepalive = 25 \<rparr>"] by simp

end
