(* ===== verification/ClientCli.thy ===== *)
theory ClientCli
  imports VpnApp WireGuard
begin

text \<open>
  \<open>src/qkd_ekm/client/cli.py\<close>: the commands of the client. The three services it talks to are
  parameters that thread their own state: the control API (with the routes and answers of \<open>VpnApp\<close>;
  None is a transport error), the KME and the upload server. The client's own state is its host (the
  files and the commands run), the stored session, the time, and when each command was run; sleeping
  lets exactly the time asked for pass. Every file operation may fail. Option parsing, log lines and what
  is printed are not modelled.
\<close>

section \<open>State and parameters\<close>

record client_cfg =
  id_token_opt :: "string option"
  id_token_cmd :: string
  id_token_argv :: "string list"
  state_dir :: string
  my_qkd :: string
  peer_qkd :: string

record session =
  s_public_key :: string
  s_server_public_key :: string
  s_endpoint :: string
  s_client_ip :: string
  s_preshared_key_id :: string

text \<open>\<open>session.json\<close>: absent, a session, or the text that a failed write left, which is no JSON.\<close>

datatype session_file = NoSession | Stored session | Torn

record 'w net =
  control :: "string \<Rightarrow> vpn_route \<Rightarrow> 'w \<Rightarrow> vpn_answer http option \<times> 'w"
  qkd2 :: "request \<Rightarrow> 'w \<Rightarrow> reply \<times> 'w"
  file_key_call :: "string \<Rightarrow> 'w \<Rightarrow> string http option \<times> 'w"
  upload_call :: "string \<Rightarrow> string \<Rightarrow> bytes \<Rightarrow> 'w \<Rightarrow> string http option \<times> 'w"

record 'w client =
  c_host :: host
  c_session :: session_file
  c_now :: int
  c_ran :: "(int \<times> string list \<times> string option) list"
  c_world :: 'w

text \<open>What the outside gives one command: the metadata server's text or the error of asking it, the name of
  a temporary file, a nonce, what \<open>subprocess.run\<close> makes of a command, and what the file system makes of
  an operation. \<open>id_token_argv\<close> is \<open>shlex.split\<close> of \<open>id_token_cmd\<close>.\<close>

record cli_io =
  metadata :: "string + string"
  psk_path :: string
  cli_nonce :: bytes
  run_command :: runner
  disk_ops :: disk

type_synonym ('a, 'w) cmd = "'w client \<Rightarrow> 'a py \<times> 'w client"

definition bind_cmd :: "('a, 'w) cmd \<Rightarrow> ('a \<Rightarrow> ('b, 'w) cmd) \<Rightarrow> ('b, 'w) cmd" where
  "bind_cmd m f = (\<lambda>s. case m s of (Inl e, s') \<Rightarrow> (Inl e, s') | (Inr x, s') \<Rightarrow> f x s')"

text \<open>A step on the host; the commands it runs are stamped with the time.\<close>

definition stamped :: "'w client \<Rightarrow> host \<Rightarrow> (int \<times> string list \<times> string option) list" where
  "stamped s h = map (Pair (c_now s)) (drop (length (commands (c_host s))) (commands h))"

definition on_host :: "(host \<Rightarrow> 'a on_host) \<Rightarrow> ('a, 'w) cmd" where
  "on_host f s =
     (case f (c_host s) of (r, h) \<Rightarrow> (r, s\<lparr>c_host := h, c_ran := c_ran s @ stamped s h\<rparr>))"

definition on_world :: "('w \<Rightarrow> 'a py \<times> 'w) \<Rightarrow> ('a, 'w) cmd" where
  "on_world f s = (case f (c_world s) of (r, w) \<Rightarrow> (r, s\<lparr>c_world := w\<rparr>))"

definition HTTPError :: py_error where
  "HTTPError = OtherError ''HTTPError''"

text \<open>\<open>resp.raise_for_status()\<close> and the decoded body, for an answer of one of the services.\<close>

definition answered :: "'a http option \<Rightarrow> 'a py" where
  "answered a = (case a of Some (Inr x) \<Rightarrow> Inr x | _ \<Rightarrow> Inl HTTPError)"

section \<open>Helpers\<close>

definition no_identity_token :: "client_cfg \<Rightarrow> string \<Rightarrow> string \<Rightarrow> py_error" where
  "no_identity_token cfg metadata_error stderr =
     RuntimeError (''no identity token: the metadata server is unreachable ('' @ metadata_error @
       '') and `'' @ id_token_cmd cfg @ ''` failed ('' @ stderr @ '')'')"

definition id_token :: "client_cfg \<Rightarrow> cli_io \<Rightarrow> host \<Rightarrow> string on_host" where
  "id_token cfg io h =
     (case id_token_opt cfg of
        Some (c # cs) \<Rightarrow> (Inr (c # cs), h)
      | _ \<Rightarrow>
          (case metadata io of
             Inr token \<Rightarrow> (Inr (strip token), h)
           | Inl metadata_error \<Rightarrow>
               (case wg_run (run_command io) (id_token_argv cfg) None False h of
                  (Inr r, h') \<Rightarrow>
                    (if returncode r = 0 \<and> strip (out_text r) \<noteq> [] then Inr (strip (out_text r))
                     else Inl (no_identity_token cfg metadata_error (strip (err_text r))), h')
                | (Inl e, h') \<Rightarrow>
                    (if e = OSError then Inl (no_identity_token cfg metadata_error ''not executable'') else Inl e, h'))))"

definition fetch_key :: "client_cfg \<Rightarrow> 'w net \<Rightarrow> string \<Rightarrow> 'w \<Rightarrow> bytes py \<times> 'w" where
  "fetch_key cfg net key_id w =
     (case client_dec_keys (qkd2 net) (peer_qkd cfg) [key_id] w of
        (Inl e, w') \<Rightarrow> (Inl e, w')
      | (Inr [], w') \<Rightarrow> (Inl IndexError, w')
      | (Inr (k # ks), w') \<Rightarrow> (Inr (k_material k), w'))"

definition iface :: string where
  "iface = ''wgqkd''"

definition path_join :: "string \<Rightarrow> string \<Rightarrow> string" where
  "path_join a b =
     (if startswith b ''/'' then b
      else if a = [] \<or> last a = CHR ''/'' then a @ b else a @ CHR ''/'' # b)"

definition conf_path :: "client_cfg \<Rightarrow> string" where
  "conf_path cfg = path_join (state_dir cfg) (iface @ ''.conf'')"

definition session_path :: "client_cfg \<Rightarrow> string" where
  "session_path cfg = path_join (state_dir cfg) ''session.json''"

text \<open>\<open>_save_session\<close>: the directory, the open that truncates, and the write. A write that fails leaves the
  whole text only if the error came after its last character.\<close>

definition save_session :: "client_cfg \<Rightarrow> disk \<Rightarrow> session \<Rightarrow> (unit, 'w) cmd" where
  "save_session cfg disk x s =
     (if disk (MakeDirs (state_dir cfg)) (c_host s) \<noteq> None then (Inl OSError, s)
      else if disk (OpenTruncate (session_path cfg)) (c_host s) \<noteq> None then (Inl OSError, s)
      else case disk (WriteText (session_path cfg)) (c_host s) of
          None \<Rightarrow> (Inr (), s\<lparr>c_session := Stored x\<rparr>)
        | Some n \<Rightarrow> (Inl OSError, s\<lparr>c_session := (if n = 0 then Stored x else Torn)\<rparr>))"

text \<open>\<open>_read_session\<close>: None without a file; a torn file is a \<open>JSONDecodeError\<close>, which is a ValueError.\<close>

definition read_session :: "client_cfg \<Rightarrow> disk \<Rightarrow> (session option, 'w) cmd" where
  "read_session cfg disk s =
     (case c_session s of
        NoSession \<Rightarrow> (Inr None, s)
      | f \<Rightarrow>
          if disk (ReadText (session_path cfg)) (c_host s) \<noteq> None then (Inl OSError, s)
          else (case f of Stored x \<Rightarrow> Inr (Some x) | _ \<Rightarrow> Inl ValueError, s))"

definition require_session :: "client_cfg \<Rightarrow> disk \<Rightarrow> (session, 'w) cmd" where
  "require_session cfg disk =
     bind_cmd (read_session cfg disk) (\<lambda>found s.
       (case found of
          None \<Rightarrow> Inl (RuntimeError (''no session at '' @ session_path cfg @ '': run `connect` first''))
        | Some x \<Rightarrow> Inr x, s))"

text \<open>A POST to the control API with the identity token.\<close>

definition control_post ::
  "client_cfg \<Rightarrow> cli_io \<Rightarrow> 'w net \<Rightarrow> vpn_route \<Rightarrow> (vpn_answer, 'w) cmd" where
  "control_post cfg io net r =
     bind_cmd (on_host (id_token cfg io)) (\<lambda>token.
       on_world (\<lambda>w. case control net (''Bearer '' @ token) r w of (a, w') \<Rightarrow> (answered a, w')))"

section \<open>The commands\<close>

definition connect_conf :: "string \<Rightarrow> start_reply \<Rightarrow> bytes \<Rightarrow> wg_conf" where
  "connect_conf priv body psk =
     \<lparr> c_priv = priv, c_address = sr_client_ip body @ ''/32'', c_server_pub = sr_server_public_key body,
       c_psk = b64e psk, c_endpoint = sr_endpoint body, c_allowed_ips = sr_allowed_ips body, c_keepalive = 25 \<rparr>"

definition connect_session :: "string \<Rightarrow> start_reply \<Rightarrow> session" where
  "connect_session pub body =
     \<lparr> s_public_key = pub, s_server_public_key = sr_server_public_key body, s_endpoint = sr_endpoint body,
       s_client_ip = sr_client_ip body, s_preshared_key_id = sr_preshared_key_id body \<rparr>"

text \<open>\<open>resp.json()\<close> as the fields the command reads; an answer of another route has none of them.\<close>

definition started :: "vpn_answer \<Rightarrow> (start_reply, 'w) cmd" where
  "started a s = (case a of Started body \<Rightarrow> Inr body | _ \<Rightarrow> Inl KeyError, s)"

definition refreshing :: "vpn_answer \<Rightarrow> (refresh_reply, 'w) cmd" where
  "refreshing a s = (case a of Refreshing body \<Rightarrow> Inr body | _ \<Rightarrow> Inl KeyError, s)"

definition connect :: "client_cfg \<Rightarrow> cli_io \<Rightarrow> 'w net \<Rightarrow> (unit, 'w) cmd" where
  "connect cfg io net =
     bind_cmd (on_host (genkey (run_command io))) (\<lambda>(priv, pub).
     bind_cmd (on_host (on_disk (disk_ops io) (MakeDirs (state_dir cfg)) id)) (\<lambda>_.
     bind_cmd (control_post cfg io net
       (Start (JObj [(''qkd_id'', JStr (my_qkd cfg)), (''public_key'', JStr pub)]))) (\<lambda>answer.
     bind_cmd (started answer) (\<lambda>body.
     bind_cmd (on_world (fetch_key cfg net (sr_preshared_key_id body))) (\<lambda>psk.
     bind_cmd (on_host (write_conf (disk_ops io) (conf_path cfg) (connect_conf priv body psk))) (\<lambda>_.
     bind_cmd (on_host (wg_up (run_command io) (conf_path cfg))) (\<lambda>_.
     save_session cfg (disk_ops io) (connect_session pub body))))))))"

definition wait_until :: "int \<Rightarrow> (unit, 'w) cmd" where
  "wait_until effective s =
     (let delay = effective - c_now s in (Inr (), if delay > 0 then s\<lparr>c_now := c_now s + delay\<rparr> else s))"

definition refresh :: "client_cfg \<Rightarrow> cli_io \<Rightarrow> 'w net \<Rightarrow> (unit, 'w) cmd" where
  "refresh cfg io net =
     bind_cmd (require_session cfg (disk_ops io)) (\<lambda>sess.
     bind_cmd (control_post cfg io net (Refresh (JObj [(''public_key'', JStr (s_public_key sess))]))) (\<lambda>answer.
     bind_cmd (refreshing answer) (\<lambda>body.
     bind_cmd (on_world (fetch_key cfg net (rr_preshared_key_id body))) (\<lambda>psk.
     bind_cmd (wait_until (rr_effective_time body)) (\<lambda>_.
     bind_cmd (on_host (set_psk (disk_ops io) (run_command io) iface (psk_path io) (s_server_public_key sess) psk)) (\<lambda>_.
     save_session cfg (disk_ops io) (sess\<lparr>s_preshared_key_id := rr_preshared_key_id body\<rparr>)))))))"

definition cli_upload ::
  "aead \<Rightarrow> client_cfg \<Rightarrow> cli_io \<Rightarrow> 'w net \<Rightarrow> string \<Rightarrow> bytes \<Rightarrow> (string, 'w) cmd" where
  "cli_upload A cfg io net name content =
     bind_cmd (on_world (\<lambda>w. case file_key_call net (my_qkd cfg) w of (a, w') \<Rightarrow> (answered a, w'))) (\<lambda>key_id.
     bind_cmd (on_world (fetch_key cfg net key_id)) (\<lambda>key.
     bind_cmd (\<lambda>s. (aes_gcm_wrap A (cli_nonce io) key content (utf8 name), s)) (\<lambda>blob.
     on_world (\<lambda>w. case upload_call net key_id name blob w of (a, w') \<Rightarrow> (answered a, w')))))"

text \<open>The lines \<open>status\<close> prints.\<close>

definition client_status :: "client_cfg \<Rightarrow> cli_io \<Rightarrow> (string list, 'w) cmd" where
  "client_status cfg io =
     bind_cmd (on_host (client_show (run_command io) iface)) (\<lambda>shown.
     bind_cmd (read_session cfg (disk_ops io)) (\<lambda>found s.
       (Inr (shown #
        (case found of
           None \<Rightarrow> [''no session at '' @ session_path cfg]
         | Some x \<Rightarrow> [''endpoint: '' @ s_endpoint x, ''client ip: '' @ s_client_ip x,
                       ''preshared key id: '' @ s_preshared_key_id x])), s)))"

text \<open>The clean-up of \<open>disconnect\<close>: the configuration first, then the session, each only where it exists. A
  RuntimeError of \<open>wg-quick\<close> is ignored.\<close>

definition forget_conf :: "client_cfg \<Rightarrow> disk \<Rightarrow> (unit, 'w) cmd" where
  "forget_conf cfg disk =
     on_host (\<lambda>h. if map_of (files h) (conf_path cfg) = None then (Inr (), h)
                  else on_disk disk (Unlink (conf_path cfg)) (drop_file (conf_path cfg)) h)"

definition forget_session :: "client_cfg \<Rightarrow> disk \<Rightarrow> (unit, 'w) cmd" where
  "forget_session cfg disk s =
     (if c_session s = NoSession then (Inr (), s)
      else if disk (Unlink (session_path cfg)) (c_host s) \<noteq> None then (Inl OSError, s)
      else (Inr (), s\<lparr>c_session := NoSession\<rparr>))"

definition forget_keys :: "client_cfg \<Rightarrow> disk \<Rightarrow> (unit, 'w) cmd" where
  "forget_keys cfg disk = bind_cmd (forget_conf cfg disk) (\<lambda>_. forget_session cfg disk)"

definition is_runtime :: "py_error \<Rightarrow> bool" where
  "is_runtime e \<longleftrightarrow> (case e of RuntimeError m \<Rightarrow> True | _ \<Rightarrow> e = QkdUnavailable \<or> e = QkdError)"

definition disconnect :: "client_cfg \<Rightarrow> cli_io \<Rightarrow> (unit, 'w) cmd" where
  "disconnect cfg io s =
     (case on_host (wg_down (run_command io) (conf_path cfg)) s of
        (Inr _, s1) \<Rightarrow> forget_keys cfg (disk_ops io) s1
      | (Inl e, s1) \<Rightarrow> if is_runtime e then forget_keys cfg (disk_ops io) s1 else (Inl e, s1))"

text \<open>The exit code of \<open>run\<close>; None is an exception it does not catch.\<close>

definition exit_code :: "'a py \<Rightarrow> int option" where
  "exit_code r =
     (case r of
        Inr _ \<Rightarrow> Some 0
      | Inl e \<Rightarrow> if is_runtime e \<or> e = OSError \<or> e = HTTPError then Some 1 else None)"

datatype command =
    Connect
  | RefreshCommand
  | UploadFile string bytes
  | ClientStatus
  | Disconnect

definition run_client ::
  "aead \<Rightarrow> client_cfg \<Rightarrow> cli_io \<Rightarrow> 'w net \<Rightarrow> command \<Rightarrow> 'w client \<Rightarrow> int option \<times> 'w client" where
  "run_client A cfg io net c s =
     (case c of
        Connect \<Rightarrow> apfst exit_code (connect cfg io net s)
      | RefreshCommand \<Rightarrow> apfst exit_code (refresh cfg io net s)
      | UploadFile name content \<Rightarrow> apfst exit_code (cli_upload A cfg io net name content s)
      | ClientStatus \<Rightarrow> apfst exit_code (client_status cfg io s)
      | Disconnect \<Rightarrow> apfst exit_code (disconnect cfg io s))"

end
