(* ===== verification/ClientProperties.thy ===== *)
theory ClientProperties
  imports ClientCli
begin

text \<open>
  What the client's commands do to the host, the session and the time, for every behaviour of the
  control API, the KME and the commands run.
\<close>

section \<open>Sequences of steps\<close>

lemma bind_cmd_Inr:
  "bind_cmd m f s = (Inr y, s') \<longleftrightarrow> (\<exists>x s1. m s = (Inr x, s1) \<and> f x s1 = (Inr y, s'))"
  by (auto simp: bind_cmd_def split: prod.splits sum.splits)

lemma on_host_Inr:
  "on_host f s = (Inr y, s') \<longleftrightarrow> (\<exists>h. f (c_host s) = (Inr y, h) \<and> s' = s\<lparr>c_host := h, c_ran := c_ran s @ stamped s h\<rparr>)"
  by (auto simp: on_host_def split: prod.splits)

lemma on_world_Inr:
  "on_world f s = (Inr y, s') \<longleftrightarrow> (\<exists>w. f (c_world s) = (Inr y, w) \<and> s' = s\<lparr>c_world := w\<rparr>)"
  by (auto simp: on_world_def split: prod.splits)

lemma wg_up_files: "files (snd (wg_up runner conf h)) = files h"
  by (simp add: wg_up_def)

lemma wg_down_files: "files (snd (wg_down runner conf h)) = files h"
  by (simp add: wg_down_def)

lemma answered_Inr: "answered a = Inr x \<longleftrightarrow> a = Some (Inr x)"
  by (auto simp: answered_def split: option.splits sum.splits)

lemmas cmd_Inr = bind_cmd_Inr on_host_Inr on_world_Inr

text \<open>A property of the state that every step keeps, whatever its result.\<close>

definition keeps :: "('w client \<Rightarrow> 'b) \<Rightarrow> ('a, 'w) cmd \<Rightarrow> bool" where
  "keeps p m \<longleftrightarrow> (\<forall>s. p (snd (m s)) = p s)"

text \<open>A step that keeps the session when it fails, unless what it ends in is \<open>Q\<close>.\<close>

definition spoils :: "('w client \<Rightarrow> py_error \<Rightarrow> bool) \<Rightarrow> ('a, 'w) cmd \<Rightarrow> bool" where
  "spoils Q m \<longleftrightarrow> (\<forall>s e. fst (m s) = Inl e \<longrightarrow> c_session (snd (m s)) = c_session s \<or> Q (snd (m s)) e)"

lemma spoilsI: "keeps c_session m \<Longrightarrow> spoils Q m"
  by (simp add: keeps_def spoils_def)

lemma spoils_weaken: "spoils Q m \<Longrightarrow> (\<And>s e. Q s e \<Longrightarrow> R s e) \<Longrightarrow> spoils R m"
  by (auto simp: spoils_def)

lemma spoils_bind:
  assumes "keeps c_session m" "\<And>x. spoils Q (f x)"
  shows "spoils Q (bind_cmd m f)"
  unfolding spoils_def
proof (intro allI impI)
  fix s e assume err: "fst (bind_cmd m f s) = Inl e"
  obtain r s1 where m: "m s = (r, s1)" by fastforce
  have k: "c_session s1 = c_session s" using assms(1) m by (metis keeps_def snd_conv)
  show "c_session (snd (bind_cmd m f s)) = c_session s \<or> Q (snd (bind_cmd m f s)) e"
  proof (cases r)
    case (Inl x)
    then show ?thesis using m k by (simp add: bind_cmd_def)
  next
    case (Inr x)
    with m err have "fst (f x s1) = Inl e" by (simp add: bind_cmd_def)
    with assms(2) [of x] have "c_session (snd (f x s1)) = c_session s1 \<or> Q (snd (f x s1)) e" unfolding spoils_def by blast
    then show ?thesis using m k Inr by (simp add: bind_cmd_def)
  qed
qed

lemma keeps_bind: "keeps p m \<Longrightarrow> (\<And>x. keeps p (f x)) \<Longrightarrow> keeps p (bind_cmd m f)"
  by (auto simp: keeps_def bind_cmd_def split: prod.splits sum.splits) (metis snd_conv)+

lemma keeps_session_host : "keeps c_session (on_host f)"
  by (auto simp: keeps_def on_host_def split: prod.splits)

lemma keeps_session_world : "keeps c_session (on_world f)"
  by (auto simp: keeps_def on_world_def split: prod.splits)

lemma keeps_session_read: "keeps c_session (read_session cfg disk)"
  by (auto simp: keeps_def read_session_def split: session_file.splits)

lemma keeps_session_wait : "keeps c_session (wait_until t)"
  by (auto simp: keeps_def wait_until_def Let_def)

lemma keeps_session_control : "keeps c_session (control_post cfg io net r)"
  unfolding control_post_def by (intro keeps_bind keeps_session_host keeps_session_world)

lemma keeps_fail: "keeps p (Pair r)"
  by (simp add: keeps_def)

lemmas keeps_session = keeps_bind keeps_session_host keeps_session_world keeps_session_read
  keeps_session_wait keeps_session_control keeps_fail

lemma keeps_session_require: "keeps c_session (require_session cfg disk)"
  unfolding require_session_def by (intro keeps_session)

lemma keeps_session_status: "keeps c_session (client_status cfg io)"
  unfolding client_status_def by (intro keeps_session)

lemma require_session_Inr: "require_session cfg disk s = (Inr x, s') \<Longrightarrow> c_session s = Stored x \<and> s' = s"
  by (auto simp: require_session_def bind_cmd_def read_session_def split: session_file.splits if_splits)

text \<open>Saving fails before anything is touched, or in the write, which leaves a torn file or the whole text.\<close>

definition half_saved :: "client_cfg \<Rightarrow> disk \<Rightarrow> (session \<Rightarrow> bool) \<Rightarrow> 'w client \<Rightarrow> py_error \<Rightarrow> bool" where
  "half_saved cfg disk P s e \<longleftrightarrow>
     e = OSError \<and> (\<exists>x n. P x \<and> disk (WriteText (session_path cfg)) (c_host s) = Some n \<and>
        c_session s = (if n = 0 then Stored x else Torn))"

lemma save_session_spoils: "P x \<Longrightarrow> spoils (half_saved cfg disk P) (save_session cfg disk x)"
  by (auto simp: spoils_def save_session_def half_saved_def split: option.splits)

lemma save_session_Inr:
  "save_session cfg disk x s = (Inr y, s') \<Longrightarrow> s' = s\<lparr>c_session := Stored x\<rparr>"
  by (auto simp: save_session_def split: if_splits option.splits)

lemma started_Inr: "started a s = (Inr body, s') \<longleftrightarrow> a = Started body \<and> s' = s"
  by (auto simp: started_def split: vpn_answer.splits)

lemma refreshing_Inr: "refreshing a s = (Inr body, s') \<longleftrightarrow> a = Refreshing body \<and> s' = s"
  by (auto simp: refreshing_def split: vpn_answer.splits)

lemma keeps_answer: "keeps p (started a)" "keeps p (refreshing a)"
  by (simp_all add: keeps_def started_def refreshing_def)

section \<open>Tokens\<close>

lemma id_token_files: "files (snd (id_token cfg io h)) = files h"
  by (auto simp: id_token_def wg_run_def split: option.splits list.splits sum.splits)

lemma id_token_commands:
  "\<exists>xs. set xs \<subseteq> {(id_token_argv cfg, None)} \<and> commands (snd (id_token cfg io h)) = commands h @ xs"
  by (auto simp: id_token_def wg_run_def split: option.splits list.splits sum.splits)

lemma on_world_answered:
  "on_world (\<lambda>w. case g w of (a, w') \<Rightarrow> (answered a, w')) s = (Inr y, s') \<longleftrightarrow>
     (\<exists>w. g (c_world s) = (Some (Inr y), w) \<and> s' = s\<lparr>c_world := w\<rparr>)"
  by (cases "g (c_world s)") (auto simp: on_world_def answered_Inr)

lemma control_post_Inr:
  "control_post cfg io net r s = (Inr a, s') \<longleftrightarrow>
     (\<exists>token h w. id_token cfg io (c_host s) = (Inr token, h) \<and>
        control net (''Bearer '' @ token) r (c_world s) = (Some (Inr a), w) \<and> s' = s\<lparr>c_host := h, c_ran := c_ran s @ stamped s h, c_world := w\<rparr>)"
  by (simp only: control_post_def bind_cmd_Inr on_world_answered on_host_Inr) fastforce

section \<open>Properties\<close>

text \<open>A connect that succeeds has written the configuration with the key the KME gives for
  the identifier the server announced, under the name \<open>wg-quick\<close> was given, and has stored the
  session of that answer.\<close>

lemma connect_installs_announced_key:
  assumes "connect cfg io net s = (Inr (), s')"
  shows "\<exists>token priv pub body psk w. 
    control net (''Bearer '' @ token)
      (Start (JObj [(''qkd_id'', JStr (my_qkd cfg)), (''public_key'', JStr pub)])) (c_world s) = (Some (Inr (Started body)), w) \<and>
    fetch_key cfg net (sr_preshared_key_id body) w = (Inr psk, c_world s') \<and>
    map_of (files (c_host s')) (conf_path cfg) = Some (conf_text (connect_conf priv body psk)) \<and>
    c_session s' = Stored (connect_session pub body)"
proof -
  obtain priv pub body psk s0 s1 s2 s3 s3' s4 where
    0: "on_host (genkey (run_command io)) s = (Inr (priv, pub), s0)"
    and d: "on_host (on_disk (disk_ops io) (MakeDirs (state_dir cfg)) id) s0 = (Inr (), s1)"
    and 1: "control_post cfg io net (Start (JObj [(''qkd_id'', JStr (my_qkd cfg)), (''public_key'', JStr pub)])) s1 = (Inr (Started body), s2)"
    and 2: "on_world (fetch_key cfg net (sr_preshared_key_id body)) s2 = (Inr psk, s3)"
    and w: "on_host (write_conf (disk_ops io) (conf_path cfg) (connect_conf priv body psk)) s3 = (Inr (), s3')"
    and 3: "on_host (wg_up (run_command io) (conf_path cfg)) s3' = (Inr (), s4)"
    and 4: "s' = s4\<lparr>c_session := Stored (connect_session pub body)\<rparr>"
    using assms
    by (auto simp: connect_def bind_cmd_Inr started_Inr dest!: save_session_Inr)
  have s1: "c_world s1 = c_world s" using 0 d by (auto simp: on_host_Inr)
  from 1 s1 obtain token w where
    "control net (''Bearer '' @ token) (Start (JObj [(''qkd_id'', JStr (my_qkd cfg)), (''public_key'', JStr pub)])) (c_world s)
       = (Some (Inr (Started body)), w)" "c_world s2 = w"
    by (auto simp: control_post_Inr)
  moreover have "fetch_key cfg net (sr_preshared_key_id body) w = (Inr psk, c_world s3)" "c_world s4 = c_world s3"
    using 2 3 w calculation(2) by (auto simp: on_world_Inr on_host_Inr)
  moreover have "map_of (files (c_host s4)) (conf_path cfg) = Some (conf_text (connect_conf priv body psk))"
    using 3 w wg_up_files [of "run_command io" "conf_path cfg" "c_host s3'"] by (auto simp: on_host_Inr dest!: write_conf_Inr)
  ultimately show ?thesis using 4
    by (intro exI [of _ token] exI [of _ priv] exI [of _ pub] exI [of _ body] exI [of _ psk] exI [of _ w]) simp
qed

text \<open>A client whose commands all succeed, against a server and a KME with one answer each.\<close>

definition demo_run :: runner where
  "demo_run args stdin h =
     Inr \<lparr> returncode = 0, out_text = (if args = [''wg'', ''genkey''] then ''priv'' else ''pub''), err_text = [] \<rparr>"

definition demo_cli_io :: cli_io where
  "demo_cli_io = \<lparr> metadata = Inr ''token'', psk_path = ''/tmp/wg-psk-1'', cli_nonce = replicate 12 7, run_command = demo_run,
     disk_ops = good_disk \<rparr>"

definition demo_client_cfg :: client_cfg where
  "demo_client_cfg = \<lparr> id_token_opt = None, id_token_cmd = ''gcloud'', id_token_argv = [''gcloud''], state_dir = ''/s'', my_qkd = ''QKD2'', peer_qkd = ''QKD1'' \<rparr>"

definition demo_body :: start_reply where
  "demo_body = \<lparr> sr_qkd_id = ''QKD1'', sr_server_public_key = ''srv'', sr_endpoint = ''vpn:51819'',
     sr_preshared_key_id = ''k1'', sr_client_ip = ''10.20.0.2'', sr_allowed_ips = ''10.20.0.0/24'',
     sr_effective_time = 0, sr_refresh_after_s = 60 \<rparr>"

definition demo_net :: "unit net" where
  "demo_net =
     \<lparr> control = (\<lambda>auth r w.
         (Some (Inr (case r of
            Start j \<Rightarrow> Started demo_body
          | _ \<Rightarrow> Refreshing \<lparr> rr_preshared_key_id = ''k2'', rr_effective_time = 5000000 \<rparr>)), w)),
       qkd2 = (\<lambda>r w. (Reply 200 (Some (keys_json [\<lparr> k_id = ''k'', k_material = [1, 2, 3] \<rparr>])), w)),
       file_key_call = (\<lambda>q w. (Some (Inr ''k3''), w)),
       upload_call = (\<lambda>k n b w. (Some (Inr ''up''), w)) \<rparr>"

definition demo_client :: "unit client" where
  "demo_client = \<lparr> c_host = \<lparr> files = [], commands = [] \<rparr>, c_session = NoSession, c_now = 0, c_ran = [], c_world = () \<rparr>"

lemma demo_fetch: "fetch_key cfg demo_net k w = (Inr [1, 2, 3], w)"
  by (simp add: fetch_key_def demo_net_def client_dec_keys_def received_keys_def receive_def)

lemmas demo_defs = demo_run_def demo_cli_io_def demo_client_cfg_def demo_client_def

lemmas cmd_defs = bind_cmd_def on_host_def on_world_def control_post_def id_token_def wg_run_def genkey_def
  wg_up_def set_psk_def with_psk_file_def on_disk_def write_text_def write_conf_def good_disk_def started_def
  refreshing_def save_session_def read_session_def require_session_def wait_until_def answered_def

definition no_quick :: runner where
  "no_quick args stdin h = (if args \<noteq> [] \<and> hd args = ''wg-quick'' then Inl OSError else demo_run args stdin h)"

lemma runs_differ: "no_quick \<noteq> demo_run"
proof
  assume "no_quick = demo_run"
  then have "no_quick [''wg-quick''] None h = demo_run [''wg-quick''] None h" for h by simp
  then show False by (simp add: no_quick_def demo_run_def)
qed

text \<open>A disk that is full when the session is written.\<close>

definition full_disk :: disk where
  "full_disk op h = (case op of WriteText path \<Rightarrow> if path = ''/s/session.json'' then Some 1 else None | _ \<Rightarrow> None)"

text \<open>A connect whose steps up to \<open>wg-quick\<close> succeed.\<close>

lemma connect_forward:
  assumes "genkey (run_command io) (c_host s) = (Inr (priv, pub), h1)" "disk_ops io (MakeDirs (state_dir cfg)) h1 = None"
    and "id_token cfg io h1 = (Inr token, h2)"
    and "control net (''Bearer '' @ token) (Start (JObj [(''qkd_id'', JStr (my_qkd cfg)), (''public_key'', JStr pub)])) (c_world s) =
      (Some (Inr (Started body)), w1)"
    and "fetch_key cfg net (sr_preshared_key_id body) w1 = (Inr psk, w2)"
    and "write_conf (disk_ops io) (conf_path cfg) (connect_conf priv body psk) h2 = (Inr (), h3)"
    and "wg_up (run_command io) (conf_path cfg) h3 = (r, h4)"
  shows "\<exists>ran. connect cfg io net s =
    (case r of Inl e \<Rightarrow> Pair (Inl e) | Inr _ \<Rightarrow> save_session cfg (disk_ops io) (connect_session pub body))
      (s\<lparr>c_world := w2, c_host := h4, c_ran := ran\<rparr>)"
proof (intro exI)
  let ?s1 = "s\<lparr>c_host := h1, c_ran := c_ran s @ stamped s h1\<rparr>"
  let ?s2 = "?s1\<lparr>c_host := h2, c_ran := c_ran ?s1 @ stamped ?s1 h2\<rparr>"
  let ?s3 = "?s2\<lparr>c_world := w2, c_host := h3, c_ran := c_ran ?s2 @ stamped ?s2 h3\<rparr>"
  show "connect cfg io net s =
    (case r of Inl e \<Rightarrow> Pair (Inl e) | Inr _ \<Rightarrow> save_session cfg (disk_ops io) (connect_session pub body))
      (s\<lparr>c_world := w2, c_host := h4, c_ran := c_ran ?s3 @ stamped ?s3 h4\<rparr>)"
    using assms by (cases r) (simp_all add: connect_def bind_cmd_def on_host_def on_world_def on_disk_def control_post_def answered_def
      started_def stamped_def)
qed

lemma demo_steps:
  assumes "run_command io = demo_run \<or> run_command io = no_quick" "metadata io = Inr ''token''"
    and "\<And>op h. op \<noteq> WriteText ''/s/session.json'' \<Longrightarrow> disk_ops io op h = None"
  shows "\<exists>h ran.
    map_of (files h) (conf_path demo_client_cfg) = Some (conf_text (connect_conf ''priv'' demo_body [1, 2, 3])) \<and>
    connect demo_client_cfg io demo_net demo_client =
      (if run_command io = no_quick then Pair (Inl OSError)
       else save_session demo_client_cfg (disk_ops io) (connect_session ''pub'' demo_body))
        (demo_client\<lparr>c_host := h, c_ran := ran\<rparr>)"
proof -
  have st: "strip ''priv'' = ''priv''" "strip ''pub'' = ''pub''" "strip ''token'' = ''token''" by code_simp+
  obtain h1 where g: "genkey (run_command io) (c_host demo_client) = (Inr (''priv'', ''pub''), h1)"
    using assms(1) st by (auto simp: genkey_def wg_run_def demo_run_def no_quick_def Let_def)
  have t: "id_token demo_client_cfg io h1 = (Inr ''token'', h1)"
    using assms(2) st(3) by (simp add: id_token_def demo_client_cfg_def)
  have c: "control demo_net (''Bearer '' @ ''token'') (Start (JObj [(''qkd_id'', JStr (my_qkd demo_client_cfg)), (''public_key'', JStr ''pub'')]))
      (c_world demo_client) = (Some (Inr (Started demo_body)), ())"
    by (simp add: demo_net_def)
  have p: "conf_path demo_client_cfg \<noteq> ''/s/session.json''" by code_simp
  obtain h3 where w: "write_conf (disk_ops io) (conf_path demo_client_cfg) (connect_conf ''priv'' demo_body [1, 2, 3]) h1 = (Inr (), h3)"
    using assms(3) p by (simp add: write_conf_def on_disk_def write_text_def)
  obtain r h4 where u: "wg_up (run_command io) (conf_path demo_client_cfg) h3 = (r, h4)" by fastforce
  have fs: "files h4 = files h3" using wg_up_files [of "run_command io" "conf_path demo_client_cfg" h3] u by simp
  have r: "r = (if run_command io = no_quick then Inl OSError else Inr ())"
    using u assms(1) runs_differ by (auto simp: wg_up_def wg_run_def demo_run_def no_quick_def)
  then obtain ran where "connect demo_client_cfg io demo_net demo_client =
      (case r of Inl e \<Rightarrow> Pair (Inl e) | Inr _ \<Rightarrow> save_session demo_client_cfg (disk_ops io) (connect_session ''pub'' demo_body))
        (demo_client\<lparr>c_host := h4, c_ran := ran\<rparr>)"
    using connect_forward [OF g assms(3) t c demo_fetch w u] by (auto simp: demo_client_def)
  moreover have "map_of (files h3) (conf_path demo_client_cfg) = Some (conf_text (connect_conf ''priv'' demo_body [1, 2, 3]))"
    using write_conf_Inr [OF w] by simp
  ultimately show ?thesis
    by (intro exI [of _ h4] exI [of _ ran]) (cases "run_command io = no_quick"; simp add: fs r)
qed

text \<open>Property C32. A command that fails leaves the stored session alone, whatever step raised, with one exception:
  a connect or a refresh whose last step, the write of the session, is refused by the file system exits with
  status 1 and leaves the file torn, or holding the new session in full. A refresh's new session is the old
  one with another key identifier.\<close>

theorem failed_command_keeps_session:
  assumes "run_client A cfg io net c s = (code, s')" and "code \<noteq> Some 0" and "c \<noteq> Disconnect"
  shows "c_session s' = c_session s \<or>
    (code = Some 1 \<and> (\<exists>x n. disk_ops io (WriteText (session_path cfg)) (c_host s') = Some n \<and>
       c_session s' = (if n = 0 then Stored x else Torn) \<and>
       (c = Connect \<or> c = RefreshCommand \<and> (\<exists>y i. c_session s = Stored y \<and> x = y\<lparr>s_preshared_key_id := i\<rparr>))))"
proof -
  let ?bad = "half_saved cfg (disk_ops io)"
  have con: "spoils (?bad (\<lambda>_. True)) (connect cfg io net)"
    unfolding connect_def case_prod_unfold
    by (intro spoils_bind keeps_session keeps_answer save_session_spoils TrueI)
  have ref: "c_session s' = c_session s \<or> (\<exists>y. c_session s = Stored y \<and> ?bad (\<lambda>x. \<exists>i. x = y\<lparr>s_preshared_key_id := i\<rparr>) s' e)"
    if r: "refresh cfg io net s = (Inl e, s')" for e
  proof (cases "require_session cfg (disk_ops io) s")
    case (Pair q s1)
    show ?thesis
    proof (cases q)
      case (Inl e1)
      with Pair r have "s' = s1" by (simp add: refresh_def bind_cmd_def)
      moreover have "c_session (snd (require_session cfg (disk_ops io) s)) = c_session s"
        using keeps_session_require unfolding keeps_def by blast
      ultimately show ?thesis using Pair by simp
    next
      case (Inr x)
      note st = require_session_Inr [OF Pair [unfolded Inr]]
      let ?rest = "bind_cmd (control_post cfg io net (Refresh (JObj [(''public_key'', JStr (s_public_key x))]))) (\<lambda>answer.
        bind_cmd (refreshing answer) (\<lambda>body.
        bind_cmd (on_world (fetch_key cfg net (rr_preshared_key_id body))) (\<lambda>psk.
        bind_cmd (wait_until (rr_effective_time body)) (\<lambda>_.
        bind_cmd (on_host (set_psk (disk_ops io) (run_command io) iface (psk_path io) (s_server_public_key x) psk)) (\<lambda>_.
        save_session cfg (disk_ops io) (x\<lparr>s_preshared_key_id := rr_preshared_key_id body\<rparr>))))))"
      have "spoils (?bad (\<lambda>z. \<exists>i. z = x\<lparr>s_preshared_key_id := i\<rparr>)) ?rest"
        by (intro spoils_bind keeps_session keeps_answer save_session_spoils) blast
      moreover have "?rest s = (Inl e, s')" using r Pair Inr st by (simp add: refresh_def bind_cmd_def)
      ultimately have "c_session s' = c_session s \<or> ?bad (\<lambda>z. \<exists>i. z = x\<lparr>s_preshared_key_id := i\<rparr>) s' e"
        unfolding spoils_def by (metis (no_types, lifting) fst_conv snd_conv)
      with st(1) show ?thesis by blast
    qed
  qed
  have up: "keeps c_session (cli_upload A cfg io net name content)" for name content
    unfolding cli_upload_def by (intro keeps_session)
  have err: "\<exists>e. r = Inl e \<and> (e = OSError \<longrightarrow> code = Some 1)" if "code = exit_code r" for r :: "unit py"
    using that assms(2) by (cases r) (auto simp: exit_code_def)
  show ?thesis
  proof (cases c)
    case Connect
    obtain r where r: "connect cfg io net s = (r, s')" "code = exit_code r"
      using assms(1) Connect by (cases "connect cfg io net s") (simp add: run_client_def)
    from err [OF r(2)] obtain e where e: "r = Inl e" "e = OSError \<Longrightarrow> code = Some 1" by blast
    with con r(1) have "c_session s' = c_session s \<or> ?bad (\<lambda>_. True) s' e" by (metis fst_conv snd_conv spoils_def)
    then show ?thesis using Connect e(2) unfolding half_saved_def by blast
  next
    case RefreshCommand
    obtain r where r: "refresh cfg io net s = (r, s')" "code = exit_code r"
      using assms(1) RefreshCommand by (cases "refresh cfg io net s") (simp add: run_client_def)
    from err [OF r(2)] obtain e where e: "r = Inl e" "e = OSError \<Longrightarrow> code = Some 1" by blast
    from ref [of e] r(1) e(1) show ?thesis using RefreshCommand e(2) unfolding half_saved_def by blast
  next
    case (UploadFile name content)
    then have "s' = snd (cli_upload A cfg io net name content s)"
      using assms(1) by (cases "cli_upload A cfg io net name content s") (simp add: run_client_def)
    with up [of name content] show ?thesis by (simp add: keeps_def)
  next
    case ClientStatus
    then have "s' = snd (client_status cfg io s)"
      using assms(1) by (cases "client_status cfg io s") (simp add: run_client_def)
    moreover have "c_session (snd (client_status cfg io s)) = c_session s"
      by (rule keeps_session_status [unfolded keeps_def, rule_format])
    ultimately show ?thesis by simp
  qed (use assms(3) in simp)
qed

text \<open>A refresh that succeeds has drawn the key the server announced, has waited for the moment it
  takes effect, has then given it to \<open>wg\<close> for the server's peer in the last command run, and has changed the
  session's key identifier only. Before that moment it ran at most the command for the identity token.\<close>

lemma refresh_waits_then_installs:
  assumes "refresh cfg io net s = (Inr (), s')"
  shows "\<exists>token x body psk w h ran.
    c_session s = Stored x \<and>
    control net (''Bearer '' @ token) (Refresh (JObj [(''public_key'', JStr (s_public_key x))])) (c_world s) =
      (Some (Inr (Refreshing body)), w) \<and>
    fetch_key cfg net (rr_preshared_key_id body) w = (Inr psk, c_world s') \<and>
    c_now s' = max (c_now s) (rr_effective_time body) \<and>
    set (ran) \<subseteq> {(c_now s, id_token_argv cfg, None)} \<and>
    c_ran s' = c_ran s @ ran @
      [(c_now s', [''wg'', ''set'', iface, ''peer'', s_server_public_key x, ''preshared-key'', psk_path io], None)] \<and>
    files h = files (c_host s) \<and>
    set_psk (disk_ops io) (run_command io) iface (psk_path io) (s_server_public_key x) psk h = (Inr (), c_host s') \<and>
    c_session s' = Stored (x\<lparr>s_preshared_key_id := rr_preshared_key_id body\<rparr>)"
proof -
  obtain x s0 body psk s2 s3 s3' s4 where
    0: "require_session cfg (disk_ops io) s = (Inr x, s0)"
    and 1: "control_post cfg io net (Refresh (JObj [(''public_key'', JStr (s_public_key x))])) s0 = (Inr (Refreshing body), s2)"
    and 2: "on_world (fetch_key cfg net (rr_preshared_key_id body)) s2 = (Inr psk, s3)"
    and w: "wait_until (rr_effective_time body) s3 = (Inr (), s3')"
    and 3: "on_host (set_psk (disk_ops io) (run_command io) iface (psk_path io) (s_server_public_key x) psk) s3' = (Inr (), s4)"
    and 4: "s' = s4\<lparr>c_session := Stored (x\<lparr>s_preshared_key_id := rr_preshared_key_id body\<rparr>)\<rparr>"
    using assms by (auto simp: refresh_def bind_cmd_Inr refreshing_Inr dest!: save_session_Inr)
  note x = require_session_Inr [OF 0]
  from 1 x obtain token h w1 where t: "id_token cfg io (c_host s) = (Inr token, h)"
    "control net (''Bearer '' @ token) (Refresh (JObj [(''public_key'', JStr (s_public_key x))])) (c_world s) =
       (Some (Inr (Refreshing body)), w1)" "s2 = s\<lparr>c_host := h, c_ran := c_ran s @ stamped s h, c_world := w1\<rparr>"
    by (auto simp: control_post_Inr)
  obtain xs where xs: "set xs \<subseteq> {(id_token_argv cfg, None)}" "commands h = commands (c_host s) @ xs" "files h = files (c_host s)"
    using id_token_commands [of cfg io "c_host s"] id_token_files [of cfg io "c_host s"] t(1) by auto
  then have ran: "stamped s h = map (Pair (c_now s)) xs" by (simp add: stamped_def)
  have s3: "c_host s3' = h" "c_world s3' = c_world s3" "c_now s3' = max (c_now s) (rr_effective_time body)"
    "c_ran s3' = c_ran s @ stamped s h" "fetch_key cfg net (rr_preshared_key_id body) w1 = (Inr psk, c_world s3)"
    using 2 w t(3) by (auto simp: on_world_Inr wait_until_def Let_def split: if_splits)
  obtain h4 where h4: "set_psk (disk_ops io) (run_command io) iface (psk_path io) (s_server_public_key x) psk h = (Inr (), h4)"
    "s4 = s3'\<lparr>c_host := h4, c_ran := c_ran s3' @ stamped s3' h4\<rparr>"
    using 3 s3(1) by (auto simp: on_host_Inr)
  have last: "stamped s3' h4 =
      [(c_now s3', [''wg'', ''set'', iface, ''peer'', s_server_public_key x, ''preshared-key'', psk_path io], None)]"
    using set_psk_Inr [OF h4(1)] s3(1) by (simp add: stamped_def)
  show ?thesis
    by (intro exI [of _ token] exI [of _ x] exI [of _ body] exI [of _ psk] exI [of _ w1] exI [of _ h]
        exI [of _ "map (Pair (c_now s)) xs"])
      (use x t(2) s3 h4 4 xs ran last in auto)
qed

text \<open>Property C31. Disconnecting never forgets the session before the keys: exit code 0 means that the configuration
  and the session are gone and no other file is touched, also when \<open>wg-quick\<close> refused; otherwise the session
  stays, and with it the configuration, unless it was deleting the session that failed.\<close>

theorem disconnect_all_or_nothing:
  "let (code, s') = run_client A cfg io net Disconnect s
   in if code = Some 0
      then map_of (files (c_host s')) = (map_of (files (c_host s)))(conf_path cfg := None) \<and> c_session s' = NoSession
      else c_session s' = c_session s \<and>
        (files (c_host s') = files (c_host s) \<or>
         code = Some 1 \<and> map_of (files (c_host s')) = (map_of (files (c_host s)))(conf_path cfg := None) \<and>
         c_session s \<noteq> NoSession \<and> disk_ops io (Unlink (session_path cfg)) (c_host s') \<noteq> None)"
proof (cases "wg_down (run_command io) (conf_path cfg) (c_host s)")
  case (Pair r h)
  have h: "files h = files (c_host s)" using wg_down_files [of "run_command io" "conf_path cfg" "c_host s"] Pair by simp
  let ?s1 = "s\<lparr>c_host := h, c_ran := c_ran s @ stamped s h\<rparr>"
  have d: "disconnect cfg io s =
      (case r of Inr _ \<Rightarrow> forget_keys cfg (disk_ops io) ?s1
       | Inl e \<Rightarrow> if is_runtime e then forget_keys cfg (disk_ops io) ?s1 else (Inl e, ?s1))"
    using Pair by (simp add: disconnect_def on_host_def split: sum.split)
  obtain f s2 where f: "forget_keys cfg (disk_ops io) ?s1 = (f, s2)" by fastforce
  have none: "m k = None \<Longrightarrow> m(k := None) = m" for m :: "string \<Rightarrow> string option" and k by auto
  have del: "map_of (AList.delete (conf_path cfg) xs) = (map_of xs)(conf_path cfg := None)" for xs :: "(string \<times> string) list"
    by (simp add: delete_conv')
  have forget: "case f of
      Inr _ \<Rightarrow> map_of (files (c_host s2)) = (map_of (files (c_host s)))(conf_path cfg := None) \<and> c_session s2 = NoSession
    | Inl e \<Rightarrow> e = OSError \<and> c_session s2 = c_session s \<and>
        (files (c_host s2) = files (c_host s) \<or>
         map_of (files (c_host s2)) = (map_of (files (c_host s)))(conf_path cfg := None) \<and>
         c_session s \<noteq> NoSession \<and> disk_ops io (Unlink (session_path cfg)) (c_host s2) \<noteq> None)"
    using f h
    by (auto simp: forget_keys_def forget_conf_def forget_session_def bind_cmd_def on_host_def on_disk_def drop_file_def del none
        split: if_splits option.splits)
  show ?thesis using d f forget h
    by (cases r; cases f) (auto simp: run_client_def exit_code_def Let_def)
qed

text \<open>Where \<open>wg-quick\<close> is not installed, disconnect never deletes the keys: it exits 1, and
  the configuration a failed connect wrote stays, private key and pre-shared key included.\<close>

theorem disconnect_strands_keys:
  assumes "\<forall>h. run_command io [''wg-quick'', ''down'', conf_path cfg] None h = Inl OSError"
    and "map_of (files (c_host s)) (conf_path cfg) = Some text"
  shows "fst (run_client A cfg io net Disconnect s) = Some 1 \<and>
    map_of (files (c_host (snd (run_client A cfg io net Disconnect s)))) (conf_path cfg) = Some text"
proof -
  have "\<not> is_runtime OSError" by (simp add: is_runtime_def OSError_def QkdUnavailable_def QkdError_def)
  then show ?thesis using assms
    by (simp add: run_client_def disconnect_def on_host_def wg_down_def wg_run_def exit_code_def)
qed

section \<open>Witnesses\<close>

lemma no_quick_connect:
  "fst (run_client A demo_client_cfg (demo_cli_io\<lparr>run_command := no_quick\<rparr>) demo_net Connect demo_client) = Some 1"
  "map_option (\<lambda>text. conf_field ''PresharedKey'' text) (map_of (files (c_host (snd (connect demo_client_cfg
     (demo_cli_io\<lparr>run_command := no_quick\<rparr>) demo_net demo_client)))) (conf_path demo_client_cfg)) = Some (Some ''AQID'')"
proof -
  from demo_steps [of "demo_cli_io\<lparr>run_command := no_quick\<rparr>"] obtain h ran where
    "map_of (files h) (conf_path demo_client_cfg) = Some (conf_text (connect_conf ''priv'' demo_body [1, 2, 3]))"
    "connect demo_client_cfg (demo_cli_io\<lparr>run_command := no_quick\<rparr>) demo_net demo_client =
       (Inl OSError, demo_client\<lparr>c_host := h, c_ran := ran\<rparr>)"
    by (auto simp: demo_cli_io_def good_disk_def)
  moreover have "conf_field ''PresharedKey'' (conf_text (connect_conf ''priv'' demo_body [1, 2, 3])) = Some ''AQID''"
    by code_simp
  ultimately show "fst (run_client A demo_client_cfg (demo_cli_io\<lparr>run_command := no_quick\<rparr>) demo_net Connect demo_client) = Some 1"
   "map_option (\<lambda>text. conf_field ''PresharedKey'' text) (map_of (files (c_host (snd (connect demo_client_cfg
     (demo_cli_io\<lparr>run_command := no_quick\<rparr>) demo_net demo_client)))) (conf_path demo_client_cfg)) = Some (Some ''AQID'')"
    by (simp_all add: run_client_def exit_code_def)
qed

theorem disconnect_strands_keys_witness:
  "let s = snd (connect demo_client_cfg (demo_cli_io\<lparr>run_command := no_quick\<rparr>) demo_net demo_client)
   in fst (run_client clear_aead demo_client_cfg (demo_cli_io\<lparr>run_command := no_quick\<rparr>) demo_net Disconnect s) = Some 1 \<and>
      map_option (\<lambda>text. conf_field ''PresharedKey'' text) (map_of (files (c_host (snd (run_client clear_aead demo_client_cfg
        (demo_cli_io\<lparr>run_command := no_quick\<rparr>) demo_net Disconnect s)))) (conf_path demo_client_cfg)) = Some (Some ''AQID'')"
proof -
  define s where "s = snd (connect demo_client_cfg (demo_cli_io\<lparr>run_command := no_quick\<rparr>) demo_net demo_client)"
  obtain conf where t: "map_of (files (c_host s)) (conf_path demo_client_cfg) = Some conf"
      "conf_field ''PresharedKey'' conf = Some ''AQID''"
    using no_quick_connect(2) unfolding s_def by auto
  have "\<forall>h. run_command (demo_cli_io\<lparr>run_command := no_quick\<rparr>) [''wg-quick'', ''down'', conf_path demo_client_cfg] None h = Inl OSError"
    by (simp add: no_quick_def)
  from disconnect_strands_keys [OF this t(1)] t(2) show ?thesis unfolding s_def Let_def by simp
qed

theorem failed_command_keeps_session_witness:
  "\<exists>s'. run_client clear_aead demo_client_cfg (demo_cli_io\<lparr>disk_ops := full_disk\<rparr>) demo_net Connect demo_client = (Some 1, s') \<and>
     c_session s' = Torn \<and> full_disk (WriteText (session_path demo_client_cfg)) (c_host s') \<noteq> None"
proof -
  let ?io = "demo_cli_io\<lparr>disk_ops := full_disk\<rparr>"
  let ?p = "connect demo_client_cfg ?io demo_net demo_client"
  have "session_path demo_client_cfg = ''/s/session.json''" by code_simp
  moreover have "full_disk op h = None" if "op \<noteq> WriteText ''/s/session.json''" for op h
    using that by (simp add: full_disk_def split: file_op.split)
  moreover have "full_disk (WriteText ''/s/session.json'') h = Some 1" for h by (simp add: full_disk_def)
  moreover have "disk_ops ?io = full_disk" "run_command ?io = demo_run" "metadata ?io = Inr ''token''" by (simp_all add: demo_cli_io_def)
  ultimately have c: "fst ?p = Inl OSError" "c_session (snd ?p) = Torn"
    using demo_steps [of ?io] runs_differ by (auto simp: save_session_def)
  have run: "run_client clear_aead demo_client_cfg ?io demo_net Connect demo_client = (Some 1, snd ?p)"
    using c(1) by (cases ?p) (simp add: run_client_def exit_code_def)
  have "c_session demo_client = NoSession" by (simp add: demo_client_def)
  with failed_command_keeps_session [OF run] c(2) run show ?thesis by auto
qed

text \<open>A torn session is read by no later command: \<open>refresh\<close> and \<open>status\<close> end in a JSONDecodeError that \<open>run\<close> does
  not catch.\<close>

theorem torn_session_blocks:
  fixes s :: "'w client"
  assumes "c_session s = Torn" "\<forall>h. disk_ops io (ReadText (session_path cfg)) h = None"
    and "client_show (run_command io) iface (c_host s) = (Inr shown, h)"
  shows "run_client A cfg io net RefreshCommand s = (None, s) \<and> fst (run_client A cfg io net ClientStatus s) = None"
proof -
  have torn: "read_session cfg (disk_ops io) t = (Inl ValueError, t)" if "c_session t = Torn" for t :: "'w client"
    using assms(2) that by (simp add: read_session_def)
  have code: "exit_code (Inl ValueError) = None"
    by (simp add: exit_code_def is_runtime_def QkdUnavailable_def QkdError_def OSError_def HTTPError_def)
  have "refresh cfg io net s = (Inl ValueError, s)" for net :: "'w net"
    by (simp add: refresh_def require_session_def bind_cmd_def torn [OF assms(1)])
  moreover have "fst (client_status cfg io s) = Inl ValueError"
    using assms(1,3) torn by (simp add: client_status_def bind_cmd_def on_host_def)
  then have "fst (run_client A cfg io net ClientStatus s) = None" for net :: "'w net"
    using code by (cases "client_status cfg io s") (simp add: run_client_def)
  ultimately show ?thesis using code by (simp add: run_client_def)
qed

end
