(* ===== verification/KeyService.thy ===== *)
theory KeyService
  imports EkmClient EkmService
begin

text \<open>
  The interface between the servers that draw keys (the VPN and the upload server) and the EKM: a
  delivery gives an identifier that was not spent before and is spent afterwards. The EKM behind its
  client is an instance, with the keys of its binding rows as the spent ones.
\<close>

section \<open>The interface\<close>

locale key_service =
  fixes deliver :: "string \<Rightarrow> string \<Rightarrow> 'w \<Rightarrow> (string \<times> bytes) py \<times> 'w"
    and spent :: "'w \<Rightarrow> string set"
  assumes fresh_key: "deliver p u w = (Inr (i, k), w') \<Longrightarrow> i \<notin> spent w \<and> i \<in> spent w'"
    and spent_mono: "deliver p u w = (r, w') \<Longrightarrow> spent w \<subseteq> spent w'"
begin

fun deliver_all :: "(string \<times> string) list \<Rightarrow> 'w \<Rightarrow> string list \<times> 'w" where
  "deliver_all [] w = ([], w)"
| "deliver_all ((p, u) # ps) w =
     (case deliver p u w of (r, w1) \<Rightarrow> (case deliver_all ps w1 of (ids, w2) \<Rightarrow>
        ((case r of Inr (i, k) \<Rightarrow> i # ids | Inl e \<Rightarrow> ids), w2)))"

lemma deliver_all_distinct:
  "deliver_all ps w = (ids, w') \<Longrightarrow> distinct ids \<and> set ids \<inter> spent w = {} \<and> set ids \<subseteq> spent w' \<and> spent w \<subseteq> spent w'"
proof (induction ps arbitrary: w ids w')
  case (Cons q ps)
  obtain p u where q: "q = (p, u)" by (cases q)
  obtain r w1 where d: "deliver p u w = (r, w1)" by (cases "deliver p u w")
  obtain js w2 where rest: "deliver_all ps w1 = (js, w2)" by (cases "deliver_all ps w1")
  note IH = Cons.IH [OF rest] and m = spent_mono [OF d]
  show ?case
  proof (cases r)
    case (Inl e)
    then show ?thesis using Cons.prems q d rest IH m by auto
  next
    case (Inr ik)
    obtain i k where ik: "ik = (i, k)" by (cases ik)
    have "i \<notin> spent w" "i \<in> spent w1" using fresh_key [of p u w i k w1] d Inr ik by auto
    then show ?thesis using Cons.prems q d rest IH m Inr ik by auto
  qed
qed simp

end

text \<open>A key service reached over HTTP with \<open>EkmClient\<close>.\<close>

locale ekm_service = key_service "ekm_new send" spent
  for send :: "request \<Rightarrow> 'w \<Rightarrow> reply \<times> 'w" and spent :: "'w \<Rightarrow> string set"

section \<open>The EKM delivers\<close>

lemma new_key_Inr:
  assumes "new_key f peer purpose s = (Inr j, s')"
  obtains key :: qkey where "j = JObj [(''key_id'', JStr (k_id key)), (''key'', JStr (b64e (k_material key))), (''qkd_name'', JStr peer)]"
    "bind_row (k_id key) purpose (peer @ CHR '':'' # k_id key) peer (now_s f) (e_store s) = Inr (e_store s')"
    "fst (app_allocate peer s) = Inr key"
proof -
  from assms have p: "purpose \<in> set app_PURPOSES" by (auto simp: new_key_def http_fail_def split: if_splits)
  obtain ra s1 where a: "app_allocate peer s = (ra, s1)" by (cases "app_allocate peer s")
  with assms p obtain key where ra: "ra = Inr key" by (cases ra) (auto simp: new_key_def)
  obtain st where st: "bind_row (k_id key) purpose (peer @ CHR '':'' # k_id key) peer (now_s f) (e_store s) = Inr st"
    using assms p a ra app_allocate_storeD [OF a]
    by (cases "bind_row (k_id key) purpose (peer @ CHR '':'' # k_id key) peer (now_s f) (e_store s)")
      (auto simp: new_key_def app_bind_def split: if_splits)
  show thesis
    by (rule that [of key])
      (use assms p a ra st app_allocate_storeD [OF a] in \<open>auto simp: new_key_def app_bind_def\<close>)
qed

lemma guarded_Inr: "guarded a h = (Inr j, s') \<Longrightarrow> \<exists>c s1. a = (Inr c, s1) \<and> h s1 = (Inr j, s')"
  by (auto simp: guarded_def split: prod.splits sum.splits)

lemma as_str_Inr: "as_str j = Inr s \<longleftrightarrow> j = JStr s"
  by (auto simp: as_str_def split: json.splits)

lemma envelope_no_key [simp]: "obj_item (envelope_json e) ''key_id'' = Inl KeyError"
  by (simp add: envelope_json_def obj_item_def)

lemma ekm_result_Inr: "ekm_result (ekm_reply m) = Inr (i, k) \<Longrightarrow> \<exists>j. m = Inr j \<and> obj_item j ''key_id'' = Inr (JStr i)"
  by (cases m)
    (auto simp: ekm_result_def ekm_reply_def bind_py_eq_Inr as_str_Inr error_response_def
      split: if_splits http_error.splits detail.splits prod.splits)

lemma ekm_get_route_no_post: "ekm_get_route path params \<noteq> Some (KmsPost op b)"
  "ekm_get_route path params \<noteq> Some (PostAuthority v)" "ekm_get_route path params \<noteq> Some PostAck"
  by (auto simp: ekm_get_route_def split: list.splits option.splits)

lemma route_key_id:
  assumes "serve env f h r s = (Inr j, s')" "obj_item j ''key_id'' = Inr (JStr i)"
    and "\<And>op b. r \<noteq> KmsPost op b" "\<And>v. r \<noteq> PostAuthority v" "r \<noteq> PostAck"
  obtains peer purpose ob where "r = GetNew peer purpose" "new_key f peer purpose s = (Inr j, s')"
    "bind_row i purpose ob peer (now_s f) (e_store s) = Inr (e_store s')"
proof (cases r)
  case (GetNew peer purpose)
  from assms(1) have n: "new_key f peer purpose s = (Inr j, s')"
    by (auto simp: serve_def GetNew vpn_claims_def dest!: guarded_Inr)
  from new_key_Inr [OF n] obtain key :: qkey where
    k: "j = JObj [(''key_id'', JStr (k_id key)), (''key'', JStr (b64e (k_material key))), (''qkd_name'', JStr peer)]"
       "bind_row (k_id key) purpose (peer @ CHR '':'' # k_id key) peer (now_s f) (e_store s) = Inr (e_store s')"
    by blast
  have "i = k_id key" using assms(2) k(1) by (simp add: obj_item_def)
  then show thesis using that GetNew n k(2) by blast
next
  case GetState
  with assms(1) obtain s1 where "read_state s1 = (Inr j, s')" by (auto simp: serve_def dest!: guarded_Inr)
  then show thesis using assms(2) by (auto simp: read_state_def Let_def obj_item_def split: sum.splits)
next
  case (KmsGet op)
  with assms(1) have "describe_key op = Inr j" by (auto simp: serve_def dest!: guarded_Inr)
  then show thesis using assms(2) by (auto simp: describe_key_def http_fail_def obj_item_def split: if_splits)
qed (use assms in \<open>auto simp: serve_def obj_item_def\<close>)

definition spent_keys :: "ekm \<Rightarrow> string set" where
  "spent_keys s = b_key ` set (rows (e_store s))"

lemma bind_row_spent:
  "bind_row k p ob q now (e_store s) = Inr (e_store s') \<Longrightarrow> k \<notin> spent_keys s \<and> spent_keys s' = insert k (spent_keys s)"
  by (auto simp: bind_row_Inr spent_keys_def bound_def image_image)

lemma serve_spent: "serve env f h r s = (resp, s') \<Longrightarrow> spent_keys s \<subseteq> spent_keys s'"
  using serve_store [of env f h r s resp s'] first_use_rows bind_row_spent
  by (fastforce simp: spent_keys_def)

lemma ekm_new_served:
  assumes "ekm_new (ekm_get env f h) p u s = (Inr (i, k), s')"
  obtains peer purpose where "new_key f peer purpose s = (Inr (JObj [(''key_id'', JStr i), (''key'', JStr (b64e k)),
      (''qkd_name'', JStr peer)]), s')"
    "fst (app_allocate peer s) = Inr \<lparr> k_id = i, k_material = k \<rparr>"
    "bind_row i purpose (peer @ CHR '':'' # i) peer (now_s f) (e_store s) = Inr (e_store s')"
proof -
  obtain rep where rep: "ekm_get env f h (ekm_new_request p u) s = (rep, s')" "ekm_result rep = Inr (i, k)"
    using assms by (auto simp: ekm_new_def split: prod.splits)
  define path where "path = unquote (''/api/'' @ quote p @ ''/new'')"
  have g: "ekm_get env f h (ekm_new_request p u) s =
      (case ekm_get_route path [(''purpose'', u)] of
         None \<Rightarrow> (ekm_reply (Inl (HTTPException 404 (Text ''Not Found''))), s)
       | Some r \<Rightarrow> map_prod ekm_reply id (serve env f h r s))"
    unfolding ekm_get_def ekm_new_request_def path_def by simp
  have "ekm_get_route path [(''purpose'', u)] \<noteq> None"
  proof
    assume "ekm_get_route path [(''purpose'', u)] = None"
    then have "rep = ekm_reply (Inl (HTTPException 404 (Text ''Not Found'')))" using rep(1) g by simp
    then show False using rep(2) ekm_result_Inr by blast
  qed
  then obtain r where r1: "ekm_get_route path [(''purpose'', u)] = Some r" by blast
  obtain m u' where m: "serve env f h r s = (m, u')" by (cases "serve env f h r s")
  have r: "serve env f h r s = (m, s')" "ekm_result (ekm_reply m) = Inr (i, k)"
    using rep g r1 m by auto
  from ekm_result_Inr [OF r(2)] obtain j where j: "m = Inr j" "obj_item j ''key_id'' = Inr (JStr i)" by blast
  from route_key_id [OF _ j(2)] r1 r(1) j(1) ekm_get_route_no_post
  obtain peer purpose where n: "new_key f peer purpose s = (Inr j, s')" by metis
  from new_key_Inr [OF n] obtain key :: qkey where
    key: "j = JObj [(''key_id'', JStr (k_id key)), (''key'', JStr (b64e (k_material key))), (''qkd_name'', JStr peer)]"
      "bind_row (k_id key) purpose (peer @ CHR '':'' # k_id key) peer (now_s f) (e_store s) = Inr (e_store s')"
      "fst (app_allocate peer s) = Inr key" by blast
  have "k_id key = i \<and> k_material key = k"
    using r(2) j(1) key(1) by (simp add: ekm_reply_def ekm_result_key)
  then have "key = \<lparr> k_id = i, k_material = k \<rparr>" by (cases key) simp
  then show thesis using that n key by simp
qed

interpretation ekm_keys: key_service "ekm_new (ekm_get env f h)" spent_keys for env f h
proof unfold_locales
  fix p u s i k s'
  assume "ekm_new (ekm_get env f h) p u s = (Inr (i, k), s')"
  then obtain peer purpose where "bind_row i purpose (peer @ CHR '':'' # i) peer (now_s f) (e_store s) = Inr (e_store s')"
    by (rule ekm_new_served)
  from bind_row_spent [OF this] show "i \<notin> spent_keys s \<and> i \<in> spent_keys s'" by simp
next
  fix p u s r s'
  assume "ekm_new (ekm_get env f h) p u s = (r, s')"
  then show "spent_keys s \<subseteq> spent_keys s'"
    using serve_spent by (auto simp: ekm_new_def ekm_get_def ekm_new_request_def map_prod_def
        split: option.splits prod.splits)
qed

interpretation ekm_http: ekm_service "ekm_get env f h" spent_keys for env f h
  by (rule ekm_service.intro) (rule ekm_keys.key_service_axioms)

end
