(* ===== verification/UploadApp.thy ===== *)
theory UploadApp
  imports KeyService
begin

text \<open>
  \<open>src/qkd_ekm/upload/app.py\<close>: the file upload server. Its state is the cache of file keys with their
  expiry; the EKM is reached as in \<open>EkmClient\<close>, and the sink takes an object name and bytes. Cloud
  Storage is a parameter of \<open>gcs_upload\<close>; \<open>DirSink\<close> is defined. A handler reads the clock where the
  code does, and \<open>uuid\<close> is what \<open>uuid4\<close> gives.
\<close>

section \<open>Sinks\<close>

type_synonym 's sink = "string \<Rightarrow> bytes \<Rightarrow> 's \<Rightarrow> string py \<times> 's"

text \<open>What the file system makes of one object: written, or OSError before the file was opened, or OSError once
  it was truncated and some bytes were written.\<close>

datatype object_write = Written | NotOpened | CutAfter nat

text \<open>\<open>ds_disk\<close> is the file system under the directory: it may refuse by the name (its length, for one), the data
  and what is stored.\<close>

record dir_sink =
  ds_bucket :: string
  ds_objects :: "(string \<times> bytes) list"
  ds_disk :: "(string \<times> bytes) list \<Rightarrow> string \<Rightarrow> bytes \<Rightarrow> object_write"

text \<open>\<open>DirSink.upload\<close>; \<open>open\<close> raises ValueError for a name with a null character.\<close>

definition dir_upload :: "dir_sink sink" where
  "dir_upload object_name data s =
     (if CHR ''/'' \<in> set object_name \<or> object_name \<in> {[], ''.'', ''..''} then (Inl ValueError, s)
      else if CHR 0x00 \<in> set object_name then (Inl ValueError, s)
      else (case ds_disk s (ds_objects s) object_name data of
          NotOpened \<Rightarrow> (Inl OSError, s)
        | CutAfter n \<Rightarrow> (Inl OSError, s\<lparr>ds_objects := AList.update object_name (take n data) (ds_objects s)\<rparr>)
        | Written \<Rightarrow>
            (Inr (''gs://'' @ ds_bucket s @ CHR ''/'' # object_name),
             s\<lparr>ds_objects := AList.update object_name data (ds_objects s)\<rparr>)))"

text \<open>What a sink owes: where it takes an object, the object is found under its name, and the others stay,
  also when an upload fails.\<close>

locale object_sink =
  fixes put :: "'s sink" and get_object :: "'s \<Rightarrow> string \<Rightarrow> bytes option"
    and takes :: "'s \<Rightarrow> string \<Rightarrow> bytes \<Rightarrow> bool"
  assumes put_takes: "takes s n d \<Longrightarrow> \<exists>uri. fst (put n d s) = Inr uri"
    and put_get: "put n d s = (Inr uri, s') \<Longrightarrow> get_object s' m = (if m = n then Some d else get_object s m)"
    and put_error: "put n d s = (Inl e, s') \<Longrightarrow> m \<noteq> n \<Longrightarrow> get_object s' m = get_object s m"

definition object_name_ok :: "string \<Rightarrow> bool" where
  "object_name_ok n \<longleftrightarrow> CHR ''/'' \<notin> set n \<and> CHR 0x00 \<notin> set n \<and> n \<notin> {[], ''.'', ''..''}"

definition dir_takes :: "dir_sink \<Rightarrow> string \<Rightarrow> bytes \<Rightarrow> bool" where
  "dir_takes s n d \<longleftrightarrow> object_name_ok n \<and> ds_disk s (ds_objects s) n d = Written"

interpretation dir_objects: object_sink dir_upload "\<lambda>s. map_of (ds_objects s)" dir_takes
  by unfold_locales
    (auto simp: dir_upload_def dir_takes_def object_name_ok_def update_conv split: if_splits object_write.splits)

text \<open>\<open>GcsSink\<close> over \<open>upload_from_string\<close> of a blob of the bucket. It is a sink if Cloud Storage keeps what
  it takes.\<close>

definition gcs_upload :: "(string \<Rightarrow> bytes \<Rightarrow> 's \<Rightarrow> unit py \<times> 's) \<Rightarrow> string \<Rightarrow> 's sink" where
  "gcs_upload write_blob bucket_name object_name data s =
     (case write_blob object_name data s of
        (Inl e, s') \<Rightarrow> (Inl e, s')
      | (Inr _, s') \<Rightarrow> (Inr (''gs://'' @ bucket_name @ CHR ''/'' # object_name), s'))"

lemma gcs_upload_sink:
  assumes "\<And>n d s. takes s n d \<Longrightarrow> fst (write_blob n d s) = Inr ()"
    and "\<And>n d s s' m. write_blob n d s = (Inr (), s') \<Longrightarrow> get_object s' m = (if m = n then Some d else get_object s m)"
    and "\<And>n d s e s' m. write_blob n d s = (Inl e, s') \<Longrightarrow> m \<noteq> n \<Longrightarrow> get_object s' m = get_object s m"
  shows "object_sink (gcs_upload write_blob b) get_object takes"
proof
  show "\<exists>uri. fst (gcs_upload write_blob b n d s) = Inr uri" if "takes s n d" for n d s
    using assms(1) [OF that] by (cases "write_blob n d s") (simp add: gcs_upload_def)
  show "get_object s' m = (if m = n then Some d else get_object s m)"
    if "gcs_upload write_blob b n d s = (Inr uri, s')" for n d s uri s' m
    using that by (intro assms(2)) (simp add: gcs_upload_def split: sum.splits prod.splits)
  show "get_object s' m = get_object s m" if "gcs_upload write_blob b n d s = (Inl e, s')" "m \<noteq> n" for n d s e s' m
    using that by (intro assms(3)) (auto simp: gcs_upload_def split: sum.splits prod.splits)
qed

text \<open>Both sinks answer the same URI for a name that both take.\<close>

lemma sinks_same_uri:
  "dir_takes t n d \<Longrightarrow> write_blob n d s = (Inr (), s') \<Longrightarrow>
   fst (gcs_upload write_blob (ds_bucket t) n d s) = fst (dir_upload n d t)"
  by (simp add: gcs_upload_def dir_upload_def dir_takes_def object_name_ok_def)

section \<open>File keys\<close>

record upload_settings =
  bucket :: string
  kms_key_name :: string
  file_key_ttl_s :: rat
  peer_default :: string

type_synonym key_cache = "(string \<times> bytes \<times> rat) list"

definition prune_keys :: "rat \<Rightarrow> key_cache \<Rightarrow> key_cache" where
  "prune_keys now keys = filter (\<lambda>(kid, key, expiry). \<not> expiry \<le> now) keys"

definition get_file_key :: "rat \<Rightarrow> string \<Rightarrow> key_cache \<Rightarrow> bytes http \<times> key_cache" where
  "get_file_key now key_id keys0 =
     (let keys = prune_keys now keys0
      in (case map_of keys key_id of
            None \<Rightarrow> http_fail 404 (''unknown key id '' @ key_id)
          | Some (key, expiry) \<Rightarrow> Inr key, keys))"

definition file_key ::
  "upload_settings \<Rightarrow> (request \<Rightarrow> 'w \<Rightarrow> reply \<times> 'w) \<Rightarrow> rat \<Rightarrow> rat \<Rightarrow> string option \<Rightarrow> 'w \<times> key_cache \<Rightarrow>
   (string \<times> string) http \<times> 'w \<times> key_cache" where
  "file_key st send t1 t2 body_peer wk =
     (let peer = (case body_peer of Some (c # cs) \<Rightarrow> c # cs | _ \<Rightarrow> peer_default st);
          keys = prune_keys t1 (snd wk)
      in case ekm_new send peer ''file'' (fst wk) of
           (Inr (key_id, key), w') \<Rightarrow>
             (Inr (key_id, peer), w', AList.update key_id (key, t2 + file_key_ttl_s st) keys)
         | (Inl e, w') \<Rightarrow>
             ((case e of RuntimeError m \<Rightarrow> http_fail 503 m | _ \<Rightarrow> Inl (Unhandled e)), w', keys))"

section \<open>Uploads\<close>

definition basename :: "string \<Rightarrow> string" where
  "basename p = snd (snd (rpartition_at CHR ''/'' p))"

definition object_name_of :: "string \<Rightarrow> string \<Rightarrow> string" where
  "object_name_of uuid filename = uuid @ CHR ''_'' # take 255 (basename filename)"

definition upload ::
  "aead \<Rightarrow> 's sink \<Rightarrow> rat \<Rightarrow> string \<Rightarrow> bytes \<Rightarrow> string \<Rightarrow> string \<Rightarrow> 's \<times> key_cache \<Rightarrow>
   (string \<times> nat) http \<times> 's \<times> key_cache" where
  "upload A put now key_id blob filename uuid sk =
     (case get_file_key now key_id (snd sk) of
        (Inl e, keys) \<Rightarrow> (Inl e, fst sk, keys)
      | (Inr key, keys) \<Rightarrow>
          (case aes_gcm_unwrap A key blob (utf8 filename) of
             Inl e \<Rightarrow> (if e = ValueError then http_fail 400 ''decryption failed'' else Inl (Unhandled e), fst sk, keys)
           | Inr plaintext \<Rightarrow>
               (case put (object_name_of uuid filename) plaintext (fst sk) of
                  (Inl e, s') \<Rightarrow> (Inl (Unhandled e), s', keys)
                | (Inr uri, s') \<Rightarrow> (Inr (uri, length plaintext), s', keys))))"

section \<open>Runs\<close>

datatype upload_event =
    FileKey rat rat "string option"
  | Upload rat string bytes string string

definition upload_next ::
  "upload_settings \<Rightarrow> aead \<Rightarrow> (request \<Rightarrow> 'w \<Rightarrow> reply \<times> 'w) \<Rightarrow> 's sink \<Rightarrow> upload_event \<Rightarrow>
   'w \<times> 's \<times> key_cache \<Rightarrow> 'w \<times> 's \<times> key_cache" where
  "upload_next st A send put ev wsk =
     (case wsk of (w, s, keys) \<Rightarrow>
       (case ev of
          FileKey t1 t2 p \<Rightarrow> (case file_key st send t1 t2 p (w, keys) of (r, w', keys') \<Rightarrow> (w', s, keys'))
        | Upload now key_id blob filename uuid \<Rightarrow>
            (case upload A put now key_id blob filename uuid (s, keys) of (r, s', keys') \<Rightarrow> (w, s', keys'))))"

fun upload_exec ::
  "upload_settings \<Rightarrow> aead \<Rightarrow> (request \<Rightarrow> 'w \<Rightarrow> reply \<times> 'w) \<Rightarrow> 's sink \<Rightarrow> upload_event list \<Rightarrow>
   'w \<times> 's \<times> key_cache \<Rightarrow> 'w \<times> 's \<times> key_cache" where
  "upload_exec st A send put [] wsk = wsk"
| "upload_exec st A send put (ev # evs) wsk = upload_exec st A send put evs (upload_next st A send put ev wsk)"

text \<open>The clock readings that decide what is pruned.\<close>

fun prunes_at :: "upload_event \<Rightarrow> rat" where
  "prunes_at (FileKey t1 t2 p) = t1"
| "prunes_at (Upload now key_id blob filename uuid) = now"

lemma prune_map_of:
  "distinct (map fst keys) \<Longrightarrow>
   map_of (prune_keys now keys) k = (case map_of keys k of Some (key, expiry) \<Rightarrow> if expiry \<le> now then None else Some (key, expiry) | None \<Rightarrow> None)"
  by (induction keys) (auto simp: prune_keys_def map_of_eq_None_iff rev_image_eqI split: option.splits)

lemma prune_distinct: "distinct (map fst keys) \<Longrightarrow> distinct (map fst (prune_keys now keys))"
  by (simp add: prune_keys_def distinct_map_filter)

lemma get_file_key_keys [simp]: "snd (get_file_key now key_id keys) = prune_keys now keys"
  by (simp add: get_file_key_def Let_def)

lemma upload_keys: "upload A put now key_id blob filename uuid (s, keys) = (r, s', keys') \<Longrightarrow> keys' = prune_keys now keys"
  using get_file_key_keys [of now key_id keys]
  by (auto simp: upload_def split: prod.splits sum.splits simp del: get_file_key_keys)

context ekm_service
begin

text \<open>An entry survives every event whose clock reading is before its expiry: another key never comes
  under the same identifier.\<close>

lemma file_key_spent:
  assumes "file_key st send t1 t2 p (w, keys) = (r, w', keys')"
  shows "spent w \<subseteq> spent w' \<and>
    (keys' = prune_keys t1 keys \<or>
     (\<exists>i key. i \<notin> spent w \<and> i \<in> spent w' \<and> keys' = AList.update i (key, t2 + file_key_ttl_s st) (prune_keys t1 keys)))"
proof -
  define peer where "peer = (case p of Some (c # cs) \<Rightarrow> c # cs | _ \<Rightarrow> peer_default st)"
  obtain d w1 where d: "ekm_new send peer ''file'' w = (d, w1)" by (cases "ekm_new send peer ''file'' w")
  show ?thesis
  proof (cases d)
    case (Inl e)
    then show ?thesis using assms d spent_mono [OF d] by (auto simp: file_key_def Let_def peer_def [symmetric])
  next
    case (Inr ik)
    obtain i k where ik: "ik = (i, k)" by (cases ik)
    have "i \<notin> spent w" "i \<in> spent w1" using fresh_key [of peer "''file''" w i k w1] d Inr ik by auto
    then show ?thesis using assms d Inr ik spent_mono [OF d] by (auto simp: file_key_def Let_def peer_def [symmetric])
  qed
qed

lemma file_key_Inr:
  assumes "file_key st send t1 t2 p (w, keys) = (Inr (i, q), w', keys')" "distinct (map fst keys)"
  shows "\<exists>key. map_of keys' i = Some (key, t2 + file_key_ttl_s st) \<and> i \<in> spent w' \<and> distinct (map fst keys') \<and>
    (fst (ekm_new send q ''file'' w) = Inr (i, key))"
proof -
  define peer where "peer = (case p of Some (c # cs) \<Rightarrow> c # cs | _ \<Rightarrow> peer_default st)"
  obtain d w1 where d: "ekm_new send peer ''file'' w = (d, w1)" by (cases "ekm_new send peer ''file'' w")
  with assms(1) obtain key where k: "d = Inr (i, key)" "q = peer" "w' = w1"
      "keys' = AList.update i (key, t2 + file_key_ttl_s st) (prune_keys t1 keys)"
    by (auto simp: file_key_def Let_def http_fail_def peer_def [symmetric] split: sum.splits py_error.splits)
  have "i \<in> spent w1" using fresh_key d k(1) by blast
  then show ?thesis using d k prune_distinct [OF assms(2)] by (simp add: update_conv distinct_update)
qed

lemma entry_survives:
  assumes "upload_exec st A send put evs (w, s, keys) = (w', s', keys')"
    and "map_of keys i = Some (key, expiry)" "i \<in> spent w" "distinct (map fst keys)"
    and "\<forall>ev \<in> set evs. prunes_at ev < expiry"
  shows "map_of keys' i = Some (key, expiry) \<and> distinct (map fst keys')"
  using assms
proof (induction evs arbitrary: w s keys)
  case (Cons ev evs)
  obtain w1 s1 keys1 where n: "upload_next st A send put ev (w, s, keys) = (w1, s1, keys1)"
    by (cases "upload_next st A send put ev (w, s, keys)")
  have pr: "map_of (prune_keys (prunes_at ev) keys) i = Some (key, expiry)"
    using Cons.prems(2,4,5) by (simp add: prune_map_of)
  have di: "distinct (map fst (prune_keys (prunes_at ev) keys))" by (rule prune_distinct [OF Cons.prems(4)])
  have "map_of keys1 i = Some (key, expiry) \<and> i \<in> spent w1 \<and> distinct (map fst keys1)"
  proof (cases ev)
    case (FileKey t1 t2 p)
    obtain r where f: "file_key st send t1 t2 p (w, keys) = (r, w1, keys1)"
      using n FileKey by (cases "file_key st send t1 t2 p (w, keys)") (auto simp: upload_next_def)
    show ?thesis using file_key_spent [OF f] pr di Cons.prems(3) FileKey
      by (auto simp: update_conv distinct_update)
  next
    case (Upload now key_id blob filename uuid)
    obtain r where u: "upload A put now key_id blob filename uuid (s, keys) = (r, s1, keys1)" and "w1 = w"
      using n Upload by (cases "upload A put now key_id blob filename uuid (s, keys)") (auto simp: upload_next_def)
    then show ?thesis using upload_keys [OF u] pr di Cons.prems(3) Upload by simp
  qed
  then show ?case using Cons.IH [of w1 s1 keys1] Cons.prems(1,5) n by simp
qed simp

end

section \<open>Object names\<close>

lemma basename_no_slash: "CHR ''/'' \<notin> set (basename p)"
proof -
  have "CHR ''/'' \<notin> set (takeWhile (\<lambda>x. x \<noteq> CHR ''/'') (rev p))" by (metis (mono_tags, lifting) set_takeWhileD)
  moreover have "CHR ''/'' \<notin> set p" if "dropWhile (\<lambda>x. x \<noteq> CHR ''/'') (rev p) = []"
    using that by (auto simp: dropWhile_eq_Nil_conv)
  ultimately show ?thesis by (auto simp: basename_def rpartition_at_def Let_def split: list.splits)
qed

lemma basename_chars: "set (basename p) \<subseteq> set p"
  by (auto simp: basename_def rpartition_at_def Let_def split: list.splits dest!: set_takeWhileD)

lemma object_name_valid:
  assumes "CHR ''/'' \<notin> set uuid" "CHR 0x00 \<notin> set (uuid @ filename)"
  shows "object_name_ok (object_name_of uuid filename)"
proof -
  have "CHR ''_'' \<in> set (object_name_of uuid filename)" by (simp add: object_name_of_def)
  moreover have "CHR ''_'' \<notin> set n" if "n \<in> {[], ''.'', ''..''}" for n using that by auto
  ultimately have "object_name_of uuid filename \<notin> {[], ''.'', ''..''}" by blast
  moreover have "CHR ''/'' \<notin> set (take 255 (basename filename))" "CHR 0x00 \<notin> set (take 255 (basename filename))"
    using basename_no_slash [of filename] basename_chars [of filename] assms(2) by (auto dest: in_set_takeD)
  ultimately show ?thesis using assms by (simp add: object_name_ok_def object_name_of_def)
qed

text \<open>The cut of the basename to 255 characters leaves object names of up to 292, with a \<open>uuid4\<close> of 36.\<close>

lemma object_name_length:
  "length (object_name_of uuid filename) = length uuid + 1 + min 255 (length (basename filename))"
  by (simp add: object_name_of_def)

section \<open>Properties\<close>

text \<open>Property C30. An encrypted upload arrives: what a client wrapped with the key of a \<open>/api/file_key\<close>
  answer is stored in plaintext under a name of its own, its size answered, whatever other requests
  came in between, as long as the key has not expired and the file system takes the object; where it does
  not, the error is a 500 and every other object is as before; once the key has expired, the upload is
  answered 404 and nothing is stored.\<close>

theorem upload_delivers_plaintext:
  assumes "file_key st (ekm_get env f h) t1 t2 p (s0, keys0) = (Inr (i, q), s1, keys1)" "distinct (map fst keys0)"
    and "fst (ekm_new (ekm_get env f h) q ''file'' s0) = Inr (i, key)"
    and "upload_exec st A (ekm_get env f h) dir_upload evs (s1, d1, keys1) = (s2, d2, keys2)"
    and "\<forall>ev \<in> set evs. prunes_at ev < t2 + file_key_ttl_s st"
    and "aead_ok A" "length nonce = NONCE_LEN" "aes_gcm_wrap A nonce key plaintext (utf8 filename) = Inr blob"
    and "CHR ''/'' \<notin> set uuid" "CHR 0x00 \<notin> set (uuid @ filename)"
  shows "if now < t2 + file_key_ttl_s st \<and>
      ds_disk d2 (ds_objects d2) (object_name_of uuid filename) plaintext \<noteq> Written
    then \<exists>d3. upload A dir_upload now i blob filename uuid (d2, keys2) =
           (Inl (Unhandled OSError), d3, prune_keys now keys2) \<and>
         (\<forall>n. n \<noteq> object_name_of uuid filename \<longrightarrow> map_of (ds_objects d3) n = map_of (ds_objects d2) n)
    else if now < t2 + file_key_ttl_s st
    then \<exists>d3. upload A dir_upload now i blob filename uuid (d2, keys2) =
           (Inr (''gs://'' @ ds_bucket d2 @ CHR ''/'' # object_name_of uuid filename, length plaintext), d3, prune_keys now keys2) \<and>
         map_of (ds_objects d3) = (map_of (ds_objects d2))(object_name_of uuid filename \<mapsto> plaintext)
    else upload A dir_upload now i blob filename uuid (d2, keys2) =
           (http_fail 404 (''unknown key id '' @ i), d2, prune_keys now keys2)"
proof -
  from ekm_http.file_key_Inr [OF assms(1,2)] assms(3)
  have e: "map_of keys1 i = Some (key, t2 + file_key_ttl_s st)" "i \<in> spent_keys s1" "distinct (map fst keys1)" by auto
  from ekm_http.entry_survives [OF assms(4) e(1,2,3) assms(5)]
  have m: "map_of keys2 i = Some (key, t2 + file_key_ttl_s st)" "distinct (map fst keys2)" by simp_all
  have u: "aes_gcm_unwrap A key blob (utf8 filename) = Inr plaintext"
    using wrap_unwrap [OF assms(6) wrap_key_ok [OF assms(6,8)] assms(7), of plaintext "utf8 filename"] assms(8) by auto
  have n: "CHR ''/'' \<notin> set (object_name_of uuid filename) \<and> object_name_of uuid filename \<notin> {[], ''.'', ''..''}"
    "CHR 0x00 \<notin> set (object_name_of uuid filename)"
    using object_name_valid [OF assms(9,10)] by (simp_all add: object_name_ok_def)
  show ?thesis
  proof (cases "now < t2 + file_key_ttl_s st")
    case True
    then show ?thesis using m u n
      by (cases "ds_disk d2 (ds_objects d2) (object_name_of uuid filename) plaintext")
        (auto simp: upload_def get_file_key_def Let_def prune_map_of dir_upload_def update_conv')
  next
    case False
    then show ?thesis using m by (simp add: upload_def get_file_key_def Let_def prune_map_of http_fail_def)
  qed
qed

definition demo_upload :: upload_settings where
  "demo_upload = \<lparr> bucket = ''b'', kms_key_name = ''kms'', file_key_ttl_s = 600, peer_default = ''QKD2'' \<rparr>"

abbreviation demo_upload_send :: "request \<Rightarrow> ekm \<Rightarrow> reply \<times> ekm" where
  "demo_upload_send \<equiv> ekm_get demo_env demo_fresh ''Bearer s''"

lemma demo_file_key:
  "fst (file_key demo_upload demo_upload_send 0 1 None (demo_ekm, [])) = Inr (''a'', ''QKD2'')"
  "fst (ekm_new demo_upload_send ''QKD2'' ''file'' demo_ekm) = Inr (''a'', replicate 32 1)"
proof -
  have "(case serve demo_env demo_fresh ''Bearer s'' (GetNew ''QKD2'' ''file'') demo_ekm of
      (m, s') \<Rightarrow> ekm_result (ekm_reply m)) = Inr (''a'', replicate 32 1)" by code_simp
  then show n: "fst (ekm_new demo_upload_send ''QKD2'' ''file'' demo_ekm) = Inr (''a'', replicate 32 1)"
    by (simp add: ekm_new_get split: prod.splits)
  then show "fst (file_key demo_upload demo_upload_send 0 1 None (demo_ekm, [])) = Inr (''a'', ''QKD2'')"
    by (auto simp: file_key_def demo_upload_def Let_def split: prod.splits)
qed

definition demo_sink :: dir_sink where
  "demo_sink = \<lparr> ds_bucket = ''b'', ds_objects = [], ds_disk = (\<lambda>objects n d. Written) \<rparr>"

definition demo_cache :: key_cache where
  "demo_cache = snd (snd (file_key demo_upload demo_upload_send 0 1 None (demo_ekm, [])))"

theorem upload_delivers_plaintext_witness:
  "\<exists>blob d3. aes_gcm_wrap clear_aead (replicate 12 0) (replicate 32 1) [5] (utf8 ''x/f.txt'') = Inr blob \<and>
     upload clear_aead dir_upload 600 ''a'' blob ''x/f.txt'' ''u'' (demo_sink, demo_cache) =
       (Inr (''gs://b/u_f.txt'', 1), d3, prune_keys 600 demo_cache) \<and>
     map_of (ds_objects d3) = [''u_f.txt'' \<mapsto> [5]]"
proof -
  obtain blob where blob: "aes_gcm_wrap clear_aead (replicate 12 0) (replicate 32 1) [5] (utf8 ''x/f.txt'') = Inr blob"
    by (simp add: aes_gcm_wrap_def clear_aead_def key_ok_def)
  have n: "object_name_of ''u'' ''x/f.txt'' = ''u_f.txt''" by code_simp
  obtain s1 where f: "file_key demo_upload demo_upload_send 0 1 None (demo_ekm, []) = (Inr (''a'', ''QKD2''), s1, demo_cache)"
    using demo_file_key(1) by (metis demo_cache_def prod.collapse)
  from upload_delivers_plaintext [OF f _ demo_file_key(2), of clear_aead "[]" demo_sink s1 demo_sink demo_cache
      "replicate 12 0" "[5]" "''x/f.txt''" blob "''u''" 600] blob n
  show ?thesis by (simp add: demo_upload_def NONCE_LEN_def clear_aead_ok demo_sink_def)
qed

end
