(* ===== verification/VpnService.thy ===== *)
theory VpnService
  imports VpnApp KeyService
begin

text \<open>
  Runs of the VPN control API: requests, tasks whose sleep is over and restarts, in any order. What
  they keep of the address table, what a refresh promises, and how the keys of a run relate to the
  EKM that serves them.
\<close>

section \<open>Runs\<close>

datatype vpn_event =
    VpnRequest string vpn_route vpn_io
  | VpnFire nat vpn_io
  | VpnRestart

definition vpn_next ::
  "vpn_settings \<Rightarrow> verifier \<Rightarrow> (request \<Rightarrow> 'w \<Rightarrow> reply \<times> 'w) \<Rightarrow> vpn_event \<Rightarrow> 'w \<times> vpn \<Rightarrow>
   vpn_answer http option \<times> 'w \<times> vpn" where
  "vpn_next st verify send ev wv =
     (case ev of
        VpnRequest h r io \<Rightarrow> apfst Some (vpn_serve st verify io send h r wv)
      | VpnFire i io \<Rightarrow> (None, fst wv, fire st io i (snd wv))
      | VpnRestart \<Rightarrow> (None, fst wv, vpn_create_app (peers_disk (snd wv)) (installs (snd wv))))"

fun vpn_exec ::
  "vpn_settings \<Rightarrow> verifier \<Rightarrow> (request \<Rightarrow> 'w \<Rightarrow> reply \<times> 'w) \<Rightarrow> vpn_event list \<Rightarrow> 'w \<times> vpn \<Rightarrow>
   vpn_answer http option list \<times> 'w \<times> vpn" where
  "vpn_exec st verify send [] wv = ([], wv)"
| "vpn_exec st verify send (ev # evs) wv =
     (case vpn_next st verify send ev wv of (a, wv1) \<Rightarrow> apfst ((#) a) (vpn_exec st verify send evs wv1))"

section \<open>The leases\<close>

text \<open>A table of records as the addresses it leases. \<open>lease_ok\<close>: no peer and no address occurs twice,
  every address is a host of the tunnel other than the server, and WireGuard accepted the peer with
  that address.\<close>

definition leases :: "(string \<times> peer_record) list \<Rightarrow> (string \<times> string) list" where
  "leases ps = map (\<lambda>p. (fst p, client_ip (snd p))) ps"

definition free_hosts :: "vpn_settings \<Rightarrow> string set" where
  "free_hosts st =
     (case (ip_interface (server_address st), ip_network (tunnel_cidr st)) of
        (Inr (ip, len), Inr net) \<Rightarrow> set (map ipv4_str (hosts net)) - {ipv4_str ip}
      | _ \<Rightarrow> {})"

definition lease_ok :: "vpn_settings \<Rightarrow> (string \<times> bytes \<times> string) list \<Rightarrow> (string \<times> string) list \<Rightarrow> bool" where
  "lease_ok st A L \<longleftrightarrow>
     distinct (map fst L) \<and> distinct (map snd L) \<and>
     (\<forall>(k, ip) \<in> set L. ip \<in> free_hosts st \<and> (\<exists>key. (k, key, ip @ ''/32'') \<in> set A))"

text \<open>The dictionary entry a task belongs to: every task is the one its peer's entry names.\<close>

fun owner :: "work \<Rightarrow> string" where
  "owner (Due k) = k"
| "owner (Activate k key_id key) = k"

fun handle_of :: "vpn \<Rightarrow> work \<Rightarrow> nat option" where
  "handle_of v (Due k) = map_of (timers v) k"
| "handle_of v (Activate k key_id key) = map_of (activations v) k"

text \<open>Two works share an entry when they have the same owner and the same kind.\<close>

fun same_entry :: "work \<Rightarrow> work \<Rightarrow> bool" where
  "same_entry (Due k) (Due k') = (k = k')"
| "same_entry (Activate k i x) (Activate k' j y) = (k = k')"
| "same_entry w w' = False"

text \<open>No task number is in two entries, and the numbers given out are below \<open>next_task\<close>.\<close>

definition handles_ok :: "vpn \<Rightarrow> bool" where
  "handles_ok v \<longleftrightarrow>
     (\<forall>w i. handle_of v w = Some i \<longrightarrow> i < next_task v) \<and>
     (\<forall>w w' i. handle_of v w = Some i \<longrightarrow> handle_of v w' = Some i \<longrightarrow> same_entry w w')"

definition tasks_ok :: "vpn \<Rightarrow> bool" where
  "tasks_ok v \<longleftrightarrow>
     handles_ok v \<and> distinct (map fst (tasks v)) \<and>
     (\<forall>(i, d, w) \<in> set (tasks v). i < next_task v \<and> handle_of v w = Some i \<and> owner w \<in> fst ` set (peers_mem v))"

definition vpn_ok :: "vpn_settings \<Rightarrow> vpn \<Rightarrow> bool" where
  "vpn_ok st v \<longleftrightarrow>
     lease_ok st (installs v) (leases (peers_mem v)) \<and> lease_ok st (installs v) (leases (peers_disk v)) \<and> tasks_ok v"

lemma leases_simps [simp]:
  "leases [] = []" "leases (p # ps) = (fst p, client_ip (snd p)) # leases ps" "leases (ps @ qs) = leases ps @ leases qs"
  "map fst (leases ps) = map fst ps"
  by (simp_all add: leases_def)

lemma leases_update:
  "map_of ps k = Some r \<Longrightarrow> client_ip r' = client_ip r \<Longrightarrow> leases (AList.update k r' ps) = leases ps"
  by (induction ps) (auto split: if_splits)

lemma leases_map_entry: "(\<And>r. client_ip (f r) = client_ip r) \<Longrightarrow> leases (AList.map_entry k f ps) = leases ps"
  by (induction ps) auto

lemma delete_new: "k \<notin> fst ` set ps \<Longrightarrow> AList.delete k (ps @ [(k, r)]) = ps"
  by (induction ps) auto

lemma leases_keys: "map fst ps = map fst (leases ps)" "fst ` set ps = fst ` set (leases ps)"
  by (simp_all add: leases_def image_image)

lemma addresses_taken_leases: "addresses_taken v = snd ` set (leases (peers_mem v))"
  by (simp add: addresses_taken_def leases_def image_image)

lemma lease_ok_mono: "lease_ok st A L \<Longrightarrow> set A \<subseteq> set B \<Longrightarrow> lease_ok st B L"
  by (fastforce simp: lease_ok_def)

lemma find_None_set: "find P xs = None \<longleftrightarrow> (\<forall>x \<in> set xs. \<not> P x)"
  by (induction xs) auto

lemma allocate_ip_Inr:
  assumes "allocate_ip st v = Inr ip"
  shows "ip \<in> free_hosts st" "ip \<notin> addresses_taken v"
  using assms by (auto simp: allocate_ip_def free_hosts_def http_fail_def dest!: find_SomeD
      split: sum.splits prod.splits option.splits)

section \<open>The operations keep the invariant\<close>

lemma cancel_task_simps [simp]:
  "peers_mem (cancel_task i v) = peers_mem v" "peers_disk (cancel_task i v) = peers_disk v"
  "installs (cancel_task i v) = installs v" "timers (cancel_task i v) = timers v"
  "activations (cancel_task i v) = activations v" "next_task (cancel_task i v) = next_task v"
  "handle_of (cancel_task i v) w = handle_of v w"
  by (cases w; simp add: cancel_task_def split: option.splits)+

lemma set_cancelled: "set (tasks (cancel_task i v)) = {t \<in> set (tasks v). Some (fst t) \<noteq> i}"
  by (auto simp: cancel_task_def split: option.splits)

lemma tasks_okD:
  assumes "tasks_ok v" "(i, d, w) \<in> set (tasks v)"
  shows "i < next_task v" "handle_of v w = Some i" "owner w \<in> fst ` set (peers_mem v)"
  using assms by (auto simp: tasks_ok_def)

lemma handles_ok_cong:
  "(\<And>w. handle_of u w = handle_of v w) \<Longrightarrow> next_task u = next_task v \<Longrightarrow> handles_ok u = handles_ok v"
  by (simp add: handles_ok_def)

lemma tasks_ok_cancel: "tasks_ok v \<Longrightarrow> tasks_ok (cancel_task i v)"
  using handles_ok_cong [of "cancel_task i v" v]
  by (auto simp: tasks_ok_def set_cancelled distinct_map_filter) (auto simp: cancel_task_def distinct_map_filter split: option.splits)

text \<open>A task that replaces the one its entry names: the old one is cancelled, the new one gets a new
  number, and the other tasks keep their entries.\<close>

definition replace_task :: "int \<Rightarrow> work \<Rightarrow> int \<Rightarrow> vpn \<Rightarrow> vpn" where
  "replace_task delay w now v =
     (case schedule delay w now (cancel_task (handle_of v w) v) of
        (i, v1) \<Rightarrow> (case w of
            Due k \<Rightarrow> v1\<lparr>timers := AList.update k i (timers v1)\<rparr>
          | Activate k key_id key \<Rightarrow> v1\<lparr>activations := AList.update k i (activations v1)\<rparr>))"

lemma arm_replace: "arm_refresh_timer st now k v = replace_task (refresh_s st) (Due k) now v"
  by (simp add: arm_refresh_timer_def replace_task_def)

lemma replace_task_simps [simp]:
  "peers_mem (replace_task delay w now v) = peers_mem v" "peers_disk (replace_task delay w now v) = peers_disk v"
  "installs (replace_task delay w now v) = installs v" "next_task (replace_task delay w now v) = Suc (next_task v)"
  "tasks (replace_task delay w now v) =
     tasks (cancel_task (handle_of v w) v) @ [(next_task v, now + delay * 1000000, w)]"
  by (simp_all add: replace_task_def schedule_def split: work.splits)

lemma handle_replace:
  "handle_of (replace_task delay w now v) w' = (if same_entry w w' then Some (next_task v) else handle_of v w')"
  by (cases w; cases w') (simp_all add: replace_task_def schedule_def update_conv)

lemma same_entry_handle: "same_entry w w' \<Longrightarrow> handle_of v w' = handle_of v w"
  by (cases w; cases w') simp_all

lemma same_entry_refl [simp]: "same_entry w w"
  by (cases w) simp_all

lemma same_entry_trans: "same_entry w a \<Longrightarrow> same_entry w b \<Longrightarrow> same_entry a b"
  by (cases w; cases a; cases b) simp_all

lemma handles_ok_replace: "handles_ok v \<Longrightarrow> handles_ok (replace_task delay w now v)"
  unfolding handles_ok_def handle_replace replace_task_simps
  by (smt (verit) less_Suc_eq less_irrefl option.inject same_entry_trans)

lemma tasks_ok_replace:
  assumes "tasks_ok v" "owner w \<in> fst ` set (peers_mem v)"
  shows "tasks_ok (replace_task delay w now v)"
proof -
  let ?u = "cancel_task (handle_of v w) v" and ?r = "replace_task delay w now v"
  have u: "tasks_ok ?u" by (rule tasks_ok_cancel [OF assms(1)])
  have other: "\<not> same_entry w w'" if "(i, d, w') \<in> set (tasks ?u)" for i d w'
  proof
    assume "same_entry w w'"
    then have "handle_of v w = Some i" using tasks_okD(2) [OF u that] same_entry_handle [of w w' v] by simp
    then show False using that by (simp add: set_cancelled)
  qed
  have "next_task v \<notin> fst ` set (tasks ?u)" using tasks_okD(1) [OF u] by fastforce
  moreover have "distinct (map fst (tasks ?u))" using u by (simp add: tasks_ok_def)
  moreover have "\<forall>(i, d, w') \<in> set (tasks ?u). i < next_task ?r \<and> handle_of ?r w' = Some i \<and>
      owner w' \<in> fst ` set (peers_mem ?r)"
    using tasks_okD [OF u] other by (fastforce simp: handle_replace)
  moreover have "handle_of ?r w = Some (next_task v)" "owner w \<in> fst ` set (peers_mem ?r)"
    using assms(2) by (simp_all add: handle_replace)
  moreover have "handles_ok ?r" using assms(1) by (simp add: tasks_ok_def handles_ok_replace)
  ultimately show ?thesis
    unfolding tasks_ok_def by (simp add: ball_Un del: replace_task_simps(1))
qed

lemma tasks_ok_mem:
  assumes "tasks_ok v" "tasks u = tasks v" "next_task u = next_task v" "timers u = timers v"
    "activations u = activations v" "fst ` set (peers_mem v) \<subseteq> fst ` set (peers_mem u)"
  shows "tasks_ok u"
proof -
  have "handle_of u w = handle_of v w" for w using assms by (cases w) simp_all
  moreover from this have "handles_ok u" using assms handles_ok_cong [of u v] by (simp add: tasks_ok_def)
  ultimately show ?thesis using assms tasks_okD [OF assms(1)] unfolding tasks_ok_def by fastforce
qed

section \<open>What the operations do to the leases\<close>

text \<open>What a handler or a task may do: the leases stay or get one entry for a new address, WireGuard
  keeps what it accepted, and the file holds the old or the new leases.\<close>

lemma peers_save_cases:
  assumes "peers_save io v = (r, u)"
  shows "u = v \<or> u = v\<lparr>peers_disk := peers_mem v\<rparr>"
  using assms by (auto simp: peers_save_def split: sum.splits)

lemma apply_key_cases:
  assumes "apply_key st io k rcd key_id key new_record v = (r, u)" and "map_of (peers_mem v) k = Some rcd"
  obtains
    (refused) e where "r = Inl e" "wg_set io = Inl e"
      "u = (if new_record then v\<lparr>peers_mem := AList.delete k (peers_mem v)\<rparr> else v)"
  | (accepted) v1 where "wg_set io = Inr ()" "leases (peers_mem v1) = leases (peers_mem v)"
      "installs v1 = installs v @ [(k, key, client_ip rcd @ ''/32'')]"
      "map_of (peers_mem v1) = (map_of (peers_mem v))(k \<mapsto> rcd\<lparr>preshared_key_id := Some key_id,
           refresh_due := False, next_refresh_at := Some (now_us io + refresh_s st * 1000000)\<rparr>)"
      "tasks v1 = tasks v" "next_task v1 = next_task v" "timers v1 = timers v" "activations v1 = activations v"
      "peers_disk v1 = peers_disk v \<or> peers_disk v1 = peers_mem v1"
      "u = v1 \<and> (\<exists>e. r = Inl e) \<or> u = replace_task (refresh_s st) (Due k) (now_us io) v1 \<and> r = Inr ()"
proof (cases "wg_set io")
  case (Inl e)
  with assms(1) show thesis by (intro refused [of e]) (simp_all add: apply_key_def)
next
  case (Inr x)
  define rcd' where "rcd' = rcd\<lparr>preshared_key_id := Some key_id, refresh_due := False,
     next_refresh_at := Some (now_us io + refresh_s st * 1000000)\<rparr>"
  define v0 where "v0 = v\<lparr>installs := installs v @ [(k, key, client_ip rcd @ ''/32'')],
     peers_mem := AList.update k rcd' (peers_mem v)\<rparr>"
  obtain q v1 where s: "peers_save io v0 = (q, v1)" by (cases "peers_save io v0") auto
  have v1: "v1 = v0 \<or> v1 = v0\<lparr>peers_disk := peers_mem v0\<rparr>" by (rule peers_save_cases [OF s])
  have "leases (peers_mem v0) = leases (peers_mem v)"
    by (simp add: v0_def leases_update [OF assms(2)] rcd'_def)
  moreover have "apply_key st io k rcd key_id key new_record v =
      (case q of Inl e \<Rightarrow> (Inl e, v1) | Inr _ \<Rightarrow> (Inr (), arm_refresh_timer st (now_us io) k v1))"
    using Inr s by (simp add: apply_key_def Let_def v0_def rcd'_def split: sum.splits)
  ultimately show thesis
    using assms(1) v1 Inr by (intro accepted [of v1]) (auto simp: v0_def rcd'_def update_conv arm_replace split: sum.splits)
qed

section \<open>Every step keeps the invariant\<close>

lemma keys_leases: "leases ps = leases qs \<Longrightarrow> fst ` set ps = fst ` set qs"
  using leases_keys(2) [of ps] leases_keys(2) [of qs] by simp

lemma vpn_ok_accepted:
  assumes "vpn_ok st v" "lease_ok st (installs v1) (leases (peers_mem v1))" "k \<in> fst ` set (peers_mem v1)"
    "set (installs v) \<subseteq> set (installs v1)" "fst ` set (peers_mem v) \<subseteq> fst ` set (peers_mem v1)"
    "tasks v1 = tasks v" "next_task v1 = next_task v" "timers v1 = timers v" "activations v1 = activations v"
    "peers_disk v1 = peers_disk v \<or> peers_disk v1 = peers_mem v1"
    "u = v1 \<or> u = replace_task d (Due k) n v1"
  shows "vpn_ok st u"
proof -
  have "tasks_ok v1" using assms by (auto intro: tasks_ok_mem simp: vpn_ok_def)
  moreover from this have "tasks_ok (replace_task d (Due k) n v1)" using assms(3) by (simp add: tasks_ok_replace)
  moreover have "lease_ok st (installs v1) (leases (peers_disk v1))"
    using assms(1,2,4,10) by (auto simp: vpn_ok_def intro: lease_ok_mono)
  ultimately show ?thesis using assms(2,11) by (auto simp: vpn_ok_def)
qed

lemma apply_known_ok:
  assumes ok: "vpn_ok st v" and r: "map_of (peers_mem v) k = Some rcd"
  shows "vpn_ok st (snd (apply_key st io k rcd key_id key False v))"
proof -
  obtain a u where a: "apply_key st io k rcd key_id key False v = (a, u)" by (cases "apply_key st io k rcd key_id key False v")
  have k: "k \<in> fst ` set (peers_mem v)" using r by (force dest: map_of_SomeD)
  from a r show ?thesis
  proof (cases rule: apply_key_cases)
    case (accepted v1)
    have "lease_ok st (installs v1) (leases (peers_mem v1))"
      using ok accepted(2,3) by (auto simp: vpn_ok_def intro: lease_ok_mono)
    then show ?thesis
      using vpn_ok_accepted [OF ok, of v1 k u "refresh_s st" "now_us io"] accepted a k keys_leases [OF accepted(2)] by auto
  qed (use a ok in simp)
qed

lemma apply_new_ok:
  assumes ok: "vpn_ok st v" and k: "k \<notin> fst ` set (peers_mem v)"
    and ip: "client_ip rcd \<in> free_hosts st" "client_ip rcd \<notin> addresses_taken v"
  shows "vpn_ok st (snd (apply_key st io k rcd key_id key True (v\<lparr>peers_mem := peers_mem v @ [(k, rcd)]\<rparr>)))"
proof -
  let ?v = "v\<lparr>peers_mem := peers_mem v @ [(k, rcd)]\<rparr>"
  obtain a u where a: "apply_key st io k rcd key_id key True ?v = (a, u)" by (cases "apply_key st io k rcd key_id key True ?v")
  have r: "map_of (peers_mem ?v) k = Some rcd" using k by (auto simp: map_of_append map_add_def dom_map_of_conv_image_fst [symmetric] dest: domI split: option.splits)
  from a r show ?thesis
  proof (cases rule: apply_key_cases)
    case (refused e)
    then have "u = v" using k by (simp add: delete_new)
    then show ?thesis using a ok by simp
  next
    case (accepted v1)
    have L: "leases (peers_mem v1) = leases (peers_mem v) @ [(k, client_ip rcd)]" using accepted(2) by simp
    have "lease_ok st (installs v1) (leases (peers_mem v1))"
      using ok ip k unfolding L accepted(3)
      by (fastforce simp: vpn_ok_def lease_ok_def addresses_taken_leases leases_keys(2))
    moreover have "fst ` set (peers_mem v1) = insert k (fst ` set (peers_mem v))"
      using keys_leases [OF accepted(2)] by simp
    ultimately show ?thesis
      using vpn_ok_accepted [OF ok, of v1 k u "refresh_s st" "now_us io"] accepted a by auto
  qed
qed

lemma record_for_cases:
  assumes "record_for st k q v = (r, u)"
  obtains
    (known) rcd where "r = Inr (rcd, False)" "u = v" "map_of (peers_mem v) k = Some rcd"
  | (none) e where "r = Inl e" "u = v" "map_of (peers_mem v) k = None" "allocate_ip st v = Inl e"
  | (fresh) ip rcd where "r = Inr (rcd, True)" "u = v\<lparr>peers_mem := peers_mem v @ [(k, rcd)]\<rparr>"
      "allocate_ip st v = Inr ip" "client_ip rcd = ip" "peer_qkd_id rcd = q" "k \<notin> fst ` set (peers_mem v)"
  using assms by (cases "map_of (peers_mem v) k")
    (auto simp: record_for_def Let_def map_of_eq_None_iff split: sum.splits)

lemma start_connection_ok:
  assumes "vpn_ok st (snd wv)"
  shows "vpn_ok st (snd (snd (start_connection st io send k q wv)))"
proof (cases "vpn_new_key send q (fst wv)")
  case (Pair r w')
  show ?thesis
  proof (cases r)
    case (Inr kk)
    obtain key_id key where kk: "kk = (key_id, key)" by (cases kk)
    obtain rr v1 where rr: "record_for st k q (snd wv) = (rr, v1)" by (cases "record_for st k q (snd wv)")
    have "snd (snd (start_connection st io send k q wv)) =
        (case rr of Inl e \<Rightarrow> v1 | Inr (rcd, new_record) \<Rightarrow> snd (apply_key st io k rcd key_id key new_record v1))"
      using Pair Inr kk rr by (auto simp: start_connection_def split: sum.splits prod.splits py_error.splits)
    with rr show ?thesis
    proof (cases rule: record_for_cases)
      case (fresh ip rcd)
      then show ?thesis
        using rr Pair Inr kk apply_new_ok [OF assms, of k rcd io key_id key] allocate_ip_Inr [of st "snd wv" ip]
          \<open>snd (snd (start_connection st io send k q wv)) = _\<close> by simp
    qed (use assms apply_known_ok in simp_all)
  qed (use Pair assms in \<open>simp add: start_connection_def\<close>)
qed

lemma refresh_connection_cases:
  assumes "refresh_connection st io send k wv = (r, w', u)"
  obtains (failed) e where "r = Inl e" "u = snd wv"
  | (scheduled) key_id key rcd where "r = Inr \<lparr>rr_preshared_key_id = key_id,
        rr_effective_time = now_us io + activation_delay_s st * 1000000\<rparr>"
      "map_of (peers_mem (snd wv)) k = Some rcd"
      "vpn_new_key send (peer_qkd_id rcd) (fst wv) = (Inr (key_id, key), w')"
      "u = replace_task (activation_delay_s st) (Activate k key_id key) (now_us io) (snd wv)"
  using assms
  by (auto simp: refresh_connection_def replace_task_def http_fail_def split: option.splits prod.splits sum.splits)

lemma refresh_connection_ok:
  assumes "vpn_ok st (snd wv)"
  shows "vpn_ok st (snd (snd (refresh_connection st io send k wv)))"
proof -
  obtain r w' u where e: "refresh_connection st io send k wv = (r, w', u)" by (cases "refresh_connection st io send k wv") auto
  then show ?thesis
  proof (cases rule: refresh_connection_cases)
    case (scheduled key_id key rcd)
    then have "k \<in> fst ` set (peers_mem (snd wv))" by (force dest: map_of_SomeD)
    then show ?thesis using e scheduled assms by (simp add: vpn_ok_def tasks_ok_replace)
  qed (use e assms in simp)
qed

lemma run_due_ok:
  assumes "vpn_ok st v"
  shows "vpn_ok st (run_due io k v)"
proof (cases "k \<in> fst ` set (peers_mem v)")
  case True
  let ?v = "v\<lparr>peers_mem := AList.map_entry k (\<lambda>r. r\<lparr>refresh_due := True\<rparr>) (peers_mem v)\<rparr>"
  obtain q u where u: "peers_save io ?v = (q, u)" by (cases "peers_save io ?v")
  have L: "leases (peers_mem ?v) = leases (peers_mem v)" by (simp add: leases_map_entry)
  have "tasks_ok ?v" using assms keys_leases [OF L] tasks_ok_mem [of v ?v] by (simp add: vpn_ok_def)
  moreover from this have "tasks_ok (?v\<lparr>peers_disk := peers_mem ?v\<rparr>)" by (rule tasks_ok_mem) simp_all
  ultimately have "vpn_ok st u" using peers_save_cases [OF u] assms L by (auto simp: vpn_ok_def)
  then show ?thesis using True u by (simp add: run_due_def)
qed (use assms in \<open>simp add: run_due_def\<close>)

lemma fire_ok:
  assumes "vpn_ok st v"
  shows "vpn_ok st (fire st io i v)"
proof -
  have c: "vpn_ok st (cancel_task (Some i) v)" using assms by (simp add: vpn_ok_def tasks_ok_cancel)
  then show ?thesis
    using assms run_due_ok [OF c] apply_known_ok [OF c]
    by (auto simp: fire_def Let_def run_activate_def split: option.splits work.splits)
qed

lemma vpn_create_app_ok: "lease_ok st A (leases file) \<Longrightarrow> vpn_ok st (vpn_create_app file A)"
proof -
  have "handle_of (vpn_create_app file A) w = None" for w by (cases w) (simp_all add: vpn_create_app_def)
  then have "handles_ok (vpn_create_app file A)" by (simp add: handles_ok_def)
  moreover assume "lease_ok st A (leases file)"
  ultimately show ?thesis by (simp add: vpn_ok_def vpn_create_app_def tasks_ok_def)
qed

lemma vpn_next_ok:
  assumes "vpn_ok st (snd wv)"
  shows "vpn_ok st (snd (snd (vpn_next st verify send ev wv)))"
proof (cases ev)
  case (VpnRequest h r io)
  then show ?thesis
    using assms start_connection_ok [OF assms] refresh_connection_ok [OF assms]
    by (auto simp: vpn_next_def vpn_serve_def split: sum.splits vpn_route.splits option.splits prod.splits)
next
  case VpnRestart
  have "lease_ok st (installs (snd wv)) (leases (peers_disk (snd wv)))" using assms by (simp add: vpn_ok_def)
  then show ?thesis using VpnRestart vpn_create_app_ok by (simp add: vpn_next_def)
qed (use assms fire_ok in \<open>simp add: vpn_next_def\<close>)

lemma vpn_exec_ok: "vpn_ok st (snd wv) \<Longrightarrow> vpn_ok st (snd (snd (vpn_exec st verify send evs wv)))"
proof (induction evs arbitrary: wv)
  case (Cons ev evs)
  obtain a wv1 where n: "vpn_next st verify send ev wv = (a, wv1)" by (cases "vpn_next st verify send ev wv")
  then have "vpn_ok st (snd wv1)" using vpn_next_ok [OF Cons.prems, of verify send ev] by simp
  from Cons.IH [OF this] show ?case using n by simp
qed simp

section \<open>What is in force for a peer, and what is left alone\<close>

definition psk_in_force :: "vpn \<Rightarrow> string \<Rightarrow> bytes option" where
  "psk_in_force v k = map_of (rev (map (\<lambda>(p, key, ip). (p, key)) (installs v))) k"

text \<open>The identifier the server shows for a peer, and the activations that wait for it.\<close>

definition announced :: "vpn \<Rightarrow> string \<Rightarrow> string option" where
  "announced v k = (case map_of (peers_mem v) k of None \<Rightarrow> None | Some r \<Rightarrow> preshared_key_id r)"

definition waiting :: "vpn \<Rightarrow> string \<Rightarrow> (nat \<times> int \<times> work) set" where
  "waiting v k = {t \<in> set (tasks v). same_entry (Activate k [] []) (snd (snd t))}"

definition same_for :: "string \<Rightarrow> vpn \<Rightarrow> vpn \<Rightarrow> bool" where
  "same_for k v u \<longleftrightarrow>
     psk_in_force u k = psk_in_force v k \<and> announced u k = announced v k \<and> waiting u k = waiting v k"

lemma same_for_refl [simp]: "same_for k v v"
  by (simp add: same_for_def)

lemma same_for_trans: "same_for k u v \<Longrightarrow> same_for k v w \<Longrightarrow> same_for k u w"
  by (simp add: same_for_def)

lemma same_entry_Activate: "same_entry (Activate k i x) w \<longleftrightarrow> (\<exists>a b. w = Activate k a b)"
  by (cases w) auto

lemma waiting_iff: "(i, d, w) \<in> waiting v k \<longleftrightarrow> (i, d, w) \<in> set (tasks v) \<and> (\<exists>a b. w = Activate k a b)"
  by (auto simp: waiting_def same_entry_Activate)

lemma waiting_unique:
  assumes "tasks_ok v" "(i, d, Activate k a x) \<in> set (tasks v)"
  shows "waiting v k = {(i, d, Activate k a x)}"
proof -
  have "(j, d', w) = (i, d, Activate k a x)" if "(j, d', w) \<in> waiting v k" for j d' w
  proof -
    from that obtain b y where w: "w = Activate k b y" "(j, d', w) \<in> set (tasks v)" by (auto simp: waiting_iff)
    then have "j = i" using tasks_okD(2) [OF assms(1) w(2)] tasks_okD(2) [OF assms] by simp
    then show ?thesis using assms w unfolding tasks_ok_def by (metis eq_key_imp_eq_value old.prod.inject)
  qed
  then show ?thesis using assms(2) by (auto simp: waiting_iff)
qed

lemma waiting_cancel:
  assumes "tasks_ok v" "\<not> same_entry (Activate k [] []) w"
  shows "waiting (cancel_task (handle_of v w) v) k = waiting v k"
proof -
  have no: "Some i \<noteq> handle_of v w" if "(i, d, Activate k a b) \<in> set (tasks v)" for i d a b
  proof
    assume "Some i = handle_of v w"
    then have "same_entry (Activate k a b) w"
      using tasks_okD(2) [OF assms(1) that] assms(1) unfolding tasks_ok_def handles_ok_def by metis
    then show False using assms(2) by (cases w) auto
  qed
  have "Some (fst t) \<noteq> handle_of v w" if t: "t \<in> set (tasks v)" "same_entry (Activate k [] []) (snd (snd t))" for t
  proof -
    obtain i d a b where "t = (i, d, Activate k a b)" using t(2) same_entry_Activate by (cases t) auto
    then show ?thesis using no t(1) by simp
  qed
  then show ?thesis unfolding waiting_def set_cancelled by blast
qed

lemma waiting_replace:
  assumes "tasks_ok v" "\<not> same_entry (Activate k [] []) w"
  shows "waiting (replace_task d w n v) k = waiting v k"
proof -
  have "waiting (replace_task d w n v) k = waiting (cancel_task (handle_of v w) v) k"
    using assms(2) by (auto simp: waiting_def)
  then show ?thesis using waiting_cancel [OF assms] by simp
qed

lemma waiting_replace_own:
  assumes "tasks_ok v" "owner (Activate k a x) \<in> fst ` set (peers_mem v)"
  shows "waiting (replace_task d (Activate k a x) n v) k = {(next_task v, n + d * 1000000, Activate k a x)}"
  by (rule waiting_unique [OF tasks_ok_replace [OF assms]]) simp

lemma psk_in_force_append:
  "psk_in_force (v\<lparr>installs := A @ [(p, key, ip)]\<rparr>) k = (if p = k then Some key else psk_in_force (v\<lparr>installs := A\<rparr>) k)"
  by (simp add: psk_in_force_def)

lemma psk_in_force_cong: "installs u = installs v \<Longrightarrow> psk_in_force u k = psk_in_force v k"
  by (simp add: psk_in_force_def)

lemma psk_in_force_added:
  "installs u = installs v @ [(p, key, ip)] \<Longrightarrow> psk_in_force u k = (if p = k then Some key else psk_in_force v k)"
  by (simp add: psk_in_force_def)

lemma announced_cong: "map_of (peers_mem u) k = map_of (peers_mem v) k \<Longrightarrow> announced u k = announced v k"
  by (simp add: announced_def)

lemma announced_replace [simp]:
  "announced (replace_task d w n v) k = announced v k" "psk_in_force (replace_task d w n v) k = psk_in_force v k"
  by (simp_all add: announced_def psk_in_force_def)

text \<open>A key applied to another peer.\<close>

lemma apply_other:
  assumes "apply_key st io p rcd key_id key new v = (r, u)" "map_of (peers_mem v) p = Some rcd"
    and "tasks_ok v" "p \<noteq> k"
  shows "same_for k v u"
  using assms(1,2)
proof (cases rule: apply_key_cases)
  case (refused e)
  have "map_of (AList.delete p (peers_mem v)) k = map_of (peers_mem v) k" using assms(4) by (simp add: delete_conv)
  then show ?thesis using refused by (auto simp: same_for_def announced_def psk_in_force_def waiting_def)
next
  case (accepted v1)
  have m: "map_of (peers_mem v1) k = map_of (peers_mem v) k" using accepted(4) assms(4) by simp
  have t: "tasks_ok v1"
    using tasks_ok_mem [OF assms(3), of v1] accepted(4-8) keys_leases [OF accepted(2)] by simp
  have "waiting v1 k = waiting v k" using accepted(5) by (simp add: waiting_def)
  then show ?thesis
    using accepted(9-) m assms(4) psk_in_force_added [OF accepted(3)] waiting_replace [OF t, of k "Due p"]
    by (auto simp: same_for_def announced_def)
qed

text \<open>A key applied to the peer itself.\<close>

lemma apply_own:
  assumes "apply_key st io k rcd key_id key new v = (r, u)" "map_of (peers_mem v) k = Some rcd"
    and "tasks_ok v" "wg_set io = Inr ()"
  shows "psk_in_force u k = Some key" "announced u k = Some key_id" "waiting u k = waiting v k"
proof -
  from assms(1,2) have "psk_in_force u k = Some key \<and> announced u k = Some key_id \<and> waiting u k = waiting v k"
  proof (cases rule: apply_key_cases)
    case (accepted v1)
    have t: "tasks_ok v1"
      using tasks_ok_mem [OF assms(3), of v1] accepted(4-8) keys_leases [OF accepted(2)] by simp
    have "waiting v1 k = waiting v k" using accepted(5) by (simp add: waiting_def)
    then show ?thesis
      using accepted(4,10) psk_in_force_added [OF accepted(3)] waiting_replace [OF t, of k "Due k"]
      by (auto simp: announced_def)
  qed (use assms(4) in simp)
  then show "psk_in_force u k = Some key" "announced u k = Some key_id" "waiting u k = waiting v k" by simp_all
qed

lemma run_due_same:
  "same_for k v (run_due io p v)"
proof -
  have "announced (v\<lparr>peers_mem := AList.map_entry p (\<lambda>r. r\<lparr>refresh_due := True\<rparr>) (peers_mem v)\<rparr>) k = announced v k"
    by (auto simp: announced_def map_entry_map_of split: option.splits)
  then show ?thesis
    by (auto simp: run_due_def peers_save_def same_for_def announced_def psk_in_force_def waiting_def split: sum.splits)
qed

section \<open>Events that do not concern a peer\<close>

definition concerns :: "string \<Rightarrow> vpn_event \<Rightarrow> bool" where
  "concerns k ev \<longleftrightarrow>
     (case ev of
        VpnRequest h r io \<Rightarrow>
          (case r of
             Start j \<Rightarrow> (case StartConnection j of None \<Rightarrow> False | Some (p, q) \<Rightarrow> p = k)
           | Refresh j \<Rightarrow> RefreshConnection j = Some k
           | _ \<Rightarrow> False)
      | VpnFire i io \<Rightarrow> False
      | VpnRestart \<Rightarrow> True)"

lemma start_other:
  assumes ok: "vpn_ok st (snd wv)" and "p \<noteq> k"
  shows "same_for k (snd wv) (snd (snd (start_connection st io send p q wv)))"
proof (cases "vpn_new_key send q (fst wv)")
  case (Pair r w')
  show ?thesis
  proof (cases r)
    case (Inr kk)
    obtain key_id key where kk: "kk = (key_id, key)" by (cases kk)
    obtain rr v1 where rr: "record_for st p q (snd wv) = (rr, v1)" by (cases "record_for st p q (snd wv)")
    have s: "snd (snd (start_connection st io send p q wv)) =
        (case rr of Inl e \<Rightarrow> v1 | Inr (rcd, new) \<Rightarrow> snd (apply_key st io p rcd key_id key new v1))"
      using Pair Inr kk rr by (auto simp: start_connection_def split: sum.splits prod.splits py_error.splits)
    have t: "tasks_ok (snd wv)" using ok by (simp add: vpn_ok_def)
    from rr show ?thesis
    proof (cases rule: record_for_cases)
      case (known rcd)
      then show ?thesis using s t assms(2) apply_other [of st io p rcd key_id key False v1 _ _ k]
        by (metis (no_types, lifting) old.prod.case prod.collapse sum.case(2))
    next
      case (fresh ip rcd)
      have "same_for k (snd wv) v1"
        using fresh assms(2) by (simp add: same_for_def announced_def psk_in_force_def waiting_def map_add_def split: option.splits)
      moreover have "tasks_ok v1" using t fresh by (intro tasks_ok_mem [OF t]) auto
      moreover have "map_of (peers_mem v1) p = Some rcd"
        using fresh(2,6) by (auto simp: map_add_def map_of_eq_None_iff split: option.splits) (metis image_eqI fst_conv map_of_SomeD)
      moreover obtain a u where "apply_key st io p rcd key_id key True v1 = (a, u)"
        by (cases "apply_key st io p rcd key_id key True v1")
      ultimately show ?thesis
        using s fresh(1) apply_other [of st io p rcd key_id key True v1 a u k] assms(2) same_for_trans by fastforce
    qed (use s in simp)
  qed (use Pair in \<open>simp add: start_connection_def\<close>)
qed

lemma refresh_other:
  assumes ok: "vpn_ok st (snd wv)" and "p \<noteq> k"
  shows "same_for k (snd wv) (snd (snd (refresh_connection st io send p wv)))"
proof -
  obtain r w' u where e: "refresh_connection st io send p wv = (r, w', u)" by (cases "refresh_connection st io send p wv") auto
  then show ?thesis
  proof (cases rule: refresh_connection_cases)
    case (scheduled key_id key rcd)
    have "tasks_ok (snd wv)" using ok by (simp add: vpn_ok_def)
    from waiting_replace [OF this, of k "Activate p key_id key"] show ?thesis
      using e scheduled(4) assms(2) by (simp add: same_for_def)
  qed (use e in simp)
qed

lemma fire_cases:
  assumes ok: "vpn_ok st v"
  obtains (other) "same_for k v (fire st io i v)"
  | (own) d key_id key where "(i, d, Activate k key_id key) \<in> set (tasks v)" "d \<le> now_us io"
      "wg_set io = Inr () \<Longrightarrow> psk_in_force (fire st io i v) k = Some key"
      "wg_set io = Inr () \<Longrightarrow> announced (fire st io i v) k = Some key_id"
      "wg_set io = Inr () \<Longrightarrow> waiting (fire st io i v) k = {}"
proof (cases "map_of (tasks v) i")
  case None
  then show thesis by (intro other) (simp add: fire_def)
next
  case (Some dw)
  obtain d w where dw: "dw = (d, w)" by (cases dw)
  have mem: "(i, d, w) \<in> set (tasks v)" using Some dw by (auto dest: map_of_SomeD)
  have t: "tasks_ok v" using ok by (simp add: vpn_ok_def)
  note h = tasks_okD [OF t mem]
  let ?c = "cancel_task (Some i) v"
  have tc: "tasks_ok ?c" by (rule tasks_ok_cancel [OF t])
  show thesis
  proof (cases "now_us io < d")
    case True
    then show thesis using Some dw by (intro other) (simp add: fire_def)
  next
    case False
    show thesis
    proof (cases "same_entry (Activate k [] []) w")
      case True
      then obtain key_id key where w: "w = Activate k key_id key" by (auto simp: same_entry_Activate)
      obtain rcd where rcd: "map_of (peers_mem ?c) k = Some rcd" using h(3) w by (auto simp: map_of_eq_None_iff dest: weak_map_of_SomeI)
      obtain a u where u: "apply_key st io k rcd key_id key False ?c = (a, u)" by (cases "apply_key st io k rcd key_id key False ?c")
      have f: "fire st io i v = u" using Some dw w False rcd u by (simp add: fire_def Let_def run_activate_def)
      have "waiting ?c k = {}"
        using waiting_unique [OF t, of i d k key_id key] mem w by (auto simp: waiting_def set_cancelled)
      then show thesis
        using mem False unfolding w
        by (intro own [of d key_id key]) (simp_all add: f apply_own [OF u rcd tc])
    next
      case no: False
      have "waiting ?c k = waiting v k" using waiting_cancel [OF t no] h(2) by simp
      then have c: "same_for k v ?c" by (simp add: same_for_def announced_def psk_in_force_def)
      show thesis
      proof (cases w)
        case (Due p)
        then show thesis using Some dw False c run_due_same [of k ?c io p]
          by (intro other) (simp add: fire_def Let_def same_for_def)
      next
        case (Activate p key_id key)
        then have "p \<noteq> k" using no by simp
        then have "same_for k ?c (run_activate st io p key_id key ?c)"
          using apply_other [OF _ _ tc, of st io p _ key_id key False _ _ k]
          by (auto simp: run_activate_def split: option.splits) (metis prod.collapse)
        then show thesis using Some dw False Activate c same_for_trans
          by (intro other) (simp add: fire_def Let_def same_for_def)
      qed
    qed
  qed
qed

lemma request_other:
  assumes "vpn_ok st (snd wv)" "\<not> concerns k (VpnRequest h r io)"
  shows "same_for k (snd wv) (snd (snd (vpn_serve st verify io send h r wv)))"
  using start_other [OF assms(1)] refresh_other [OF assms(1)] assms(2)
  by (auto simp: vpn_serve_def concerns_def split: sum.splits vpn_route.splits option.splits prod.splits)

section \<open>The keys of a run\<close>

text \<open>The identifiers a run announced to its clients, in order.\<close>

definition announced_id :: "vpn_answer http option \<Rightarrow> string list" where
  "announced_id a =
     (case a of
        Some (Inr (Started r)) \<Rightarrow> [sr_preshared_key_id r]
      | Some (Inr (Refreshing r)) \<Rightarrow> [rr_preshared_key_id r]
      | _ \<Rightarrow> [])"

context ekm_service
begin

lemma new_key_spent:
  assumes "vpn_new_key send q w = (r, w')"
  shows "spent w \<subseteq> spent w' \<and> (\<forall>i k. r = Inr (i, k) \<longrightarrow> i \<notin> spent w \<and> i \<in> spent w')"
proof -
  obtain d where d: "ekm_new send q ''vpn'' w = (d, w')" using assms by (auto simp: vpn_new_key_def split: prod.splits)
  have i: "i \<notin> spent w \<and> i \<in> spent w'" if "r = Inr (i, k)" for i k
  proof -
    have "d = Inr (i, k)"
      using assms d that by (cases d) (simp_all add: vpn_new_key_def http_fail_def split: py_error.splits)
    then show ?thesis using fresh_key d by simp
  qed
  show ?thesis using spent_mono [OF d] i by simp
qed

lemma start_spent:
  assumes "start_connection st io send k q wv = (r, w', v')"
  shows "spent (fst wv) \<subseteq> spent w' \<and>
    (\<forall>x. r = Inr x \<longrightarrow> sr_preshared_key_id x \<notin> spent (fst wv) \<and> sr_preshared_key_id x \<in> spent w')"
proof -
  obtain d w1 where d: "vpn_new_key send q (fst wv) = (d, w1)" by (cases "vpn_new_key send q (fst wv)")
  have "w' = w1" using assms d
    by (auto simp: start_connection_def split: sum.splits prod.splits py_error.splits)
  moreover have "\<exists>key. d = Inr (sr_preshared_key_id x, key)" if "r = Inr x" for x
    using assms d that
    by (cases "wg_public_key io") (auto simp: start_connection_def split: sum.splits prod.splits py_error.splits)
  ultimately show ?thesis using new_key_spent [OF d] by blast
qed

lemma refresh_spent:
  assumes "refresh_connection st io send k wv = (r, w', v')"
  shows "spent (fst wv) \<subseteq> spent w' \<and>
    (\<forall>x. r = Inr x \<longrightarrow> rr_preshared_key_id x \<notin> spent (fst wv) \<and> rr_preshared_key_id x \<in> spent w')"
proof (cases "map_of (peers_mem (snd wv)) k")
  case (Some rcd)
  obtain d w1 where d: "vpn_new_key send (peer_qkd_id rcd) (fst wv) = (d, w1)"
    by (cases "vpn_new_key send (peer_qkd_id rcd) (fst wv)")
  have "w' = w1" "r = Inr x \<Longrightarrow> \<exists>key. d = Inr (rr_preshared_key_id x, key)" for x
    using assms d Some by (auto simp: refresh_connection_def split: sum.splits prod.splits)
  then show ?thesis using new_key_spent [OF d] by blast
qed (use assms in \<open>auto simp: refresh_connection_def http_fail_def\<close>)

lemma next_spent:
  assumes "vpn_next st verify send ev wv = (a, w', v')"
  shows "spent (fst wv) \<subseteq> spent w' \<and>
    (announced_id a = [] \<or> (\<exists>i. announced_id a = [i] \<and> i \<notin> spent (fst wv) \<and> i \<in> spent w'))"
proof (cases ev)
  case (VpnRequest h r io)
  have idle: ?thesis if "vpn_serve st verify io send h r wv = (x, wv)" "announced_id (Some x) = []" for x
    using assms VpnRequest that by (auto simp: vpn_next_def)
  show ?thesis
  proof (cases "bearer_dep verify h")
    case (Inl e)
    then show ?thesis using idle by (cases "r = VpnHealthz") (simp_all add: vpn_serve_def announced_id_def)
  next
    case (Inr c)
    show ?thesis
    proof (cases r)
      case (Start j)
      show ?thesis
      proof (cases "StartConnection j")
        case (Some kq)
        obtain k q where kq: "kq = (k, q)" by (cases kq)
        obtain x w1 v1 where s: "start_connection st io send k q wv = (x, w1, v1)" by (cases "start_connection st io send k q wv") auto
        have e: "a = Some (map_sum id Started x)" "w' = w1"
          using assms VpnRequest Inr Start Some kq s by (simp_all add: vpn_next_def vpn_serve_def)
        show ?thesis using start_spent [OF s] unfolding e by (cases x) (simp_all add: announced_id_def)
      qed (use idle Inr Start in \<open>simp add: vpn_serve_def announced_id_def\<close>)
    next
      case (Refresh j)
      show ?thesis
      proof (cases "RefreshConnection j")
        case (Some k)
        obtain x w1 v1 where s: "refresh_connection st io send k wv = (x, w1, v1)" by (cases "refresh_connection st io send k wv") auto
        have e: "a = Some (map_sum id Refreshing x)" "w' = w1"
          using assms VpnRequest Inr Refresh Some s by (simp_all add: vpn_next_def vpn_serve_def)
        show ?thesis using refresh_spent [OF s] unfolding e by (cases x) (simp_all add: announced_id_def)
      qed (use idle Inr Refresh in \<open>simp add: vpn_serve_def announced_id_def\<close>)
    qed (use idle Inr in \<open>simp_all add: vpn_serve_def announced_id_def\<close>)
  qed
qed (use assms in \<open>auto simp: vpn_next_def announced_id_def\<close>)

lemma exec_announces_once:
  assumes "vpn_exec st verify send evs wv = (answers, w', v')"
  shows "distinct (concat (map announced_id answers)) \<and>
    set (concat (map announced_id answers)) \<inter> spent (fst wv) = {} \<and>
    set (concat (map announced_id answers)) \<subseteq> spent w' \<and> spent (fst wv) \<subseteq> spent w'"
  using assms
proof (induction evs arbitrary: wv answers)
  case (Cons ev evs)
  obtain a w1 v1 where n: "vpn_next st verify send ev wv = (a, w1, v1)" by (cases "vpn_next st verify send ev wv") auto
  obtain as where e: "vpn_exec st verify send evs (w1, v1) = (as, w', v')" "answers = a # as"
    using Cons.prems n by (cases "vpn_exec st verify send evs (w1, v1)") auto
  from Cons.IH [OF e(1)] next_spent [OF n] show ?case unfolding e(2) by auto
qed simp

end

end
