(* ===== verification/TunnelKeys.thy ===== *)
theory TunnelKeys
  imports ClientProperties UploadApp VpnService SimApp "HOL-Library.Sublist"
begin

text \<open>
  The parts together: the KME simulator, the EKM that pulls its keys from it, the VPN and the upload
  server that draw keys from the EKM, and the client that fetches the same keys from the KME. The
  claim of the system is that both ends then hold one key which only its identifier announced.
\<close>

section \<open>Keys in the buffers\<close>

definition pooled :: "ekm \<Rightarrow> qkey list" where
  "pooled s = concat (map (\<lambda>(p, d). map fst d) (deques (e_pool s)))"

text \<open>One step of the EKM that takes keys: the buffers shrink, and what is spent afterwards and was not
  before has left them.\<close>

definition draws :: "ekm \<Rightarrow> ekm \<Rightarrow> bool" where
  "draws s s' \<longleftrightarrow>
     subseq (pooled s') (pooled s) \<and> spent_keys s \<subseteq> spent_keys s' \<and>
     (distinct (map k_id (pooled s)) \<longrightarrow>
        spent_keys s' \<subseteq> spent_keys s \<union> (k_id ` set (pooled s) - k_id ` set (pooled s')))"

lemma distinct_subseq: "subseq xs ys \<Longrightarrow> distinct (map f ys) \<Longrightarrow> distinct (map f xs)"
  by (induction rule: list_emb.induct) (auto dest: list_emb_set)

lemma subseq_set: "subseq xs ys \<Longrightarrow> set xs \<subseteq> set ys"
  by (induction rule: list_emb.induct) auto

lemma draws_same: "e_pool s' = e_pool s \<Longrightarrow> e_store s' = e_store s \<Longrightarrow> draws s s'"
  by (simp add: draws_def pooled_def spent_keys_def)

lemma draws_trans: "draws r s \<Longrightarrow> draws s t \<Longrightarrow> draws r t"
  unfolding draws_def
  by (meson distinct_subseq subseq_order.order_trans subset_trans)
    (smt (verit) DiffD1 DiffD2 DiffI Un_iff distinct_subseq image_mono subseq_set subsetD subsetI)

lemma concat_map_entry:
  "map_of xs p = Some (e # d) \<Longrightarrow>
   \<exists>us vs. concat (map (\<lambda>(p, d). map fst d) xs) = us @ fst e # vs \<and>
     concat (map (\<lambda>(p, d). map fst d) (AList.map_entry p tl xs)) = us @ vs"
proof (induction xs)
  case (Cons x xs)
  obtain q b where x: "x = (q, b)" by (cases x)
  show ?case
  proof (cases "q = p")
    case True
    then show ?thesis using Cons.prems x
      by (intro exI [of _ "[]"] exI [of _ "map fst d @ concat (map (\<lambda>(p, d). map fst d) xs)"]) auto
  next
    case False
    then obtain us vs where "concat (map (\<lambda>(p, d). map fst d) xs) = us @ fst e # vs"
        "concat (map (\<lambda>(p, d). map fst d) (AList.map_entry p tl xs)) = us @ vs"
      using Cons x by auto
    then show ?thesis using False x by (intro exI [of _ "map fst b @ us"] exI [of _ vs]) auto
  qed
qed simp

lemma subseq_map_entry:
  "(\<And>d. subseq (f d) d) \<Longrightarrow>
   subseq (concat (map (\<lambda>(p, d). map fst d) (AList.map_entry p f xs))) (concat (map (\<lambda>(p, d). map fst d) xs))"
  by (induction xs) (auto intro!: list_emb_append_mono subseq_map)

text \<open>An allocation takes the head of one buffer, and nothing else changes.\<close>

lemma app_allocate_draws:
  assumes "app_allocate peer s = (r, s')"
  shows "draws s s' \<and> spent_keys s' = spent_keys s \<and>
    (\<forall>key. r = Inr key \<longrightarrow> key \<in> set (pooled s) \<and>
       (distinct (map k_id (pooled s)) \<longrightarrow> k_id key \<notin> k_id ` set (pooled s')))"
proof (cases "map_of (deques (e_pool s)) peer")
  case None
  then show ?thesis using assms by (auto simp: app_allocate_def allocate_def http_fail_def intro: draws_same)
next
  case (Some d)
  show ?thesis
  proof (cases d)
    case Nil
    then show ?thesis using assms Some
      by (auto simp: app_allocate_def allocate_def http_fail_def PoolEmpty_def intro: draws_same)
  next
    case (Cons e d')
    obtain k t where e: "e = (k, t)" by (cases e)
    from concat_map_entry [of "deques (e_pool s)" peer e d'] Some Cons obtain us vs
      where p: "pooled s = us @ k # vs"
        "concat (map (\<lambda>(p, d). map fst d) (AList.map_entry peer tl (deques (e_pool s)))) = us @ vs"
      by (auto simp: pooled_def e)
    have s': "e_store s' = e_store s" "pooled s' = us @ vs" "\<And>key. r = Inr key \<Longrightarrow> key = k"
      using assms Some Cons e p(2)
      by (auto simp: app_allocate_def allocate_def http_fail_def pooled_def split: if_splits)
    then show ?thesis using p(1)
      by (auto simp: draws_def spent_keys_def subseq_append intro!: list_emb_append_mono)
  qed
qed

lemma draws_bind:
  assumes "app_allocate peer s = (Inr key, s1)" "e_pool s2 = e_pool s1"
    and "spent_keys s2 = spent_keys s \<or> spent_keys s2 = insert (k_id key) (spent_keys s)"
  shows "draws s s2"
proof -
  have "pooled s2 = pooled s1" using assms(2) by (simp add: pooled_def)
  then show ?thesis using app_allocate_draws [OF assms(1)] assms(3) unfolding draws_def
    by (auto simp: image_iff)
qed

lemma new_key_draws:
  assumes "new_key f peer purpose s = (r, s')"
  shows "draws s s'"
proof (cases "purpose \<in> set app_PURPOSES")
  case True
  obtain ra s1 where a: "app_allocate peer s = (ra, s1)" by (cases "app_allocate peer s")
  note st = app_allocate_storeD [OF a]
  show ?thesis
  proof (cases ra)
    case (Inl e)
    then show ?thesis using assms True a app_allocate_draws [OF a] by (auto simp: new_key_def)
  next
    case (Inr key)
    obtain rb s2 where b: "app_bind (now_s f) (k_id key) purpose (peer @ CHR '':'' # k_id key) peer s1 = (rb, s2)"
      by (cases "app_bind (now_s f) (k_id key) purpose (peer @ CHR '':'' # k_id key) peer s1")
    then have "s' = s2" using assms True a Inr by (auto simp: new_key_def split: sum.splits)
    moreover have "e_pool s2 = e_pool s1 \<and> (spent_keys s2 = spent_keys s \<or> spent_keys s2 = insert (k_id key) (spent_keys s))"
      using b st by (auto simp: app_bind_def bind_row_Inr spent_keys_def split: sum.splits)
    ultimately show ?thesis using draws_bind a Inr by blast
  qed
qed (use assms in \<open>auto simp: new_key_def http_fail_def intro: draws_same\<close>)

lemma first_use_put_draws:
  assumes "first_use_put env f key_id s = (r, s')"
  shows "draws s s' \<and> (\<forall>key. r = Inr key \<longrightarrow> (\<exists>s1. app_allocate (bind_peer env) s = (Inr key, s1) \<and>
    e_pool s' = e_pool s1 \<and> spent_keys s' = spent_keys s))"
proof -
  obtain ra s1 where a: "app_allocate (bind_peer env) s = (ra, s1)" by (cases "app_allocate (bind_peer env) s")
  note d = app_allocate_draws [OF a] and st = app_allocate_storeD [OF a]
  show ?thesis
  proof (cases ra)
    case (Inl e)
    then show ?thesis using assms a d by (auto simp: first_use_put_def)
  next
    case (Inr key)
    show ?thesis
    proof (cases "put_kek (the_aead env) (nonce1 f) key_id (k_id key) (k_material key) (e_store s1)")
      case (Inl e)
      then show ?thesis using assms a d Inr by (auto simp: first_use_put_def)
    next
      case (Inr st1)
      have "spent_keys s' = spent_keys s" "e_pool s' = e_pool s1" "r = Inr key"
        using assms a Inr st \<open>ra = Inr key\<close> put_kek_frame [OF Inr] by (auto simp: first_use_put_def spent_keys_def)
      then show ?thesis using draws_bind [of "bind_peer env" s key s1 s'] a \<open>ra = Inr key\<close> by blast
    qed
  qed
qed

lemma first_use_draws:
  assumes "first_use env f key_id s = (r, s')"
  shows "draws s s'"
proof -
  obtain r1 s1 where 1: "first_use_put env f key_id s = (r1, s1)" by (cases "first_use_put env f key_id s")
  note d = first_use_put_draws [OF 1]
  show ?thesis
  proof (cases r1)
    case (Inl e)
    then show ?thesis using assms 1 d by (simp add: first_use_def)
  next
    case (Inr key)
    with d obtain s0 where a: "app_allocate (bind_peer env) s = (Inr key, s0)" "e_pool s1 = e_pool s0"
      "spent_keys s1 = spent_keys s" by blast
    have "e_pool s' = e_pool s0 \<and> (spent_keys s' = spent_keys s \<or> spent_keys s' = insert (k_id key) (spent_keys s))"
    proof (cases "bind_row (k_id key) ''ekm'' key_id (bind_peer env) (now_s f) (e_store s1)")
      case (Inl e)
      then have "s' = s1" using assms 1 Inr by (auto simp: first_use_def split: if_splits)
      then show ?thesis using a(2,3) by simp
    next
      case st: (Inr st)
      then have "s' = s1\<lparr>e_store := st\<rparr>" using assms 1 Inr by (simp add: first_use_def)
      then show ?thesis
        using bind_row_spent [of "k_id key" "''ekm''" key_id "bind_peer env" "now_s f" s1 s'] st a(2,3) by simp
    qed
    then show ?thesis using draws_bind [OF a(1)] by blast
  qed
qed

lemma check_recovery_draws: "draws (check_recovery s) s' \<Longrightarrow> draws s s'"
  by (simp add: draws_def pooled_def spent_keys_def)

lemma app_wrap_draws:
  assumes "app_wrap env f key_id body aad s = (r, s')"
  shows "draws s s'"
proof -
  have "s' = check_recovery s \<or> (\<exists>r1. first_use env f key_id (check_recovery s) = (r1, s'))"
    using assms by (auto simp: app_wrap_def Let_def split: sum.splits option.splits prod.splits if_splits)
  then show ?thesis using first_use_draws check_recovery_draws draws_same by fastforce
qed

lemma serve_draws:
  assumes "serve env f h r s = (resp, s')"
  shows "draws s s'"
proof -
  have wu: "draws s1 s2" if "wrap_or_unwrap env f op body s1 = (x, s2)" for op body s1 s2 x
    using that app_unwrap_state [of env]
    by (auto simp: wrap_or_unwrap_def http_fail_def split: prod.splits sum.splits if_splits
        intro: app_wrap_draws draws_same) (metis draws_same snd_conv)
  have k: "draws s s1" if "kms_claims env h s = (x, s1)" for x s1
    using kms_claims_store [OF that] by (simp add: draws_same)
  show ?thesis
  proof (cases r)
    case (KmsPost op body)
    obtain c s1 where c: "kms_claims env h s = (c, s1)" by (cases "kms_claims env h s")
    show ?thesis
    proof (cases c)
      case (Inl e)
      then show ?thesis using assms KmsPost c k [OF c] by (simp add: serve_def guarded_def)
    next
      case (Inr x)
      then have "wrap_or_unwrap env f op body s1 = (resp, s')"
        using assms KmsPost c by (simp add: serve_def guarded_def)
      from draws_trans [OF k [OF c] wu [OF this]] show ?thesis .
    qed
  next
    case (GetNew peer purpose)
    then show ?thesis using assms new_key_draws [of f peer purpose s]
      by (auto simp: serve_def guarded_def vpn_claims_def split: sum.splits prod.splits intro: draws_same)
  qed (use assms k in \<open>auto simp: serve_def guarded_def vpn_claims_def set_authority_def ack_recovery_def
      dest!: read_state_store split: prod.splits sum.splits option.splits intro: draws_same\<close>)
qed

lemma restart_pooled: "pooled (restart s) = []" "spent_keys (restart s) = spent_keys s"
  by (auto simp: restart_def create_app_def new_pool_def pooled_def spent_keys_def)

lemma restart_draws: "draws s (restart s)"
  by (simp add: draws_def restart_pooled)

lemma ekm_next_draws:
  assumes "\<And>p res now. ev \<noteq> Fill p res now"
  shows "draws s (snd (ekm_next env ev s))"
proof (cases ev)
  case (Request h r f)
  then show ?thesis using serve_draws [of env f h r s] by (simp add: ekm_next_def split: prod.splits)
next
  case (Evict peer now)
  have "subseq (snd (expire_deque c d)) d" for c d
    unfolding expire_deque_eq by (metis subseq_rev_drop_many subseq_drop_many subseq_order.order_refl takeWhile_dropWhile_id)
  then have "subseq (pooled (s\<lparr>e_pool := snd (expire_peer peer now (e_pool s))\<rparr>)) (pooled s)"
    by (auto simp: pooled_def expire_peer_def intro!: subseq_map_entry split: option.splits)
  then show ?thesis using Evict by (simp add: ekm_next_def draws_def spent_keys_def)
next
  case (CrashAfterPut key_id f)
  have "draws s (restart (snd (first_use_put env f key_id s)))"
    using first_use_put_draws [of env f key_id s] restart_draws draws_trans
    by (cases "first_use_put env f key_id s") (metis snd_conv)
  then show ?thesis using CrashAfterPut restart_draws by (simp add: ekm_next_def)
qed (use assms restart_draws in \<open>simp_all add: ekm_next_def\<close>)

section \<open>Keys on the link\<close>

text \<open>The KME knows every buffered key, under the same material, and has not delivered it to the other
  side; the identifiers are distinct and none of them is spent.\<close>

definition linked :: "(nat \<Rightarrow> string \<times> bytes) \<Rightarrow> key_store \<Rightarrow> ekm \<Rightarrow> bool" where
  "linked rand ks e \<longleftrightarrow>
     sim_ok rand ks \<and> distinct (map k_id (pooled e)) \<and>
     (\<forall>k \<in> set (pooled e). \<exists>i < issued_count ks. k = \<lparr> k_id = fst (rand i), k_material = snd (rand i) \<rparr> \<and>
        fst (rand i) \<notin> consumed_ids ks \<and> fst (rand i) \<notin> spent_keys e) \<and>
     spent_keys e \<subseteq> (\<lambda>i. fst (rand i)) ` {..<issued_count ks}"

lemma linked_draws:
  assumes "linked rand ks e" "draws e e'"
  shows "linked rand ks e'"
proof -
  have p: "set (pooled e') \<subseteq> set (pooled e)" "distinct (map k_id (pooled e'))"
    using assms subseq_set distinct_subseq by (auto simp: linked_def draws_def)
  have sp: "spent_keys e' \<subseteq> spent_keys e \<union> (k_id ` set (pooled e) - k_id ` set (pooled e'))"
    using assms by (simp add: linked_def draws_def)
  have "k_id ` set (pooled e) \<subseteq> (\<lambda>i. fst (rand i)) ` {..<issued_count ks}"
    using assms(1) by (force simp: linked_def)
  moreover have "spent_keys e \<subseteq> (\<lambda>i. fst (rand i)) ` {..<issued_count ks}" using assms(1) by (simp add: linked_def)
  moreover have "spent_keys e' \<subseteq> spent_keys e \<union> k_id ` set (pooled e)" using sp by blast
  ultimately have "spent_keys e' \<subseteq> (\<lambda>i. fst (rand i)) ` {..<issued_count ks}" by (meson Un_least subset_trans)
  moreover have "\<exists>i < issued_count ks. k = \<lparr> k_id = fst (rand i), k_material = snd (rand i) \<rparr> \<and>
      fst (rand i) \<notin> consumed_ids ks \<and> fst (rand i) \<notin> spent_keys e'" if k: "k \<in> set (pooled e')" for k
  proof -
    obtain i where i: "i < issued_count ks" "k = \<lparr> k_id = fst (rand i), k_material = snd (rand i) \<rparr>"
        "fst (rand i) \<notin> consumed_ids ks" "fst (rand i) \<notin> spent_keys e"
      using assms(1) p(1) k unfolding linked_def by blast
    have "k_id k \<in> k_id ` set (pooled e')" using k by blast
    then have "fst (rand i) \<notin> spent_keys e'" using sp i(2,4) by auto
    then show ?thesis using i by blast
  qed
  ultimately show ?thesis using assms(1) p(2) by (simp add: linked_def)
qed

text \<open>One request of the pull loop, and its answer.\<close>

lemma client_enc_issues:
  assumes "client_enc_keys (sim_send cfg rand auth) peer n s = (r, s')" "sim_ok rand s" "inj (\<lambda>i. fst (rand i))"
  shows "sim_ok rand s' \<and> consumed_ids s' = consumed_ids s \<and> issued_count s \<le> issued_count s' \<and>
    (\<forall>ks. r = Inr ks \<longrightarrow> ks = map (\<lambda>i. \<lparr> k_id = fst (rand i), k_material = snd (rand i) \<rparr>) [issued_count s..<issued_count s'])"
proof (cases "CHR ''/'' \<in> set peer")
  case True
  then show ?thesis
    using assms received_error [of "SimHTTP 404 ''Not Found''"] by (auto simp: client_enc_keys_def send_enc_long)
next
  case False
  obtain q s1 where q: "sim_enc_keys cfg rand auth peer (Some (str_int n)) s = (q, s1)" by fastforce
  then have k: "received_keys (sim_reply q) = r" "s' = s1"
    using assms send_enc [OF False] by (simp_all add: client_enc_keys_def)
  show ?thesis
  proof (cases q)
    case (Inl err)
    then have "\<exists>e. received_keys (sim_reply (Inl err)) = Inl e"
      using q sim_enc_keys_error by (intro received_error) blast
    moreover have "s1 = s \<or> s1 = s\<lparr>failed_key_requests := failed_key_requests s + 1\<rparr>"
      using q Inl by (auto simp: sim_enc_keys_def split: sum.splits option.splits if_splits prod.splits)
    ultimately show ?thesis using k Inl assms(2) by (auto simp: sim_ok_def)
  next
    case (Inr j)
    with q obtain sks where j: "j = JObj [(''keys'', JList (map sim_key_json sks))]"
      "sim_new_keys rand (master_for cfg peer, peer) (nat n) (s\<lparr>key_requests := key_requests s + 1\<rparr>) = (sks, s1)"
      by (auto elim: sim_enc_keys_Inr)
    have "sim_ok rand (s\<lparr>key_requests := key_requests s + 1\<rparr>)" using assms(2) by (simp add: sim_ok_def)
    from sim_new_keys_ok [OF this assms(3) j(2)]
    have n: "sim_ok rand s1" "issued_count s1 = issued_count s + nat n" "consumed_ids s1 = consumed_ids s"
      "map plain_key sks = map (\<lambda>i. \<lparr> k_id = fst (rand i), k_material = snd (rand i) \<rparr>) [issued_count s..<issued_count s + nat n]"
      by (auto simp: plain_key_def)
    have "r = Inr (map plain_key sks)" using k Inr j(1) received_sim_keys [of sks] by simp
    then show ?thesis using k(2) n by simp
  qed
qed

lemma pooled_receive:
  "pooled (s\<lparr>e_pool := snd (receive_pull peer (Inl x) now (e_pool s))\<rparr>) = pooled s"
  "set (pooled (s\<lparr>e_pool := snd (receive_pull peer (Inr keys) now (e_pool s))\<rparr>)) \<subseteq> set (pooled s) \<union> set keys"
  "distinct (map k_id (pooled s)) \<Longrightarrow> distinct (map k_id keys) \<Longrightarrow> k_id ` set (pooled s) \<inter> k_id ` set keys = {} \<Longrightarrow>
   distinct (map k_id (pooled (s\<lparr>e_pool := snd (receive_pull peer (Inr keys) now (e_pool s))\<rparr>)))"
proof -
  show "pooled (s\<lparr>e_pool := snd (receive_pull peer (Inl x) now (e_pool s))\<rparr>) = pooled s"
    by (simp add: pooled_def receive_pull_def)
  define flat where "flat = (\<lambda>ds :: (string \<times> dq) list. concat (map (\<lambda>(p, d). map fst d) ds))"
  have e: "\<exists>us vs. flat ds = us @ vs \<and>
      (flat (AList.map_entry peer (\<lambda>d. d @ map (\<lambda>k. (k, now)) keys) ds) = us @ keys @ vs \<or>
       flat (AList.map_entry peer (\<lambda>d. d @ map (\<lambda>k. (k, now)) keys) ds) = us @ vs)" for ds
  proof (induction ds)
    case (Cons x ds)
    obtain q b where x: "x = (q, b)" by (cases x)
    show ?case
    proof (cases "q = peer")
      case True
      then show ?thesis using x
        by (intro exI [of _ "map fst b"] exI [of _ "flat ds"]) (auto simp: flat_def o_def)
    next
      case False
      from Cons obtain us vs where "flat ds = us @ vs"
        "flat (AList.map_entry peer (\<lambda>d. d @ map (\<lambda>k. (k, now)) keys) ds) = us @ keys @ vs \<or>
         flat (AList.map_entry peer (\<lambda>d. d @ map (\<lambda>k. (k, now)) keys) ds) = us @ vs" by blast
      then show ?thesis using False x
        by (intro exI [of _ "map fst b @ us"] exI [of _ vs]) (auto simp: flat_def)
    qed
  qed (simp add: flat_def)
  obtain us vs where u: "pooled s = us @ vs"
    "pooled (s\<lparr>e_pool := snd (receive_pull peer (Inr keys) now (e_pool s))\<rparr>) = us @ keys @ vs \<or>
     pooled (s\<lparr>e_pool := snd (receive_pull peer (Inr keys) now (e_pool s))\<rparr>) = us @ vs"
    using e [of "deques (e_pool s)"] by (auto simp: pooled_def receive_pull_def flat_def)
  then show "set (pooled (s\<lparr>e_pool := snd (receive_pull peer (Inr keys) now (e_pool s))\<rparr>)) \<subseteq> set (pooled s) \<union> set keys"
    by auto
  show "distinct (map k_id (pooled (s\<lparr>e_pool := snd (receive_pull peer (Inr keys) now (e_pool s))\<rparr>)))"
    if "distinct (map k_id (pooled s))" "distinct (map k_id keys)" "k_id ` set (pooled s) \<inter> k_id ` set keys = {}"
    using that u(2) unfolding u(1) by (elim disjE) (auto simp: Int_Un_distrib2 image_Un)
qed

text \<open>The other side's request for one identifier.\<close>

lemma client_dec_state:
  assumes "client_dec_keys (sim_send cfg rand auth) sae [k] s = (r, s')"
  shows "s' = s \<or> s' = snd (consume k s)"
proof (cases "CHR ''/'' \<in> set sae")
  case True
  have "dec_request sae [k] = Get (key_path sae ''dec_keys'') [(''key_ID'', k)]" by (simp add: dec_request_def key_path_def)
  then have "sim_send cfg rand auth (dec_request sae [k]) s = (sim_reply (Inl (SimHTTP 404 ''Not Found'')), s)"
    using split_key_path_long [OF True, of "''dec_keys''"] by (simp add: sim_send_def long_list_case)
  then show ?thesis using assms by (simp add: client_dec_keys_def)
next
  case False
  obtain q s1 where q: "sim_dec_keys cfg auth sae (DecGet (Some k)) s = (q, s1)" by fastforce
  have "s' = s1" using assms send_dec [OF False, of cfg rand auth "[k]" s] q by (simp add: client_dec_keys_def)
  moreover have "s1 = s \<or> s1 = snd (dec_loop [JStr k] s)"
    using q by (auto simp: sim_dec_keys_def dec_key_ids_def bind_py_eq_Inr simp del: dec_loop.simps
        split: sum.splits prod.splits)
  moreover have "snd (dec_loop [JStr k] s) = s \<or> snd (dec_loop [JStr k] s) = snd (consume k s)"
    by (simp split: option.splits prod.splits)
  ultimately show ?thesis by metis
qed

lemma linked_fetch:
  assumes "linked rand ks e" "ks' = ks \<or> ks' = snd (consume k ks)" "k \<notin> k_id ` set (pooled e)"
  shows "linked rand ks' e"
proof -
  obtain r ks1 where c: "consume k ks = (r, ks1)" by (cases "consume k ks")
  have ok: "sim_ok rand ks" using assms(1) by (simp add: linked_def)
  note a = consume_ok [OF ok c]
  have "consumed_ids ks1 \<subseteq> insert k (consumed_ids ks)"
    using c by (auto simp: consume_def split: option.splits if_splits)
  then have ks': "sim_ok rand ks'" "issued_count ks' = issued_count ks" "consumed_ids ks' \<subseteq> insert k (consumed_ids ks)"
    using a c assms(2) ok by auto
  have "\<exists>i < issued_count ks'. x = \<lparr> k_id = fst (rand i), k_material = snd (rand i) \<rparr> \<and>
      fst (rand i) \<notin> consumed_ids ks' \<and> fst (rand i) \<notin> spent_keys e" if x: "x \<in> set (pooled e)" for x
  proof -
    obtain i where i: "i < issued_count ks" "x = \<lparr> k_id = fst (rand i), k_material = snd (rand i) \<rparr>"
        "fst (rand i) \<notin> consumed_ids ks" "fst (rand i) \<notin> spent_keys e"
      using assms(1) x unfolding linked_def by blast
    have "k \<noteq> k_id x" using x assms(3) by blast
    then show ?thesis using i ks'(2,3) by auto
  qed
  then show ?thesis using assms(1) ks' by (simp add: linked_def)
qed

lemma linked_fill:
  assumes "linked rand ks e" "inj (\<lambda>i. fst (rand i))" "client_enc_keys (sim_send cfg rand auth) peer n ks = (res, ks')"
  shows "linked rand ks' (e\<lparr>e_pool := snd (receive_pull peer res now (e_pool e))\<rparr>)"
proof -
  have ok: "sim_ok rand ks" using assms(1) by (simp add: linked_def)
  note c = client_enc_issues [OF assms(3) ok assms(2)]
  let ?e = "e\<lparr>e_pool := snd (receive_pull peer res now (e_pool e))\<rparr>"
  have sp: "spent_keys ?e = spent_keys e" by (simp add: spent_keys_def)
  have old: "\<exists>i < issued_count ks'. k = \<lparr> k_id = fst (rand i), k_material = snd (rand i) \<rparr> \<and>
      fst (rand i) \<notin> consumed_ids ks' \<and> fst (rand i) \<notin> spent_keys e" if "k \<in> set (pooled e)" for k
  proof -
    obtain i where "i < issued_count ks" "k = \<lparr> k_id = fst (rand i), k_material = snd (rand i) \<rparr>"
        "fst (rand i) \<notin> consumed_ids ks" "fst (rand i) \<notin> spent_keys e"
      using assms(1) \<open>k \<in> set (pooled e)\<close> unfolding linked_def by blast
    then show ?thesis using c by (intro exI [of _ i]) auto
  qed
  have "spent_keys e \<subseteq> (\<lambda>i. fst (rand i)) ` {..<issued_count ks}" using assms(1) by (simp add: linked_def)
  moreover have "(\<lambda>i. fst (rand i)) ` {..<issued_count ks} \<subseteq> (\<lambda>i. fst (rand i)) ` {..<issued_count ks'}"
    using c by (intro image_mono) auto
  ultimately have iss: "spent_keys e \<subseteq> (\<lambda>i. fst (rand i)) ` {..<issued_count ks'}" by (rule subset_trans)
  show ?thesis
  proof (cases res)
    case (Inl x)
    then show ?thesis using old c iss assms(1) sp by (simp add: linked_def pooled_receive(1))
  next
    case (Inr keys)
    then have keys: "keys = map (\<lambda>i. \<lparr> k_id = fst (rand i), k_material = snd (rand i) \<rparr>) [issued_count ks..<issued_count ks']"
      using c by simp
    have fresh: "fst (rand i) \<noteq> fst (rand j)" if "i \<noteq> j" for i j using assms(2) that by (auto dest: injD)
    have new: "fst (rand i) \<notin> (\<lambda>i. fst (rand i)) ` {0..<issued_count ks}" if "issued_count ks \<le> i" for i
      using fresh that by force
    have cons: "fst (rand i) \<notin> consumed_ids ks" if "issued_count ks \<le> i" for i
    proof -
      have "consumed_ids ks \<subseteq> fst ` set (s_keys ks)" using ok by (simp add: sim_ok_def)
      moreover have "fst ` set (s_keys ks) = (\<lambda>i. fst (rand i)) ` {0..<issued_count ks}"
        using ok unfolding sim_ok_def by (metis list.set_map set_upt)
      ultimately have "consumed_ids ks \<subseteq> (\<lambda>i. fst (rand i)) ` {0..<issued_count ks}" by simp
      then show ?thesis using that new by blast
    qed
    have nspent: "fst (rand i) \<notin> spent_keys e" if "issued_count ks \<le> i" for i
    proof -
      have "spent_keys e \<subseteq> (\<lambda>i. fst (rand i)) ` {0..<issued_count ks}"
        using assms(1) by (simp add: linked_def lessThan_atLeast0)
      then show ?thesis using that new by blast
    qed
    have "distinct (map k_id keys)" unfolding keys
      using assms(2) by (auto simp: o_def distinct_map inj_on_def)
    moreover have "k_id ` set (pooled e) \<inter> k_id ` set keys = {}"
    proof -
      have "k_id x \<noteq> k_id y" if xy: "x \<in> set (pooled e)" "y \<in> set keys" for x y
      proof -
        obtain i where "i < issued_count ks" "k_id x = fst (rand i)"
          using assms(1) xy(1) unfolding linked_def by fastforce
        moreover obtain j where "issued_count ks \<le> j" "k_id y = fst (rand j)" using xy(2) by (auto simp: keys)
        ultimately show ?thesis using fresh by simp
      qed
      then show ?thesis by auto
    qed
    ultimately have d: "distinct (map k_id (pooled ?e))"
      using pooled_receive(3) assms(1) Inr by (simp add: linked_def)
    have "\<exists>i < issued_count ks'. k = \<lparr> k_id = fst (rand i), k_material = snd (rand i) \<rparr> \<and>
      fst (rand i) \<notin> consumed_ids ks' \<and> fst (rand i) \<notin> spent_keys e" if "k \<in> set (pooled ?e)" for k
    proof (cases "k \<in> set (pooled e)")
      case False
      then have "k \<in> set keys" using that pooled_receive(2) [of peer keys now e] Inr by auto
      then show ?thesis using cons nspent c by (auto simp: keys)
    qed (rule old)
    then show ?thesis using d c iss sp by (simp add: linked_def)
  qed
qed

section \<open>Runs of the link\<close>

text \<open>The pull loop against the simulator, everything the EKM does but its pulls, and fetches of
  identifiers the EKM has delivered.\<close>

datatype link_event =
    LinkPull string rat
  | LinkEkm ekm_event
  | LinkFetch string string

definition link_next ::
  "ekm_env \<Rightarrow> sim_config \<Rightarrow> (nat \<Rightarrow> string \<times> bytes) \<Rightarrow> string option \<Rightarrow> link_event \<Rightarrow> key_store \<times> ekm \<Rightarrow> key_store \<times> ekm" where
  "link_next env cfg rand auth ev kse =
     (case kse of (ks, e) \<Rightarrow>
       (case ev of
          LinkPull peer now \<Rightarrow>
            (case demand peer (e_pool e) of
               Inl x \<Rightarrow> (ks, e)
             | Inr n \<Rightarrow>
                 if n \<le> 0 then (ks, e)
                 else (case client_enc_keys (sim_send cfg rand auth) peer n ks of
                         (res, ks') \<Rightarrow> (ks', snd (ekm_next env (Fill peer res now) e))))
        | LinkEkm (Fill peer res now) \<Rightarrow> (ks, e)
        | LinkEkm other \<Rightarrow> (ks, snd (ekm_next env other e))
        | LinkFetch sae k \<Rightarrow>
            (if k \<in> spent_keys e then (snd (client_dec_keys (sim_send cfg rand auth) sae [k] ks), e) else (ks, e))))"

fun link_exec ::
  "ekm_env \<Rightarrow> sim_config \<Rightarrow> (nat \<Rightarrow> string \<times> bytes) \<Rightarrow> string option \<Rightarrow> link_event list \<Rightarrow> key_store \<times> ekm \<Rightarrow> key_store \<times> ekm" where
  "link_exec env cfg rand auth [] kse = kse"
| "link_exec env cfg rand auth (ev # evs) kse = link_exec env cfg rand auth evs (link_next env cfg rand auth ev kse)"

lemma link_next_linked:
  assumes "linked rand (fst kse) (snd kse)" "inj (\<lambda>i. fst (rand i))"
  shows "linked rand (fst (link_next env cfg rand auth ev kse)) (snd (link_next env cfg rand auth ev kse))"
proof (cases ev)
  case (LinkPull peer now)
  show ?thesis
  proof (cases "\<exists>n. demand peer (e_pool (snd kse)) = Inr n \<and> 0 < n")
    case True
    then obtain n where n: "demand peer (e_pool (snd kse)) = Inr n" "0 < n" by blast
    obtain res ks' where c: "client_enc_keys (sim_send cfg rand auth) peer n (fst kse) = (res, ks')"
      by (cases "client_enc_keys (sim_send cfg rand auth) peer n (fst kse)")
    from linked_fill [OF assms c, of now] show ?thesis
      using LinkPull n c by (cases kse) (simp add: link_next_def ekm_next_def)
  next
    case False
    then show ?thesis using LinkPull assms(1)
      by (cases kse) (auto simp: link_next_def split: sum.split)
  qed
next
  case (LinkEkm ee)
  have "linked rand (fst kse) (snd (ekm_next env ee (snd kse)))" if "\<And>p res now. ee \<noteq> Fill p res now"
    using linked_draws [OF assms(1) ekm_next_draws [OF that]] .
  then show ?thesis using LinkEkm assms(1)
    by (cases kse; cases ee) (simp_all add: link_next_def)
next
  case (LinkFetch sae k)
  obtain r ks' where c: "client_dec_keys (sim_send cfg rand auth) sae [k] (fst kse) = (r, ks')"
    by (cases "client_dec_keys (sim_send cfg rand auth) sae [k] (fst kse)")
  have "k \<notin> k_id ` set (pooled (snd kse))" if "k \<in> spent_keys (snd kse)"
    using assms(1) that by (fastforce simp: linked_def)
  then show ?thesis using LinkFetch assms(1) linked_fetch [OF assms(1) client_dec_state [OF c]] c
    by (cases kse) (auto simp: link_next_def)
qed

lemma link_exec_linked:
  "linked rand (fst kse) (snd kse) \<Longrightarrow> inj (\<lambda>i. fst (rand i)) \<Longrightarrow>
   linked rand (fst (link_exec env cfg rand auth evs kse)) (snd (link_exec env cfg rand auth evs kse))"
  by (induction evs arbitrary: kse) (simp_all add: link_next_linked)

text \<open>A new KME and a new EKM.\<close>

lemma linked_start:
  assumes "rows st = []"
  shows "linked rand (KeyStore rate inv0 now) (create_app st (new_pool ps tgt ttl_s))"
proof -
  have "pooled (create_app st (new_pool ps tgt ttl_s)) = []" by (auto simp: pooled_def create_app_def new_pool_def)
  then show ?thesis using assms sim_ok_start by (simp add: linked_def create_app_def spent_keys_def)
qed

end
