(* ===== verification/VpnProperties.thy ===== *)
theory VpnProperties
  imports VpnService
begin

text \<open>
  The properties of the VPN control API: its address table, coordinated re-keying, and what a restart
  and a second connection do to a scheduled activation.
\<close>

section \<open>Counting addresses\<close>

lemma free_hosts_parsed:
  assumes "ip_interface (server_address st) = Inr (ip, len)" "ip_network (tunnel_cidr st) = Inr net"
  shows "free_hosts st = set (map ipv4_str (hosts net)) - {ipv4_str ip}" "finite (free_hosts st)"
  using assms by (simp_all add: free_hosts_def)

lemma allocate_full:
  assumes "ip_interface (server_address st) = Inr (ip, len)" "ip_network (tunnel_cidr st) = Inr net"
  shows "allocate_ip st v = http_fail 503 ''tunnel address pool exhausted'' \<longleftrightarrow> free_hosts st \<subseteq> addresses_taken v"
    "(\<exists>a. allocate_ip st v = Inr a) \<longleftrightarrow> \<not> free_hosts st \<subseteq> addresses_taken v"
  using assms
  by (auto simp: allocate_ip_def http_fail_def find_None_set free_hosts_parsed [OF assms]
      dest!: find_SomeD split: option.splits)

lemma lease_ok_counts:
  assumes "lease_ok st A (leases ps)" "finite (free_hosts st)"
  shows "card (snd ` set (leases ps)) = length ps" "snd ` set (leases ps) \<subseteq> free_hosts st"
proof -
  have "distinct (map snd (leases ps))" using assms(1) by (simp add: lease_ok_def)
  then show "card (snd ` set (leases ps)) = length ps"
    by (metis distinct_card image_set length_map leases_def)
  show "snd ` set (leases ps) \<subseteq> free_hosts st" using assms(1) by (fastforce simp: lease_ok_def)
qed

lemma exhausted_iff:
  assumes "ip_interface (server_address st) = Inr (ip, len)" "ip_network (tunnel_cidr st) = Inr net"
    and "vpn_ok st v"
  shows "length (peers_mem v) \<le> card (free_hosts st)"
    "free_hosts st \<subseteq> addresses_taken v \<longleftrightarrow> length (peers_mem v) = card (free_hosts st)"
proof -
  note fin = free_hosts_parsed(2) [OF assms(1,2)]
  have "lease_ok st (installs v) (leases (peers_mem v))" using assms(3) by (simp add: vpn_ok_def)
  note c = lease_ok_counts [OF this fin, folded addresses_taken_leases]
  show "length (peers_mem v) \<le> card (free_hosts st)" using card_mono [OF fin c(2)] c(1) by simp
  show "free_hosts st \<subseteq> addresses_taken v \<longleftrightarrow> length (peers_mem v) = card (free_hosts st)"
  proof
    assume "free_hosts st \<subseteq> addresses_taken v"
    then have "addresses_taken v = free_hosts st" using c(2) by blast
    then show "length (peers_mem v) = card (free_hosts st)" using c(1) by simp
  next
    assume "length (peers_mem v) = card (free_hosts st)"
    then have "addresses_taken v = free_hosts st" using card_subset_eq [OF fin c(2)] c(1) by simp
    then show "free_hosts st \<subseteq> addresses_taken v" by simp
  qed
qed

lemma reached_ok:
  "vpn_exec st verify send evs (w, vpn_create_app [] []) = (answers, wv) \<Longrightarrow> vpn_ok st (snd wv)"
  using vpn_exec_ok [of st "(w, vpn_create_app [] [])" verify send evs] vpn_create_app_ok [of st "[]" "[]"]
  by (simp add: lease_ok_def)

section \<open>The table of leases over a run\<close>

text \<open>What one step may do to the leases in memory and on disk.\<close>

definition lease_move :: "vpn_settings \<Rightarrow> vpn \<Rightarrow> vpn \<Rightarrow> bool" where
  "lease_move st v u \<longleftrightarrow>
     (leases (peers_mem u) = leases (peers_mem v) \<or>
      (\<exists>k ip. allocate_ip st v = Inr ip \<and> leases (peers_mem u) = leases (peers_mem v) @ [(k, ip)])) \<and>
     (leases (peers_disk u) = leases (peers_disk v) \<or> leases (peers_disk u) = leases (peers_mem u))"

lemma apply_leases:
  assumes "apply_key st io k rcd key_id key new v = (r, u)" "map_of (peers_mem v) k = Some rcd"
  shows "leases (peers_mem u) = leases (peers_mem v) \<or> new \<and> peers_mem u = AList.delete k (peers_mem v)"
    "leases (peers_disk u) = leases (peers_disk v) \<or> leases (peers_disk u) = leases (peers_mem u)"
  using assms by (cases rule: apply_key_cases; auto)+

lemma start_leases:
  "lease_move st (snd wv) (snd (snd (start_connection st io send k q wv)))"
proof (cases "vpn_new_key send q (fst wv)")
  case (Pair r w')
  show ?thesis
  proof (cases r)
    case (Inr kk)
    obtain key_id key where kk: "kk = (key_id, key)" by (cases kk)
    obtain rr v1 where rr: "record_for st k q (snd wv) = (rr, v1)" by (cases "record_for st k q (snd wv)")
    have s: "snd (snd (start_connection st io send k q wv)) =
        (case rr of Inl e \<Rightarrow> v1 | Inr (rcd, new) \<Rightarrow> snd (apply_key st io k rcd key_id key new v1))"
      using Pair Inr kk rr by (auto simp: start_connection_def split: sum.splits prod.splits py_error.splits)
    from rr show ?thesis
    proof (cases rule: record_for_cases)
      case (known rcd)
      then show ?thesis using s apply_leases [of st io k rcd key_id key False v1]
        by (cases "apply_key st io k rcd key_id key False v1") (auto simp: lease_move_def)
    next
      case (fresh ip rcd)
      have m: "map_of (peers_mem v1) k = Some rcd"
        using fresh(2,6) by (auto simp: map_add_def map_of_eq_None_iff split: option.splits) (metis image_eqI fst_conv map_of_SomeD)
      obtain a u where u: "apply_key st io k rcd key_id key True v1 = (a, u)"
        by (cases "apply_key st io k rcd key_id key True v1")
      have "AList.delete k (peers_mem v1) = peers_mem (snd wv)" using fresh(2,6) by (simp add: delete_new)
      moreover have "snd (snd (start_connection st io send k q wv)) = u" using s fresh(1) u by simp
      ultimately show ?thesis using apply_leases [OF u m] fresh(2-4) by (auto simp: lease_move_def)
    qed (use s in \<open>simp add: lease_move_def\<close>)
  qed (use Pair in \<open>simp add: start_connection_def lease_move_def\<close>)
qed

lemma refresh_leases: "lease_move st (snd wv) (snd (snd (refresh_connection st io send k wv)))"
proof -
  obtain r w' u where e: "refresh_connection st io send k wv = (r, w', u)" by (cases "refresh_connection st io send k wv") auto
  then show ?thesis by (cases rule: refresh_connection_cases) (auto simp: e lease_move_def)
qed

lemma run_due_leases: "lease_move st v (run_due io k v)"
proof -
  have L: "leases (AList.map_entry k (refresh_due_update (\<lambda>_. True)) (peers_mem v)) = leases (peers_mem v)"
    by (rule leases_map_entry) simp
  show ?thesis by (auto simp: run_due_def peers_save_def lease_move_def L split: sum.splits)
qed

lemma fire_leases: "lease_move st v (fire st io i v)"
proof -
  have same: "allocate_ip st (cancel_task (Some i) v) = allocate_ip st v"
    unfolding allocate_ip_def addresses_taken_def cancel_task_simps ..
  have a: "lease_move st v (snd (apply_key st io k rcd key_id key False (cancel_task (Some i) v)))"
    if "map_of (peers_mem v) k = Some rcd" for k rcd key_id key
    using that apply_leases [of st io k rcd key_id key False "cancel_task (Some i) v"]
    by (cases "apply_key st io k rcd key_id key False (cancel_task (Some i) v)") (auto simp: lease_move_def)
  have d: "lease_move st v (run_due io k (cancel_task (Some i) v))" for k
    using run_due_leases [of st "cancel_task (Some i) v" io k] same by (simp add: lease_move_def)
  have r: "lease_move st v v" "lease_move st v (cancel_task (Some i) v)" by (simp_all add: lease_move_def)
  then show ?thesis using a d by (auto simp: fire_def Let_def run_activate_def split: option.splits work.splits)
qed

lemma next_leases:
  "lease_move st (snd wv) (snd (snd (vpn_next st verify send ev wv))) \<or>
   ev = VpnRestart \<and> snd (snd (vpn_next st verify send ev wv)) = vpn_create_app (peers_disk (snd wv)) (installs (snd wv))"
  using start_leases [of st wv] refresh_leases [of st wv] fire_leases [of st "snd wv"]
  by (auto simp: vpn_next_def vpn_serve_def lease_move_def split: vpn_event.splits sum.splits vpn_route.splits option.splits prod.splits)

lemma full_table_stays:
  assumes "ip_interface (server_address st) = Inr (ip, len)" "ip_network (tunnel_cidr st) = Inr net"
    and "free_hosts st \<subseteq> snd ` set L" "leases (peers_mem (snd wv)) = L" "leases (peers_disk (snd wv)) = L"
  shows "leases (peers_mem (snd (snd (vpn_exec st verify send evs wv)))) = L"
  using assms(4,5)
proof (induction evs arbitrary: wv)
  case (Cons ev evs)
  obtain a wv1 where n: "vpn_next st verify send ev wv = (a, wv1)" by (cases "vpn_next st verify send ev wv")
  have "allocate_ip st (snd wv) \<noteq> Inr x" for x
    using allocate_full(2) [OF assms(1,2), of "snd wv"] assms(3) Cons.prems(1) by (auto simp: addresses_taken_leases)
  then have "leases (peers_mem (snd wv1)) = L \<and> leases (peers_disk (snd wv1)) = L"
    using next_leases [of st wv verify send ev] n Cons.prems
    by (auto simp: lease_move_def vpn_create_app_def)
  then show ?case using Cons.IH [of wv1] n by simp
qed simp

section \<open>A scheduled activation over a run\<close>

definition wg_accepts :: "vpn_event \<Rightarrow> bool" where
  "wg_accepts ev \<longleftrightarrow> (case ev of VpnFire i io \<Rightarrow> wg_set io = Inr () | _ \<Rightarrow> True)"

definition waits_or_done ::
  "int \<Rightarrow> string \<Rightarrow> string \<Rightarrow> bytes \<Rightarrow> vpn \<Rightarrow> vpn_event list \<Rightarrow> vpn \<Rightarrow> bool" where
  "waits_or_done eff k key_id key v past u \<longleftrightarrow>
     (\<exists>i. waiting u k = {(i, eff, Activate k key_id key)}) \<and>
       psk_in_force u k = psk_in_force v k \<and> announced u k = announced v k \<or>
     waiting u k = {} \<and> psk_in_force u k = Some key \<and> announced u k = Some key_id \<and>
       (\<exists>i io. VpnFire i io \<in> set past \<and> now_us io \<ge> eff)"

lemma fire_waiting:
  assumes "vpn_ok st v" "waiting v k = {(i, eff, Activate k key_id key)}" "now_us io \<ge> eff" "wg_set io = Inr ()"
  shows "psk_in_force (fire st io i v) k = Some key \<and> announced (fire st io i v) k = Some key_id"
proof -
  have w: "(i, eff, Activate k key_id key) \<in> set (tasks v)" using assms(2) by (auto simp: waiting_def)
  have t: "tasks_ok v" using assms(1) by (simp add: vpn_ok_def)
  then have m: "map_of (tasks v) i = Some (eff, Activate k key_id key)" using w by (simp add: tasks_ok_def)
  from tasks_okD(3) [OF t w] obtain rcd where rcd: "map_of (peers_mem (cancel_task (Some i) v)) k = Some rcd"
    by (auto dest: weak_map_of_SomeI)
  obtain a u where u: "apply_key st io k rcd key_id key False (cancel_task (Some i) v) = (a, u)"
    by (cases "apply_key st io k rcd key_id key False (cancel_task (Some i) v)")
  have "fire st io i v = u" using m assms(3) rcd u by (simp add: fire_def Let_def run_activate_def)
  then show ?thesis using apply_own [OF u rcd tasks_ok_cancel [OF t] assms(4)] by simp
qed

lemma waits_or_done_step:
  assumes ok: "vpn_ok st (snd wv)" and w: "waits_or_done eff k key_id key v past (snd wv)"
    and ev: "\<not> concerns k ev" "wg_accepts ev"
  shows "waits_or_done eff k key_id key v (past @ [ev]) (snd (snd (vpn_next st verify send ev wv)))"
proof -
  have keep: "waits_or_done eff k key_id key v (past @ [ev]) u" if "same_for k (snd wv) u" for u
    using w that unfolding waits_or_done_def same_for_def by auto
  show ?thesis
  proof (cases ev)
    case (VpnRequest h r io)
    then show ?thesis using keep request_other [OF ok, of k h r io verify send] ev(1)
      by (simp add: vpn_next_def)
  next
    case (VpnFire i io)
    from ok show ?thesis
    proof (cases rule: fire_cases [of st "snd wv" k io i])
      case other
      then show ?thesis using keep VpnFire by (simp add: vpn_next_def)
    next
      case (own d key_id' key')
      then have "(i, d, Activate k key_id' key') \<in> waiting (snd wv) k" by (auto simp: waiting_iff)
      then have "key_id' = key_id" "key' = key" "d = eff" using w by (auto simp: waits_or_done_def)
      then show ?thesis using own ev(2) VpnFire by (auto simp: vpn_next_def waits_or_done_def wg_accepts_def)
    qed
  qed (use ev(1) in \<open>simp add: concerns_def\<close>)
qed

lemma waits_or_done_run:
  assumes "vpn_ok st (snd wv)" "waits_or_done eff k key_id key v past (snd wv)"
    and "\<forall>ev \<in> set evs. \<not> concerns k ev \<and> wg_accepts ev"
  shows "vpn_ok st (snd (snd (vpn_exec st verify send evs wv))) \<and>
    waits_or_done eff k key_id key v (past @ evs) (snd (snd (vpn_exec st verify send evs wv)))"
  using assms
proof (induction evs arbitrary: wv past)
  case (Cons ev evs)
  obtain a wv1 where n: "vpn_next st verify send ev wv = (a, wv1)" by (cases "vpn_next st verify send ev wv")
  have "vpn_ok st (snd wv1)" using vpn_next_ok [OF Cons.prems(1), of verify send ev] n by simp
  moreover have "waits_or_done eff k key_id key v (past @ [ev]) (snd wv1)"
    using waits_or_done_step [OF Cons.prems(1,2), of ev verify send] Cons.prems(3) n by simp
  ultimately show ?case using Cons.IH [of wv1 "past @ [ev]"] Cons.prems(3) n by simp
qed simp

section \<open>Properties\<close>

text \<open>Property C24. The address table is sound at any moment of any run of requests, timers and restarts:
  in memory and in peers.json no peer and no tunnel address occurs twice, every address is a host of
  the tunnel other than the server, every peer was accepted by WireGuard with its address, and a
  peer has at most one pending activation and one pending timer.\<close>

theorem vpn_addresses_unique:
  "let v = snd (snd (vpn_exec st verify send evs (w, vpn_create_app [] [])))
   in lease_ok st (installs v) (leases (peers_mem v)) \<and> lease_ok st (installs v) (leases (peers_disk v)) \<and> tasks_ok v"
  using vpn_exec_ok [of st "(w, vpn_create_app [] [])" verify send evs] vpn_create_app_ok [of st "[]" "[]"]
  by (simp add: lease_ok_def vpn_ok_def Let_def)

text \<open>Property C27. The tunnel is used to its last address and never beyond: with parsed settings, in any
  reachable state there are at most as many peers as free hosts, and a new peer is refused with 503
  exactly when there are that many.\<close>

theorem address_pool_bound:
  assumes "ip_interface (server_address st) = Inr (ip, len)" "ip_network (tunnel_cidr st) = Inr net"
    and "vpn_exec st verify send evs (w, vpn_create_app [] []) = (answers, w', v)"
  shows "length (peers_mem v) \<le> card (free_hosts st) \<and>
    (allocate_ip st v = http_fail 503 ''tunnel address pool exhausted'' \<longleftrightarrow>
       length (peers_mem v) = card (free_hosts st)) \<and>
    ((\<exists>a. allocate_ip st v = Inr a) \<longleftrightarrow> length (peers_mem v) < card (free_hosts st))"
  using exhausted_iff [OF assms(1,2), of v] reached_ok [OF assms(3)] allocate_full [OF assms(1,2), of v] by auto

text \<open>Property C29. Addresses are never given back: once the tunnel is full and saved, no sequence of
  events ever frees an address, so a peer not among those connected is refused from then on.\<close>

theorem addresses_never_released:
  assumes "ip_interface (server_address st) = Inr (ip, len)" "ip_network (tunnel_cidr st) = Inr net"
    and "vpn_exec st verify send evs0 (w0, vpn_create_app [] []) = (answers0, w, v)"
    and "length (peers_mem v) = card (free_hosts st)" "leases (peers_disk v) = leases (peers_mem v)"
    and "vpn_exec st verify send evs (w, v) = (answers, w', v')" "k \<notin> fst ` set (peers_mem v)"
  shows "leases (peers_mem v') = leases (peers_mem v) \<and>
    fst (record_for st k q v') = http_fail 503 ''tunnel address pool exhausted''"
proof -
  have full: "free_hosts st \<subseteq> addresses_taken v"
    using exhausted_iff(2) [OF assms(1,2)] reached_ok [OF assms(3)] assms(4) by simp
  then have L: "leases (peers_mem v') = leases (peers_mem v)"
    using full_table_stays [OF assms(1,2), of "leases (peers_mem v)" "(w, v)" verify send evs] assms(5,6)
    by (simp add: addresses_taken_leases)
  then have "free_hosts st \<subseteq> addresses_taken v'" using full by (simp add: addresses_taken_leases)
  then have "allocate_ip st v' = http_fail 503 ''tunnel address pool exhausted''"
    using allocate_full(1) [OF assms(1,2)] by simp
  moreover have "map_of (peers_mem v') k = None"
    using assms(7) keys_leases [OF L] by (simp add: map_of_eq_None_iff)
  ultimately show ?thesis using L by (simp add: record_for_def http_fail_def)
qed

text \<open>Property C23. A refresh takes effect as announced: after a refresh that answered, whatever else happens
  that does not concern the peer and no restart, either the activation still waits for the announced
  moment and the old key is in force, or a task ran at or after that moment and the announced key is
  in force; and letting the waiting task run at that moment puts the announced key in force.\<close>

theorem refresh_takes_effect:
  assumes "vpn_exec st verify send evs0 (w0, vpn_create_app [] []) = (answers0, w, v)"
    and "refresh_connection st io send k (w, v) = (Inr reply, w1, v1)"
    and "\<forall>ev \<in> set evs. \<not> concerns k ev \<and> wg_accepts ev"
    and "vpn_exec st verify send evs (w1, v1) = (answers, w2, v2)"
  shows "\<exists>key q. fst (vpn_new_key send q w) = Inr (rr_preshared_key_id reply, key) \<and>
    ((\<exists>i. waiting v2 k = {(i, rr_effective_time reply, Activate k (rr_preshared_key_id reply) key)} \<and>
        psk_in_force v2 k = psk_in_force v k \<and> announced v2 k = announced v k \<and>
        (\<forall>io'. now_us io' \<ge> rr_effective_time reply \<longrightarrow> wg_set io' = Inr () \<longrightarrow>
           psk_in_force (fire st io' i v2) k = Some key \<and>
           announced (fire st io' i v2) k = Some (rr_preshared_key_id reply))) \<or>
     psk_in_force v2 k = Some key \<and> announced v2 k = Some (rr_preshared_key_id reply) \<and>
       (\<exists>i io'. VpnFire i io' \<in> set evs \<and> now_us io' \<ge> rr_effective_time reply))"
proof -
  have ok: "vpn_ok st v" using reached_ok [OF assms(1)] by simp
  from assms(2) obtain key_id key rcd where r: "reply = \<lparr>rr_preshared_key_id = key_id,
        rr_effective_time = now_us io + activation_delay_s st * 1000000\<rparr>"
      "map_of (peers_mem v) k = Some rcd" "vpn_new_key send (peer_qkd_id rcd) w = (Inr (key_id, key), w1)"
      "v1 = replace_task (activation_delay_s st) (Activate k key_id key) (now_us io) v"
    by (cases rule: refresh_connection_cases) auto
  have k: "k \<in> fst ` set (peers_mem v)" using r(2) by (force dest: map_of_SomeD)
  have t: "tasks_ok v" using ok by (simp add: vpn_ok_def)
  have W: "waiting v1 k = {(next_task v, rr_effective_time reply, Activate k key_id key)}"
    using waiting_replace_own [OF t, of k key_id key] k r(1,4) by simp
  have ok1: "vpn_ok st v1" using refresh_connection_ok [of st "(w, v)" io send k] ok assms(2) by simp
  have S: "psk_in_force v1 k = psk_in_force v k" "announced v1 k = announced v k" by (simp_all add: r(4))
  have "waits_or_done (rr_effective_time reply) k key_id key v [] v1" using W S by (simp add: waits_or_done_def)
  with waits_or_done_run [of st "(w1, v1)" "rr_effective_time reply" k key_id key v "[]" evs verify send] ok1 assms(3,4)
  have ok2: "vpn_ok st v2" and "waits_or_done (rr_effective_time reply) k key_id key v evs v2" by simp_all
  then consider i where "waiting v2 k = {(i, rr_effective_time reply, Activate k key_id key)}"
      "psk_in_force v2 k = psk_in_force v k" "announced v2 k = announced v k"
    | i io' where "psk_in_force v2 k = Some key" "announced v2 k = Some key_id" "VpnFire i io' \<in> set evs"
      "now_us io' \<ge> rr_effective_time reply"
    unfolding waits_or_done_def by blast
  then show ?thesis
  proof cases
    case 1
    have "psk_in_force (fire st io' i v2) k = Some key \<and> announced (fire st io' i v2) k = Some key_id"
      if "now_us io' \<ge> rr_effective_time reply" "wg_set io' = Inr ()" for io'
      by (rule fire_waiting [OF ok2 1(1) that])
    then show ?thesis using 1 r(1,3) by (intro exI [of _ key] exI [of _ "peer_qkd_id rcd"]) auto
  next
    case 2
    then show ?thesis using r(1,3) by (intro exI [of _ key] exI [of _ "peer_qkd_id rcd"]) auto
  qed
qed

text \<open>Property C28. A new connection does not supersede a scheduled activation: when a peer refreshes and
  then connects again before the announced moment, the key of the connection is in force until the
  activation of the older key runs, and then the older key is, which the peer was told to replace.\<close>

theorem start_leaves_older_activation:
  assumes "vpn_exec st verify send evs0 (w0, vpn_create_app [] []) = (answers0, w, v)"
    and "refresh_connection st io send k (w, v) = (Inr older, w1, v1)"
    and "start_connection st io1 send k q (w1, v1) = (Inr newer, w2, v2)"
    and "now_us io2 \<ge> rr_effective_time older" "wg_set io2 = Inr ()"
  shows "\<exists>rcd old new. map_of (peers_mem v) k = Some rcd \<and>
    fst (vpn_new_key send (peer_qkd_id rcd) w) = Inr (rr_preshared_key_id older, old) \<and>
    fst (vpn_new_key send q w1) = Inr (sr_preshared_key_id newer, new) \<and>
    psk_in_force v2 k = Some new \<and> announced v2 k = Some (sr_preshared_key_id newer) \<and>
    (\<exists>i. waiting v2 k = {(i, rr_effective_time older, Activate k (rr_preshared_key_id older) old)} \<and>
         psk_in_force (fire st io2 i v2) k = Some old \<and>
         announced (fire st io2 i v2) k = Some (rr_preshared_key_id older))"
proof -
  have ok: "vpn_ok st v" using reached_ok [OF assms(1)] by simp
  from assms(2) obtain key_id key rcd where r: "older = \<lparr>rr_preshared_key_id = key_id,
        rr_effective_time = now_us io + activation_delay_s st * 1000000\<rparr>"
      "map_of (peers_mem v) k = Some rcd"
      "v1 = replace_task (activation_delay_s st) (Activate k key_id key) (now_us io) v"
      "fst (vpn_new_key send (peer_qkd_id rcd) w) = Inr (key_id, key)"
    by (cases rule: refresh_connection_cases) auto
  have k: "k \<in> fst ` set (peers_mem v)" using r(2) by (force dest: map_of_SomeD)
  have t: "tasks_ok v" using ok by (simp add: vpn_ok_def)
  have W: "waiting v1 k = {(next_task v, rr_effective_time older, Activate k key_id key)}"
    using waiting_replace_own [OF t, of k key_id key] k r(1,3) by simp
  have ok1: "vpn_ok st v1" using refresh_connection_ok [of st "(w, v)" io send k] ok assms(2) by simp
  have m: "map_of (peers_mem v1) k = Some rcd" using r(2,3) by simp
  obtain key_id' key' where kk: "vpn_new_key send q w1 = (Inr (key_id', key'), w2)"
      and a: "apply_key st io1 k rcd key_id' key' False v1 = (Inr (), v2)" "sr_preshared_key_id newer = key_id'"
    using assms(3) m
    by (cases "wg_public_key io1")
      (auto simp: start_connection_def record_for_def split: prod.splits sum.splits py_error.splits)
  have t1: "tasks_ok v1" using ok1 by (simp add: vpn_ok_def)
  have g: "wg_set io1 = Inr ()" using a(1) by (cases "wg_set io1") (simp_all add: apply_key_def)
  note own = apply_own [OF a(1) m t1 g]
  have "vpn_ok st v2" using start_connection_ok [of st "(w1, v1)" io1 send k q] ok1 assms(3) by simp
  from fire_waiting [OF this, of k "next_task v" "rr_effective_time older" key_id key io2] own W assms(4,5)
  show ?thesis using a(2) r kk
    by (intro exI [of _ rcd] exI [of _ key] exI [of _ key']) auto
qed

text \<open>A restart forgets what was scheduled: afterwards no task runs, so an activation that was
  announced never happens and no peer becomes due for a refresh, until a request comes.\<close>

theorem restart_forgets_tasks:
  assumes "\<forall>ev \<in> set evs. \<exists>i io. ev = VpnFire i io"
  shows "snd (vpn_exec st verify send (VpnRestart # evs) (w, v)) = (w, vpn_create_app (peers_disk v) (installs v))"
proof -
  have "snd (vpn_exec st verify send evs (w, u)) = (w, u)" if "tasks u = []" for u
    using assms that
  proof (induction evs)
    case (Cons ev evs)
    then show ?case by (auto simp: vpn_next_def fire_def)
  qed simp
  then show ?thesis by (simp add: vpn_next_def vpn_create_app_def)
qed

text \<open>Over any run of the VPN server against the EKM, connections, refreshes, timers and restarts
  included, no key identifier is announced to two requests, and none that was spent before the run.\<close>

theorem keys_announced_once:
  "let (answers, e', v') = vpn_exec st verify (ekm_get env f h) evs (e, v);
       ids = concat (map announced_id answers)
   in distinct ids \<and> set ids \<inter> spent_keys e = {} \<and> set ids \<subseteq> spent_keys e'"
  using ekm_http.exec_announces_once [of st verify env f h evs "(e, v)"]
  by (auto simp: Let_def split: prod.splits)

section \<open>Witnesses\<close>

text \<open>A tunnel with one free address, an EKM that numbers its keys, and one connected peer.\<close>

definition demo_settings :: vpn_settings where
  "demo_settings = \<lparr> public_endpoint = ''vpn:51819'', tunnel_cidr = ''0.0.0.0/30'', server_address = ''0.0.0.1/30'',
     allowed_ips = ''0.0.0.0/30'', refresh_s = 3600, activation_delay_s = 30, server_peer = ''QKD1'' \<rparr>"

definition demo_io :: "int \<Rightarrow> vpn_io" where
  "demo_io now = \<lparr> wg_set = Inr (), wg_public_key = Inr ''server'', file_write = Inr (), now_us = now \<rparr>"

lemma demo_io_simps [simp]: "wg_set (demo_io t) = Inr ()" "now_us (demo_io t) = t"
  by (simp_all add: demo_io_def)

definition demo_send :: "request \<Rightarrow> nat \<Rightarrow> reply \<times> nat" where
  "demo_send req n =
     (Reply 200 (Some (JObj [(''key_id'', JStr (replicate n (CHR ''i''))), (''key'', JStr (b64e [of_nat n]))])), n + 1)"

definition demo_pubkey :: string where
  "demo_pubkey = replicate 43 (CHR ''A'') @ ''=''"

definition demo_connect :: "vpn_event list" where
  "demo_connect = [VpnRequest ''Bearer t'' (Start (JObj [(''public_key'', JStr demo_pubkey)])) (demo_io 0)]"

definition demo_vpn :: vpn where
  "demo_vpn = snd (snd (vpn_exec demo_settings (static_verify ''t'') demo_send demo_connect (0, vpn_create_app [] [])))"

lemma demo_tunnel_run:
  "vpn_exec demo_settings (static_verify ''t'') demo_send demo_connect (0, vpn_create_app [] []) =
    (fst (vpn_exec demo_settings (static_verify ''t'') demo_send demo_connect (0, vpn_create_app [] [])), 1, demo_vpn)"
  "map_of (peers_mem demo_vpn) demo_pubkey =
     Some \<lparr> client_ip = ''0.0.0.2'', peer_qkd_id = ''QKD2'', preshared_key_id = Some [],
            next_refresh_at = Some 3600000000, refresh_due = False \<rparr>"
  "leases (peers_mem demo_vpn) = [(demo_pubkey, ''0.0.0.2'')]" "leases (peers_disk demo_vpn) = [(demo_pubkey, ''0.0.0.2'')]"
  by code_simp+

lemma demo_tunnel:
  "ip_interface (server_address demo_settings) = Inr (1, 30)" "ip_network (tunnel_cidr demo_settings) = Inr (0, 30)"
  "free_hosts demo_settings = {''0.0.0.2''}"
proof -
  show "ip_interface (server_address demo_settings) = Inr (1, 30)" by code_simp
  show "ip_network (tunnel_cidr demo_settings) = Inr (0, 30)" by code_simp
  have "ip_interface ''0.0.0.1/30'' = Inr (1, 30)" "ip_network ''0.0.0.0/30'' = Inr (0, 30)" by code_simp+
  moreover have "set (map ipv4_str (hosts (0, 30))) - {ipv4_str 1} = {''0.0.0.2''}" by code_simp
  ultimately show "free_hosts demo_settings = {''0.0.0.2''}" by (simp add: free_hosts_def demo_settings_def)
qed

lemma demo_full: "length (peers_mem demo_vpn) = card (free_hosts demo_settings)"
  using arg_cong [OF demo_tunnel_run(3), of length] by (simp add: leases_def demo_tunnel)

theorem address_pool_bound_witness:
  "allocate_ip demo_settings demo_vpn = http_fail 503 ''tunnel address pool exhausted''"
  using address_pool_bound [OF demo_tunnel(1,2) demo_tunnel_run(1)] demo_full by simp

definition demo_later :: "vpn_event list" where
  "demo_later = [VpnFire 0 (demo_io 3600000000), VpnRestart]"

lemma demo_exec:
  "vpn_exec demo_settings (static_verify ''t'') demo_send demo_later (1, demo_vpn) =
    (fst (vpn_exec demo_settings (static_verify ''t'') demo_send demo_later (1, demo_vpn)),
     fst (snd (vpn_exec demo_settings (static_verify ''t'') demo_send demo_later (1, demo_vpn))),
     snd (snd (vpn_exec demo_settings (static_verify ''t'') demo_send demo_later (1, demo_vpn))))"
  by simp

theorem addresses_never_released_witness:
  "fst (record_for demo_settings ''other'' ''QKD2''
      (snd (snd (vpn_exec demo_settings (static_verify ''t'') demo_send demo_later (1, demo_vpn))))) =
    http_fail 503 ''tunnel address pool exhausted''"
proof -
  have "''other'' \<notin> fst ` set (peers_mem demo_vpn)" using leases_keys(2) [of "peers_mem demo_vpn"] demo_tunnel_run(3) by (simp add: demo_pubkey_def)
  from addresses_never_released [OF demo_tunnel(1,2) demo_tunnel_run(1) demo_full _ demo_exec this] demo_tunnel_run(3,4)
  show ?thesis by simp
qed

definition demo_refreshed :: "refresh_reply http \<times> nat \<times> vpn" where
  "demo_refreshed = refresh_connection demo_settings (demo_io 0) demo_send demo_pubkey (1, demo_vpn)"

lemma demo_refresh:
  "refresh_connection demo_settings (demo_io 0) demo_send demo_pubkey (1, demo_vpn) =
     (Inr \<lparr>rr_preshared_key_id = ''i'', rr_effective_time = 30000000\<rparr>, 2, snd (snd demo_refreshed))"
  "start_connection demo_settings (demo_io 1000000) demo_send demo_pubkey ''QKD2'' (2, snd (snd demo_refreshed)) =
     (Inr \<lparr>sr_qkd_id = ''QKD1'', sr_server_public_key = ''server'', sr_endpoint = ''vpn:51819'',
           sr_preshared_key_id = ''ii'', sr_client_ip = ''0.0.0.2'', sr_allowed_ips = ''0.0.0.0/30'',
           sr_effective_time = 1000000, sr_refresh_after_s = 3600\<rparr>, 3,
      snd (snd (start_connection demo_settings (demo_io 1000000) demo_send demo_pubkey ''QKD2'' (2, snd (snd demo_refreshed)))))"
  by code_simp+

theorem refresh_takes_effect_witness:
  "\<exists>i. psk_in_force (fire demo_settings (demo_io 30000000) i (snd (snd demo_refreshed))) demo_pubkey = Some [1]"
proof -
  have "waiting (snd (snd demo_refreshed)) demo_pubkey \<noteq> {}"
    using demo_refresh(1)
  proof (cases rule: refresh_connection_cases)
    case (scheduled key_id key rcd)
    then have "(next_task demo_vpn, 30000000, Activate demo_pubkey key_id key) \<in> waiting (snd (snd demo_refreshed)) demo_pubkey"
      by (simp add: waiting_iff)
    then show ?thesis by blast
  qed simp
  moreover have "psk_in_force (snd (snd demo_refreshed)) demo_pubkey = Some [0]" by code_simp
  moreover have new: "fst (vpn_new_key demo_send q 1) = Inr (i, key) \<Longrightarrow> key = [1]" for q i key
    by (simp add: vpn_new_key_def ekm_new_def demo_send_def ekm_result_def obj_item_def as_str_def del: b64e.simps)
  moreover have "vpn_exec demo_settings (static_verify ''t'') demo_send [] (2, snd (snd demo_refreshed)) =
      ([], 2, snd (snd demo_refreshed))" by simp
  note refresh_takes_effect [OF demo_tunnel_run(1) demo_refresh(1) _ this, simplified]
  then obtain key q where "fst (vpn_new_key demo_send q 1) = Inr (''i'', key)"
    "psk_in_force (snd (snd demo_refreshed)) demo_pubkey \<noteq> Some key \<Longrightarrow>
       \<exists>i. \<forall>io'. 30000000 \<le> now_us io' \<longrightarrow> wg_set io' = Inr () \<longrightarrow>
          psk_in_force (fire demo_settings io' i (snd (snd demo_refreshed))) demo_pubkey = Some key"
    by (metis One_nat_def)
  ultimately show ?thesis by (metis demo_io_simps list.inject option.inject order_refl zero_neq_one)
qed

theorem start_leaves_older_activation_witness:
  "\<exists>v2 i. psk_in_force v2 demo_pubkey = Some [2] \<and>
     psk_in_force (fire demo_settings (demo_io 30000000) i v2) demo_pubkey = Some [1]"
proof -
  have new: "fst (vpn_new_key demo_send q n) = Inr (i, key) \<Longrightarrow> key = [of_nat n]" for q n i key
    by (auto simp: vpn_new_key_def ekm_new_def demo_send_def ekm_result_def obj_item_def as_str_def simp del: b64e.simps)
  from start_leaves_older_activation [OF demo_tunnel_run(1) demo_refresh, of "demo_io 30000000"] obtain old new v2 i q where
    "fst (vpn_new_key demo_send q 1) = Inr (''i'', old)" "fst (vpn_new_key demo_send ''QKD2'' 2) = Inr (''ii'', new)"
    "psk_in_force v2 demo_pubkey = Some new" "psk_in_force (fire demo_settings (demo_io 30000000) i v2) demo_pubkey = Some old"
    by auto
  moreover from this(1,2) have "old = [1]" "new = [2]" using new [of _ 1] new [of _ 2] by force+
  ultimately show ?thesis by (intro exI [of _ v2] exI [of _ i]) simp
qed

theorem restart_forgets_tasks_witness:
  "snd (vpn_exec demo_settings (static_verify ''t'') demo_send [VpnRestart, VpnFire 1 (demo_io 30000000)]
      (2, snd (snd demo_refreshed))) =
    (2, vpn_create_app (peers_disk (snd (snd demo_refreshed))) (installs (snd (snd demo_refreshed))))"
  by (rule restart_forgets_tasks) simp

end
