(* ===== verification/EndToEnd.thy ===== *)
theory EndToEnd
  imports TunnelKeys VpnProperties
begin

text \<open>
  The system as one: the client's commands against the VPN server, the upload server, the EKM and
  the KME simulator. Whatever ran before on the link, a connect that succeeds leaves both ends with
  one key, a refresh that succeeds schedules at the server the key the client installed, and an
  upload that succeeds stores the plaintext.
\<close>

section \<open>The world of a client\<close>

record world =
  w_kme :: key_store
  w_ekm :: ekm
  w_vpn :: vpn
  w_keys :: key_cache
  w_sink :: dir_sink

record servers =
  ekm_conf :: ekm_env
  ekm_token :: string
  vpn_conf :: vpn_settings
  vpn_verify :: verifier
  kme_conf :: sim_config
  kme_rand :: "nat \<Rightarrow> string \<times> bytes"
  kme_auth :: "string option"
  upload_conf :: upload_settings
  upload_aead :: aead

text \<open>What the outside does during one command: nonces and times of the EKM, of the VPN server and of the
  upload server, and the name the upload gets.\<close>

record moment =
  at_ekm :: fresh
  at_vpn :: vpn_io
  at_file_key :: "rat \<times> rat"
  at_upload :: rat
  at_uuid :: string

definition reach :: "servers \<Rightarrow> moment \<Rightarrow> request \<Rightarrow> ekm \<Rightarrow> reply \<times> ekm" where
  "reach V m = ekm_get (ekm_conf V) (at_ekm m) (''Bearer '' @ ekm_token V)"

definition world_net :: "servers \<Rightarrow> moment \<Rightarrow> world net" where
  "world_net V m =
     \<lparr> control = (\<lambda>auth r w.
         case vpn_serve (vpn_conf V) (vpn_verify V) (at_vpn m) (reach V m) auth r (w_ekm w, w_vpn w) of
           (a, e, v) \<Rightarrow> (Some a, w\<lparr>w_ekm := e, w_vpn := v\<rparr>)),
       qkd2 = (\<lambda>r w.
         case sim_send (kme_conf V) (kme_rand V) (kme_auth V) r (w_kme w) of
           (rep, ks) \<Rightarrow> (rep, w\<lparr>w_kme := ks\<rparr>)),
       file_key_call = (\<lambda>peer w.
         case file_key (upload_conf V) (reach V m) (fst (at_file_key m)) (snd (at_file_key m)) (Some peer) (w_ekm w, w_keys w) of
           (a, e, keys) \<Rightarrow> (Some (map_sum id fst a), w\<lparr>w_ekm := e, w_keys := keys\<rparr>)),
       upload_call = (\<lambda>key_id name blob w.
         case upload (upload_aead V) dir_upload (at_upload m) key_id blob name (at_uuid m) (w_sink w, w_keys w) of
           (a, s, keys) \<Rightarrow> (Some (map_sum id fst a), w\<lparr>w_sink := s, w_keys := keys\<rparr>)) \<rparr>"

definition world_ok :: "servers \<Rightarrow> world \<Rightarrow> bool" where
  "world_ok V w \<longleftrightarrow> linked (kme_rand V) (w_kme w) (w_ekm w) \<and> vpn_ok (vpn_conf V) (w_vpn w) \<and>
     inj (\<lambda>i. fst (kme_rand V i))"

section \<open>A delivered key waits at the KME\<close>

text \<open>What the EKM delivered and the other side has not fetched yet.\<close>

definition awaits :: "(nat \<Rightarrow> string \<times> bytes) \<Rightarrow> key_store \<Rightarrow> string \<Rightarrow> bytes \<Rightarrow> bool" where
  "awaits rand ks i k \<longleftrightarrow>
     (\<exists>n < issued_count ks. i = fst (rand n) \<and> k = snd (rand n) \<and> i \<notin> consumed_ids ks)"

lemma ekm_new_awaits:
  assumes "ekm_new (ekm_get env f h) p u e = (Inr (i, k), e')" "linked rand ks e"
  shows "awaits rand ks i k \<and> linked rand ks e'"
proof -
  from assms(1) obtain peer purpose where
    n: "new_key f peer purpose e = (Inr (JObj [(''key_id'', JStr i), (''key'', JStr (b64e k)), (''qkd_name'', JStr peer)]), e')"
      "fst (app_allocate peer e) = Inr \<lparr> k_id = i, k_material = k \<rparr>"
    by (rule ekm_new_served)
  then have "\<lparr> k_id = i, k_material = k \<rparr> \<in> set (pooled e)"
    using app_allocate_draws [of peer e] by (cases "app_allocate peer e") auto
  then obtain j where "j < issued_count ks" "\<lparr> k_id = i, k_material = k \<rparr> = \<lparr> k_id = fst (rand j), k_material = snd (rand j) \<rparr>"
      "fst (rand j) \<notin> consumed_ids ks"
    using assms(2) unfolding linked_def by blast
  then have "awaits rand ks i k" by (auto simp: awaits_def)
  then show ?thesis using linked_draws [OF assms(2) new_key_draws [OF n(1)]] by simp
qed

lemma fetch_awaits:
  assumes "awaits rand ks i k" "sim_ok rand ks" "inj (\<lambda>i. fst (rand i))" "sim_ready cfg auth sae"
  shows "fst (client_dec_keys (sim_send cfg rand auth) sae [i] ks) = Inr [\<lparr> k_id = i, k_material = k \<rparr>]"
proof -
  from assms(1) obtain n where n: "n < issued_count ks" "i = fst (rand n)" "k = snd (rand n)" "i \<notin> consumed_ids ks"
    by (auto simp: awaits_def)
  from dec_loop_fresh [OF assms(2,3), of "[n]"] n obtain sks s' where
    d: "dec_loop (map JStr [i]) ks = (Inr sks, s')"
      "map plain_key sks = [\<lparr> k_id = i, k_material = k \<rparr>]" by auto
  then show ?thesis using client_dec_ready [OF assms(4) d(1), of rand] by simp
qed

text \<open>The fetch of the command: it succeeds, with the key the EKM delivered.\<close>

lemma fetch_key_agrees:
  assumes "awaits (kme_rand V) (w_kme w) i k" "sim_ok (kme_rand V) (w_kme w)" "inj (\<lambda>i. fst (kme_rand V i))"
    and "sim_ready (kme_conf V) (kme_auth V) (peer_qkd cfg)"
  shows "\<exists>ks. fetch_key cfg (world_net V m) i w = (Inr k, w\<lparr>w_kme := ks\<rparr>) \<and>
    (ks = w_kme w \<or> ks = snd (consume i (w_kme w)))"
proof -
  obtain ks where c: "client_dec_keys (sim_send (kme_conf V) (kme_rand V) (kme_auth V)) (peer_qkd cfg) [i] (w_kme w) =
      (Inr [\<lparr> k_id = i, k_material = k \<rparr>], ks)"
    using fetch_awaits [OF assms] by (metis prod.collapse)
  have "client_dec_keys (qkd2 (world_net V m)) (peer_qkd cfg) [i] w = (Inr [\<lparr> k_id = i, k_material = k \<rparr>], w\<lparr>w_kme := ks\<rparr>)"
    using c by (auto simp: client_dec_keys_def world_net_def split: prod.splits)
  then show ?thesis using client_dec_state [OF c] by (auto simp: fetch_key_def)
qed

text \<open>A key drawn and then fetched: both sides have it, and the rest of the link is as sound as before.\<close>

lemma draw_then_fetch:
  assumes "ekm_new (reach V m) p u e = (Inr (i, k), e')" "linked (kme_rand V) (w_kme w) e"
    and "fetch_key cfg (world_net V m') i w = (Inr psk, w')" "w_ekm w = e'"
    and "inj (\<lambda>i. fst (kme_rand V i))" "sim_ready (kme_conf V) (kme_auth V) (peer_qkd cfg)"
  shows "psk = k \<and> (\<exists>ks. w' = w\<lparr>w_kme := ks\<rparr>) \<and> linked (kme_rand V) (w_kme w') (w_ekm w')"
proof -
  have a: "awaits (kme_rand V) (w_kme w) i k" "linked (kme_rand V) (w_kme w) e'"
    using ekm_new_awaits [OF assms(1) [unfolded reach_def] assms(2)] by simp_all
  have "sim_ok (kme_rand V) (w_kme w)" using assms(2) by (simp add: linked_def)
  from fetch_key_agrees [OF a(1) this assms(5,6), of m'] assms(3) obtain ks where
    ks: "psk = k" "w' = w\<lparr>w_kme := ks\<rparr>" "ks = w_kme w \<or> ks = snd (consume i (w_kme w))" by auto
  have "i \<in> spent_keys e'" using ekm_keys.fresh_key [OF assms(1) [unfolded reach_def]] by simp
  then have "i \<notin> k_id ` set (pooled e')" using a(2) unfolding linked_def by force
  from linked_fetch [OF a(2) ks(3) this] show ?thesis using ks(1,2) assms(4) by auto
qed

section \<open>Any run of the link\<close>

text \<open>Property C5. Whatever runs on the link, every key the EKM still holds can be fetched on the other side:
  after any sequence of pulls against the simulator, requests, expiries, restarts and crashes of the
  EKM, and fetches of delivered identifiers, the identifiers in the buffers are distinct, and the KME
  answers each of them with the material the EKM has.\<close>

theorem buffered_keys_can_be_fetched:
  assumes "rows st = []" "inj (\<lambda>i. fst (rand i))" "sim_ready cfg auth sae"
    and "link_exec env cfg rand auth evs (KeyStore rate inv0 now, create_app st (new_pool ps tgt ttl_s)) = (ks, e)"
    and "k \<in> set (pooled e)"
  shows "distinct (map k_id (pooled e)) \<and> k_id k \<notin> spent_keys e \<and>
    fst (client_dec_keys (sim_send cfg rand auth) sae [k_id k] ks) = Inr [k]"
proof -
  have l: "linked rand ks e"
    using link_exec_linked [OF _ assms(2), of "(KeyStore rate inv0 now, create_app st (new_pool ps tgt ttl_s))" env cfg auth evs]
      linked_start [OF assms(1)] assms(4) by simp
  then obtain i where i: "i < issued_count ks" "k = \<lparr> k_id = fst (rand i), k_material = snd (rand i) \<rparr>"
      "fst (rand i) \<notin> consumed_ids ks" "fst (rand i) \<notin> spent_keys e"
    using assms(5) unfolding linked_def by blast
  then have "awaits rand ks (k_id k) (k_material k)" by (auto simp: awaits_def)
  from fetch_awaits [OF this _ assms(2,3)] l i show ?thesis by (simp add: linked_def)
qed

section \<open>What the VPN server holds\<close>

lemma vpn_new_key_Inr:
  "vpn_new_key send q w = (Inr ik, w') \<Longrightarrow> ekm_new send q ''vpn'' w = (Inr ik, w')"
  by (auto simp: vpn_new_key_def http_fail_def split: prod.splits sum.splits py_error.splits)

lemma start_installs:
  assumes "start_connection st io send k q (w, v) = (Inr body, w', v')" "vpn_ok st v"
  shows "\<exists>key. ekm_new send q ''vpn'' w = (Inr (sr_preshared_key_id body, key), w') \<and>
    psk_in_force v' k = Some key \<and> announced v' k = Some (sr_preshared_key_id body)"
proof -
  obtain r w1 where n: "vpn_new_key send q w = (r, w1)" by (cases "vpn_new_key send q w")
  with assms(1) obtain i key where r: "r = Inr (i, key)" by (cases r) (auto simp: start_connection_def)
  obtain rr v1 where rr: "record_for st k q v = (rr, v1)" by (cases "record_for st k q v")
  with assms(1) n r obtain rcd new where p: "rr = Inr (rcd, new)"
    by (cases rr) (auto simp: start_connection_def)
  obtain a v2 where ap: "apply_key st io k rcd i key new v1 = (a, v2)" by (cases "apply_key st io k rcd i key new v1")
  have b: "a = Inr ()" "v' = v2" "w' = w1" "sr_preshared_key_id body = i"
    using assms(1) n r rr p ap by (cases a; cases "wg_public_key io";
      auto simp: start_connection_def split: py_error.splits)+
  have wg: "wg_set io = Inr ()" using ap b(1) by (cases "wg_set io") (auto simp: apply_key_def)
  have t: "tasks_ok v" using assms(2) by (simp add: vpn_ok_def)
  have mt: "map_of (peers_mem v1) k = Some rcd \<and> tasks_ok v1"
    using rr [unfolded p]
  proof (cases rule: record_for_cases)
    case (known r)
    then show ?thesis using t by simp
  next
    case (fresh ip r)
    have "tasks_ok v1" using t fresh by (intro tasks_ok_mem [OF t]) auto
    moreover have "map_of (peers_mem v1) k = Some rcd"
      using rr [unfolded p] by (cases "map_of (peers_mem v) k")
        (auto simp: record_for_def Let_def map_add_def split: sum.splits)
    ultimately show ?thesis by simp
  qed simp
  then have m: "map_of (peers_mem v1) k = Some rcd" and t1: "tasks_ok v1" by simp_all
  have "ekm_new send q ''vpn'' w = (Inr (i, key), w')" using vpn_new_key_Inr [of send q w "(i, key)" w1] n r b(3) by simp
  then show ?thesis using apply_own [OF ap m t1 wg] b by auto
qed

lemma refresh_schedules:
  assumes "refresh_connection st io send k (w, v) = (Inr reply, w', v')" "vpn_ok st v"
  shows "\<exists>q key i. ekm_new send q ''vpn'' w = (Inr (rr_preshared_key_id reply, key), w') \<and>
    waiting v' k = {(i, rr_effective_time reply, Activate k (rr_preshared_key_id reply) key)}"
proof -
  from assms(1) obtain rcd where rcd: "map_of (peers_mem v) k = Some rcd"
    by (cases "map_of (peers_mem v) k") (auto simp: refresh_connection_def http_fail_def)
  obtain r w1 where n: "vpn_new_key send (peer_qkd_id rcd) w = (r, w1)" by (cases "vpn_new_key send (peer_qkd_id rcd) w")
  with assms(1) rcd obtain i key where r: "r = Inr (i, key)" by (cases r) (auto simp: refresh_connection_def)
  have b: "reply = \<lparr>rr_preshared_key_id = i, rr_effective_time = now_us io + activation_delay_s st * 1000000\<rparr>"
      "w' = w1" "v' = replace_task (activation_delay_s st) (Activate k i key) (now_us io) v"
    using assms(1) rcd n r by (auto simp: refresh_connection_def replace_task_def split: prod.splits)
  have "tasks_ok v" "k \<in> fst ` set (peers_mem v)" using assms(2) rcd by (auto simp: vpn_ok_def dest: map_of_SomeD intro: rev_image_eqI)
  then show ?thesis using waiting_replace_own [of v k i key] vpn_new_key_Inr [of send "peer_qkd_id rcd" w "(i, key)" w1] n r b
    by auto
qed

section \<open>What the upload server holds\<close>

lemma file_key_state:
  "file_key st send t1 t2 p (w, keys) = (Inr (i, q), w', keys') \<Longrightarrow> snd (ekm_new send q ''file'' w) = w'"
  by (auto simp: file_key_def Let_def http_fail_def split: prod.splits sum.splits py_error.splits)

lemma upload_result:
  assumes "upload A dir_upload now i blob name uuid (s, keys) = (Inr r, s', keys')"
    and "map_of keys i = Some (key, expiry)" "distinct (map fst keys)"
    and "aes_gcm_unwrap A key blob (utf8 name) = Inr content"
  shows "map_of (ds_objects s') = (map_of (ds_objects s))(object_name_of uuid name \<mapsto> content)"
proof -
  have "get_file_key now i keys = (Inr key, prune_keys now keys)"
    using assms(1,2,3) by (auto simp: upload_def get_file_key_def Let_def prune_map_of http_fail_def split: if_splits)
  then show ?thesis
    using assms(1,4) by (auto simp: upload_def dir_upload_def update_conv' split: sum.splits prod.splits if_splits object_write.splits)
qed

section \<open>Commands\<close>

lemma serve_started:
  "vpn_serve st verify io send h r wv = (Inr (Started body), wv') \<Longrightarrow>
   \<exists>j k q. r = Start j \<and> StartConnection j = Some (k, q) \<and> start_connection st io send k q wv = (Inr body, wv')"
  by (cases r) (auto simp: vpn_serve_def apfst_def map_prod_def map_sum_eq_Inr
      split: sum.splits option.splits prod.splits if_splits)

lemma serve_refreshing:
  "vpn_serve st verify io send h r wv = (Inr (Refreshing body), wv') \<Longrightarrow>
   \<exists>j k. r = Refresh j \<and> RefreshConnection j = Some k \<and> refresh_connection st io send k wv = (Inr body, wv')"
  by (cases r) (auto simp: vpn_serve_def apfst_def map_prod_def map_sum_eq_Inr
      split: sum.splits option.splits prod.splits if_splits)

lemma own_body_key: "body_key kvs = Some k \<Longrightarrow> obj_get kvs ''public_key'' = JStr k"
  by (auto simp: body_key_def wireguard_key_def split: json.splits sum.splits if_splits)

lemma own_requests:
  "StartConnection (JObj [(''qkd_id'', JStr q), (''public_key'', JStr p)]) = Some (k, q') \<Longrightarrow> k = p"
  "RefreshConnection (JObj [(''public_key'', JStr p)]) = Some k \<Longrightarrow> k = p"
  by (auto simp: StartConnection_def RefreshConnection_def obj_get_def split: option.splits if_splits dest!: own_body_key)

lemma world_control:
  "control (world_net V m) auth r w = (Some (Inr a), w') \<longleftrightarrow>
   (\<exists>e v. vpn_serve (vpn_conf V) (vpn_verify V) (at_vpn m) (reach V m) auth r (w_ekm w, w_vpn w) = (Inr a, e, v) \<and>
      w' = w\<lparr>w_ekm := e, w_vpn := v\<rparr>)"
  by (auto simp: world_net_def split: prod.splits)

lemma run_ok: "apfst exit_code p = (Some 0, s') \<Longrightarrow> \<exists>x. p = (Inr x, s')"
  by (cases p; cases "fst p") (auto simp: exit_code_def split: if_splits)

text \<open>Property C1. Both ends of the tunnel hold one key: when a connect succeeds, the pre-shared key in the
  configuration the client wrote is the key in force at the server for the client's public key, under
  the identifier the server shows for it; the EKM's buffers, the KME and the server stay consistent.\<close>

theorem tunnel_keys_agree:
  assumes "run_client A cfg io (world_net V m) Connect s = (Some 0, s')"
    and "world_ok V (c_world s)" "sim_ready (kme_conf V) (kme_auth V) (peer_qkd cfg)"
  shows "\<exists>conf x psk. let v = w_vpn (c_world s') in
    map_of (files (c_host s')) (conf_path cfg) = Some (conf_text conf) \<and> c_session s' = Stored x \<and>
    c_psk conf = b64e psk \<and> psk_in_force v (s_public_key x) = Some psk \<and>
    announced v (s_public_key x) = Some (s_preshared_key_id x) \<and>
    c_server_pub conf = s_server_public_key x \<and> c_address conf = s_client_ip x @ ''/32'' \<and>
    world_ok V (c_world s')"
proof -
  let ?w = "c_world s"
  have c: "connect cfg io (world_net V m) s = (Inr (), s')" using assms(1) run_ok by (fastforce simp: run_client_def)
  from connect_installs_announced_key [OF c] obtain token priv pub body psk w where
    a: "control (world_net V m) (''Bearer '' @ token)
         (Start (JObj [(''qkd_id'', JStr (my_qkd cfg)), (''public_key'', JStr pub)])) ?w = (Some (Inr (Started body)), w)"
    and f: "fetch_key cfg (world_net V m) (sr_preshared_key_id body) w = (Inr psk, c_world s')"
    and h: "map_of (files (c_host s')) (conf_path cfg) = Some (conf_text (connect_conf priv body psk))"
      "c_session s' = Stored (connect_session pub body)"
    by blast
  from a [unfolded world_control] obtain e v where
    sv: "vpn_serve (vpn_conf V) (vpn_verify V) (at_vpn m) (reach V m) (''Bearer '' @ token)
        (Start (JObj [(''qkd_id'', JStr (my_qkd cfg)), (''public_key'', JStr pub)])) (w_ekm ?w, w_vpn ?w) = (Inr (Started body), e, v)"
    and w: "w = ?w\<lparr>w_ekm := e, w_vpn := v\<rparr>" by blast
  from serve_started [OF sv] obtain k q where
    kq: "StartConnection (JObj [(''qkd_id'', JStr (my_qkd cfg)), (''public_key'', JStr pub)]) = Some (k, q)"
    and st: "start_connection (vpn_conf V) (at_vpn m) (reach V m) k q (w_ekm ?w, w_vpn ?w) = (Inr body, e, v)" by auto
  note st = st [unfolded own_requests(1) [OF kq]]
  have ok: "vpn_ok (vpn_conf V) (w_vpn ?w)" "linked (kme_rand V) (w_kme ?w) (w_ekm ?w)" "inj (\<lambda>i. fst (kme_rand V i))"
    using assms(2) by (simp_all add: world_ok_def)
  from start_installs [OF st ok(1)] obtain key where
    k: "ekm_new (reach V m) q ''vpn'' (w_ekm ?w) = (Inr (sr_preshared_key_id body, key), e)"
      "psk_in_force v pub = Some key" "announced v pub = Some (sr_preshared_key_id body)" by blast
  have "w_kme w = w_kme ?w" "w_ekm w = e" using w by simp_all
  from draw_then_fetch [OF k(1) _ f this(2) ok(3) assms(3)] ok(2) this(1)
  have d: "psk = key" "w_vpn (c_world s') = v" "linked (kme_rand V) (w_kme (c_world s')) (w_ekm (c_world s'))"
    using w by auto
  have "vpn_ok (vpn_conf V) v" using start_connection_ok [of "vpn_conf V" "(w_ekm ?w, w_vpn ?w)"] ok(1) st by (metis snd_conv)
  then show ?thesis using h k(2,3) d ok(3)
    by (intro exI [of _ "connect_conf priv body psk"] exI [of _ "connect_session pub body"] exI [of _ psk])
      (simp add: Let_def world_ok_def connect_conf_def connect_session_def)
qed

text \<open>Property C2. A refresh keeps the ends together: when the client's refresh succeeds, it has installed at
  or after the announced moment the very key that waits at the server for that moment, and once the
  server's timer has run at that moment the key is in force there too. The clock is read off the commands:
  the last one run is the installation, stamped with a time not before the announced one, and before it the
  refresh ran at most the command for the identity token.\<close>

theorem refresh_keys_agree:
  assumes "run_client A cfg io (world_net V m) RefreshCommand s = (Some 0, s')"
    and "world_ok V (c_world s)" "sim_ready (kme_conf V) (kme_auth V) (peer_qkd cfg)"
  shows "\<exists>x (body :: refresh_reply) psk i h ran. let v = w_vpn (c_world s') in
    c_session s = Stored x \<and>
    set_psk (disk_ops io) (run_command io) iface (psk_path io) (s_server_public_key x) psk h = (Inr (), c_host s') \<and>
    rr_effective_time body \<le> c_now s' \<and>
    set ran \<subseteq> {(c_now s, id_token_argv cfg, None)} \<and>
    c_ran s' = c_ran s @ ran @
      [(c_now s', [''wg'', ''set'', iface, ''peer'', s_server_public_key x, ''preshared-key'', psk_path io], None)] \<and>
    waiting v (s_public_key x) = {(i, rr_effective_time body, Activate (s_public_key x) (rr_preshared_key_id body) psk)} \<and>
    (\<forall>io'. now_us io' \<ge> rr_effective_time body \<longrightarrow> wg_set io' = Inr () \<longrightarrow>
       psk_in_force (fire (vpn_conf V) io' i v) (s_public_key x) = Some psk) \<and>
    world_ok V (c_world s')"
proof -
  let ?w = "c_world s"
  have c: "refresh cfg io (world_net V m) s = (Inr (), s')" using assms(1) run_ok by (fastforce simp: run_client_def)
  from refresh_waits_then_installs [OF c] obtain token x body psk w h ran where
    a: "control (world_net V m) (''Bearer '' @ token) (Refresh (JObj [(''public_key'', JStr (s_public_key x))])) ?w =
        (Some (Inr (Refreshing body)), w)"
    and f: "fetch_key cfg (world_net V m) (rr_preshared_key_id body) w = (Inr psk, c_world s')"
    and x: "c_session s = Stored x" "c_now s' = max (c_now s) (rr_effective_time body)"
      "set_psk (disk_ops io) (run_command io) iface (psk_path io) (s_server_public_key x) psk h = (Inr (), c_host s')"
      "set ran \<subseteq> {(c_now s, id_token_argv cfg, None)}"
      "c_ran s' = c_ran s @ ran @ [(c_now s', [''wg'', ''set'', iface, ''peer'', s_server_public_key x, ''preshared-key'', psk_path io], None)]"
    by blast
  from a [unfolded world_control] obtain e v where
    sv: "vpn_serve (vpn_conf V) (vpn_verify V) (at_vpn m) (reach V m) (''Bearer '' @ token)
        (Refresh (JObj [(''public_key'', JStr (s_public_key x))])) (w_ekm ?w, w_vpn ?w) = (Inr (Refreshing body), e, v)"
    and w: "w = ?w\<lparr>w_ekm := e, w_vpn := v\<rparr>" by blast
  from serve_refreshing [OF sv] obtain k where
    k: "RefreshConnection (JObj [(''public_key'', JStr (s_public_key x))]) = Some k"
    and st: "refresh_connection (vpn_conf V) (at_vpn m) (reach V m) k (w_ekm ?w, w_vpn ?w) = (Inr body, e, v)" by auto
  note st = st [unfolded own_requests(2) [OF k]]
  have ok: "vpn_ok (vpn_conf V) (w_vpn ?w)" "linked (kme_rand V) (w_kme ?w) (w_ekm ?w)" "inj (\<lambda>i. fst (kme_rand V i))"
    using assms(2) by (simp_all add: world_ok_def)
  from refresh_schedules [OF st ok(1)] obtain q key i where
    n: "ekm_new (reach V m) q ''vpn'' (w_ekm ?w) = (Inr (rr_preshared_key_id body, key), e)"
      "waiting v (s_public_key x) = {(i, rr_effective_time body, Activate (s_public_key x) (rr_preshared_key_id body) key)}"
    by blast
  have "w_kme w = w_kme ?w" "w_ekm w = e" using w by simp_all
  from draw_then_fetch [OF n(1) _ f this(2) ok(3) assms(3)] ok(2) this(1)
  have d: "psk = key" "w_vpn (c_world s') = v" "linked (kme_rand V) (w_kme (c_world s')) (w_ekm (c_world s'))"
    using w by auto
  have v: "vpn_ok (vpn_conf V) v" using refresh_connection_ok [of "vpn_conf V" "(w_ekm ?w, w_vpn ?w)"] ok(1) st by (metis snd_conv)
  note fw = fire_waiting [OF v n(2)]
  show ?thesis
    by (intro exI [of _ x] exI [of _ body] exI [of _ psk] exI [of _ i] exI [of _ h] exI [of _ ran])
      (use x n(2) d v ok(3) fw in \<open>auto simp: Let_def world_ok_def\<close>)
qed

text \<open>Property C3. An uploaded file arrives: when the client's upload succeeds, the plaintext is in the
  bucket under the name the server chose, and every other object is as before.\<close>

theorem upload_stores_plaintext:
  assumes "run_client A cfg io (world_net V m) (UploadFile name content) s = (Some 0, s')"
    and "world_ok V (c_world s)" "sim_ready (kme_conf V) (kme_auth V) (peer_qkd cfg)"
    and "upload_aead V = A" "aead_ok A" "length (cli_nonce io) = NONCE_LEN" "distinct (map fst (w_keys (c_world s)))"
  shows "map_of (ds_objects (w_sink (c_world s'))) =
      (map_of (ds_objects (w_sink (c_world s))))(object_name_of (at_uuid m) name \<mapsto> content) \<and>
    linked (kme_rand V) (w_kme (c_world s')) (w_ekm (c_world s'))"
proof -
  let ?w = "c_world s"
  have c: "\<exists>uri. cli_upload A cfg io (world_net V m) name content s = (Inr uri, s')"
    using assms(1) run_ok by (fastforce simp: run_client_def)
  then obtain uri i psk blob s1 s2 where
    1: "on_world (\<lambda>w. case file_key_call (world_net V m) (my_qkd cfg) w of (a, w') \<Rightarrow> (answered a, w')) s = (Inr i, s1)"
    and 2: "on_world (fetch_key cfg (world_net V m) i) s1 = (Inr psk, s2)"
    and 3: "aes_gcm_wrap A (cli_nonce io) psk content (utf8 name) = Inr blob"
    and 4: "on_world (\<lambda>w. case upload_call (world_net V m) i name blob w of (a, w') \<Rightarrow> (answered a, w')) s2 = (Inr uri, s')"
    by (auto simp: cli_upload_def bind_cmd_Inr)
  from 1 [unfolded on_world_answered] obtain q e keys where
    fk: "file_key (upload_conf V) (reach V m) (fst (at_file_key m)) (snd (at_file_key m)) (Some (my_qkd cfg)) (w_ekm ?w, w_keys ?w) = (Inr (i, q), e, keys)"
    and w1: "c_world s1 = ?w\<lparr>w_ekm := e, w_keys := keys\<rparr>"
    by (auto simp: world_net_def map_sum_eq_Inr split: prod.splits)
  have ok: "linked (kme_rand V) (w_kme ?w) (w_ekm ?w)" "inj (\<lambda>i. fst (kme_rand V i))"
    using assms(2) by (simp_all add: world_ok_def)
  from ekm_http.file_key_Inr [OF fk [unfolded reach_def] assms(7)] obtain key where
    key: "map_of keys i = Some (key, snd (at_file_key m) + file_key_ttl_s (upload_conf V))" "distinct (map fst keys)"
      "fst (ekm_new (reach V m) q ''file'' (w_ekm ?w)) = Inr (i, key)" by (auto simp: reach_def)
  have n: "ekm_new (reach V m) q ''file'' (w_ekm ?w) = (Inr (i, key), e)"
    using key(3) file_key_state [OF fk] by (metis prod.collapse)
  from 2 [unfolded on_world_Inr] obtain w2 where
    f: "fetch_key cfg (world_net V m) i (c_world s1) = (Inr psk, w2)" "c_world s2 = w2" by auto
  have "w_kme (c_world s1) = w_kme ?w" "w_ekm (c_world s1) = e" using w1 by simp_all
  from draw_then_fetch [OF n _ f(1) this(2) ok(2) assms(3)] ok(1) this(1)
  obtain ks where d: "psk = key" "c_world s2 = (c_world s1)\<lparr>w_kme := ks\<rparr>" "linked (kme_rand V) ks e"
    using f(2) w1 by auto
  from 4 [unfolded on_world_answered] obtain n' sink keys' where
    up: "upload A dir_upload (at_upload m) i blob name (at_uuid m) (w_sink ?w, keys) = (Inr (uri, n'), sink, keys')"
    and w': "c_world s' = (c_world s2)\<lparr>w_sink := sink, w_keys := keys'\<rparr>"
    using d(2) w1 assms(4) by (auto simp: world_net_def map_sum_eq_Inr split: prod.splits)
  have "aes_gcm_unwrap A key blob (utf8 name) = Inr content"
    using wrap_unwrap [OF assms(5) wrap_key_ok [OF assms(5) 3] assms(6), of content "utf8 name"] 3 d(1) by auto
  from upload_result [OF up key(1,2) this] have "map_of (ds_objects sink) = (map_of (ds_objects (w_sink ?w)))(object_name_of (at_uuid m) name \<mapsto> content)" .
  then show ?thesis using w' d(2,3) w1 by simp
qed

section \<open>Witnesses\<close>

text \<open>A KME that issued the two keys of the demonstration EKM, and a client whose commands succeed.\<close>

definition link_rand :: "nat \<Rightarrow> string \<times> bytes" where
  "link_rand n =
     (if n = 0 then ''a'' else if n = 1 then ''b'' else replicate n (CHR ''c''), replicate 32 (of_nat (n + 1)))"

definition link_kme :: key_store where
  "link_kme = snd (sim_new_keys link_rand (''QKD1'', ''QKD2'') 2 (KeyStore 82 1000 0))"

definition demo_servers :: servers where
  "demo_servers = \<lparr> ekm_conf = demo_env, ekm_token = ''s'', vpn_conf = demo_settings, vpn_verify = static_verify ''t'',
     kme_conf = demo_cfg, kme_rand = link_rand, kme_auth = None, upload_conf = demo_upload, upload_aead = clear_aead \<rparr>"

definition demo_moment :: moment where
  "demo_moment = \<lparr> at_ekm = demo_fresh, at_vpn = demo_io 0, at_file_key = (0, 1), at_upload = 2, at_uuid = ''u'' \<rparr>"

definition demo_world :: "vpn \<Rightarrow> world" where
  "demo_world v = \<lparr> w_kme = link_kme, w_ekm = demo_ekm, w_vpn = v, w_keys = [], w_sink = demo_sink \<rparr>"

lemma link_rand_inj: "inj (\<lambda>i. fst (link_rand i))"
proof (rule injI)
  fix i j
  assume e: "fst (link_rand i) = fst (link_rand j)"
  have c: "''a'' \<noteq> replicate n (CHR ''c'')" "''b'' \<noteq> replicate n (CHR ''c'')" for n by (cases n; simp)+
  show "i = j"
    using e c c [symmetric] arg_cong [OF e, of length] by (auto simp: link_rand_def split: if_splits)
qed

lemma demo_linked: "linked link_rand link_kme demo_ekm"
proof -
  obtain ks where k: "sim_new_keys link_rand (''QKD1'', ''QKD2'') 2 (KeyStore 82 1000 0) = (ks, link_kme)"
    by (metis link_kme_def prod.collapse)
  from sim_new_keys_ok [OF sim_ok_start link_rand_inj k]
  have ok: "sim_ok link_rand link_kme" "issued_count link_kme = 2" "consumed_ids link_kme = {}"
    by (simp_all add: KeyStore_def)
  have p: "pooled demo_ekm = [\<lparr> k_id = ''a'', k_material = replicate 32 1 \<rparr>, \<lparr> k_id = ''b'', k_material = replicate 32 2 \<rparr>]"
    "spent_keys demo_ekm = {}"
    by (simp_all add: pooled_def demo_ekm_def create_app_def demo_stock_def spent_keys_def open_store_def)
  have r: "link_rand 0 = (''a'', replicate 32 1)" "link_rand 1 = (''b'', replicate 32 2)" by (simp_all add: link_rand_def)
  show ?thesis unfolding linked_def p using ok
    by (auto simp: r r(2) [unfolded One_nat_def] intro: exI [of _ 0] exI [of _ 1])
qed

lemma demo_world_ok: "vpn_ok demo_settings v \<Longrightarrow> world_ok demo_servers (demo_world v)"
  by (simp add: world_ok_def demo_servers_def demo_world_def demo_linked link_rand_inj)

lemma demo_draw:
  "fst (ekm_new (reach demo_servers demo_moment) ''QKD2'' ''vpn'' demo_ekm) = Inr (''a'', replicate 32 1)"
proof -
  have "(case serve demo_env demo_fresh ''Bearer s'' (GetNew ''QKD2'' ''vpn'') demo_ekm of
      (m, s') \<Rightarrow> ekm_result (ekm_reply m)) = Inr (''a'', replicate 32 1)" by code_simp
  then show ?thesis
    by (simp add: reach_def demo_servers_def demo_moment_def ekm_new_get split: prod.splits)
qed

lemma demo_fetch_key:
  assumes "w_kme w = link_kme" "peer_qkd cfg = ''QKD1''"
  shows "\<exists>ks. fetch_key cfg (world_net demo_servers m) ''a'' w = (Inr (replicate 32 1), w\<lparr>w_kme := ks\<rparr>)"
proof -
  have "awaits link_rand link_kme ''a'' (replicate 32 1)"
    using ekm_new_awaits [of demo_env demo_fresh "''Bearer s''" "''QKD2''" "''vpn''" demo_ekm "''a''" "replicate 32 1"]
      demo_draw demo_linked by (simp add: reach_def demo_servers_def demo_moment_def) (metis prod.collapse)
  then show ?thesis
    using fetch_key_agrees [of demo_servers w "''a''" "replicate 32 1" cfg m] demo_linked link_rand_inj demo_ready(1) assms
    by (auto simp: demo_servers_def linked_def)
qed

definition wit_run :: runner where
  "wit_run args stdin h =
     Inr \<lparr> returncode = 0, out_text = (if args = [''wg'', ''genkey''] then ''priv'' else demo_pubkey), err_text = [] \<rparr>"

definition wit_io :: cli_io where
  "wit_io = \<lparr> metadata = Inr ''t'', psk_path = ''/tmp/wg-psk-1'', cli_nonce = replicate 12 7, run_command = wit_run,
     disk_ops = good_disk \<rparr>"

definition wit_client :: "session_file \<Rightarrow> vpn \<Rightarrow> world client" where
  "wit_client x v = \<lparr> c_host = \<lparr> files = [], commands = [] \<rparr>, c_session = x, c_now = 0, c_ran = [], c_world = demo_world v \<rparr>"

lemma wit_genkey:
  "genkey wit_run h = (Inr (''priv'', demo_pubkey), snd (genkey wit_run h))"
proof -
  have "strip ''priv'' = ''priv''" "strip demo_pubkey = demo_pubkey" by code_simp+
  then show ?thesis by (simp add: genkey_def wg_run_def wit_run_def Let_def)
qed

lemma wit_token: "id_token demo_client_cfg wit_io h = (Inr ''t'', h)"
proof -
  have "strip ''t'' = ''t''" by code_simp
  then show ?thesis by (simp add: id_token_def demo_client_cfg_def wit_io_def)
qed

lemma wit_up: "wg_up wit_run conf h = (Inr (), snd (wg_up wit_run conf h))"
  by (simp add: wg_up_def wg_run_def wit_run_def)

text \<open>The VPN server's answers once the key is drawn.\<close>

lemma demo_new_key:
  "\<exists>e. vpn_new_key (reach demo_servers demo_moment) ''QKD2'' demo_ekm = (Inr (''a'', replicate 32 1), e)"
  using demo_draw by (auto simp: vpn_new_key_def split: prod.splits)

lemma demo_auth: "bearer_dep (static_verify ''t'') ''Bearer t'' = Inr (the (case bearer_dep (static_verify ''t'') ''Bearer t'' of Inr c \<Rightarrow> Some c | Inl x \<Rightarrow> None))"
proof -
  have "isl (bearer_dep (static_verify ''t'') ''Bearer t'') = False" by code_simp
  then show ?thesis by (cases "bearer_dep (static_verify ''t'') ''Bearer t''") auto
qed

definition demo_started :: "unit py \<times> vpn" where
  "demo_started =
     (case record_for demo_settings demo_pubkey ''QKD2'' (vpn_create_app [] []) of
        (Inr (rcd, new), v1) \<Rightarrow> apply_key demo_settings (demo_io 0) demo_pubkey rcd ''a'' (replicate 32 1) new v1
      | (Inl e, v1) \<Rightarrow> (Inl KeyError, v1))"

lemma demo_started_ok:
  "fst demo_started = Inr ()"
  "fst (record_for demo_settings demo_pubkey ''QKD2'' (vpn_create_app [] [])) \<noteq> Inl e"
  "StartConnection (JObj [(''qkd_id'', JStr ''QKD2''), (''public_key'', JStr demo_pubkey)]) = Some (demo_pubkey, ''QKD2'')"
  "RefreshConnection (JObj [(''public_key'', JStr demo_pubkey)]) = Some demo_pubkey"
proof -
  show "fst demo_started = Inr ()" by code_simp
  have "isl (fst (record_for demo_settings demo_pubkey ''QKD2'' (vpn_create_app [] []))) = False" by code_simp
  then show "fst (record_for demo_settings demo_pubkey ''QKD2'' (vpn_create_app [] [])) \<noteq> Inl e" by auto
  show "StartConnection (JObj [(''qkd_id'', JStr ''QKD2''), (''public_key'', JStr demo_pubkey)]) = Some (demo_pubkey, ''QKD2'')"
    by code_simp
  show "RefreshConnection (JObj [(''public_key'', JStr demo_pubkey)]) = Some demo_pubkey" by code_simp
qed

lemma demo_control:
  "\<exists>body e v. control (world_net demo_servers demo_moment) ''Bearer t''
      (Start (JObj [(''qkd_id'', JStr ''QKD2''), (''public_key'', JStr demo_pubkey)])) (demo_world (vpn_create_app [] [])) =
     (Some (Inr (Started body)), (demo_world (vpn_create_app [] []))\<lparr>w_ekm := e, w_vpn := v\<rparr>) \<and> sr_preshared_key_id body = ''a''"
proof -
  obtain e where e: "vpn_new_key (reach demo_servers demo_moment) ''QKD2'' demo_ekm = (Inr (''a'', replicate 32 1), e)"
    using demo_new_key by blast
  obtain rcd new v1 where r: "record_for demo_settings demo_pubkey ''QKD2'' (vpn_create_app [] []) = (Inr (rcd, new), v1)"
    using demo_started_ok(2) by (metis (no_types) fst_conv obj_sumE old.prod.exhaust)
  obtain v where v: "apply_key demo_settings (demo_io 0) demo_pubkey rcd ''a'' (replicate 32 1) new v1 = (Inr (), v)"
    using demo_started_ok(1) by (simp add: demo_started_def r) (metis prod.collapse)
  have s: "vpn_conf demo_servers = demo_settings" "vpn_verify demo_servers = static_verify ''t''" "at_vpn demo_moment = demo_io 0"
    by (simp_all add: demo_servers_def demo_moment_def)
  have w: "w_ekm (demo_world u) = demo_ekm" "w_vpn (demo_world u) = u" for u by (simp_all add: demo_world_def)
  show ?thesis
    unfolding world_net_def net.simps vpn_serve_def w
    by (subst s, subst demo_auth, simp add: demo_started_ok(3) start_connection_def e r v s)
      (auto simp: demo_io_def)
qed

lemma wit_connect:
  "\<exists>s'. run_client clear_aead demo_client_cfg wit_io (world_net demo_servers demo_moment) Connect
     (wit_client NoSession (vpn_create_app [] [])) = (Some 0, s')"
proof -
  let ?s = "wit_client NoSession (vpn_create_app [] [])" and ?net = "world_net demo_servers demo_moment"
  obtain body e v where c: "control ?net ''Bearer t''
      (Start (JObj [(''qkd_id'', JStr ''QKD2''), (''public_key'', JStr demo_pubkey)])) (demo_world (vpn_create_app [] [])) =
     (Some (Inr (Started body)), (demo_world (vpn_create_app [] []))\<lparr>w_ekm := e, w_vpn := v\<rparr>)" "sr_preshared_key_id body = ''a''"
    using demo_control by blast
  have "w_kme ((demo_world (vpn_create_app [] []))\<lparr>w_ekm := e, w_vpn := v\<rparr>) = link_kme" by (simp add: demo_world_def)
  from demo_fetch_key [OF this, of demo_client_cfg demo_moment] obtain w2 where
    f: "fetch_key demo_client_cfg ?net ''a'' ((demo_world (vpn_create_app [] []))\<lparr>w_ekm := e, w_vpn := v\<rparr>) = (Inr (replicate 32 1), w2)"
    by (auto simp: demo_client_cfg_def)
  have g: "genkey (run_command wit_io) (c_host ?s) = (Inr (''priv'', demo_pubkey), snd (genkey wit_run (c_host ?s)))"
    using wit_genkey by (simp add: wit_io_def)
  have c': "control ?net (''Bearer '' @ ''t'') (Start (JObj [(''qkd_id'', JStr (my_qkd demo_client_cfg)), (''public_key'', JStr demo_pubkey)]))
      (c_world ?s) = (Some (Inr (Started body)), (demo_world (vpn_create_app [] []))\<lparr>w_ekm := e, w_vpn := v\<rparr>)"
    using c(1) by (simp add: wit_client_def demo_client_cfg_def)
  have u: "wg_up (run_command wit_io) conf h = (Inr (), snd (wg_up wit_run conf h))" for conf h
    using wit_up by (simp add: wit_io_def)
  obtain h3 where w: "write_conf (disk_ops wit_io) (conf_path demo_client_cfg) (connect_conf ''priv'' body (replicate 32 1))
      (snd (genkey wit_run (c_host ?s))) = (Inr (), h3)"
    by (simp add: write_conf_def on_disk_def write_text_def wit_io_def good_disk_def)
  have good: "disk_ops wit_io = good_disk" by (simp add: wit_io_def)
  have "disk_ops wit_io (MakeDirs (state_dir demo_client_cfg)) h = None" for h by (simp add: wit_io_def good_disk_def)
  from connect_forward [OF g this wit_token c' f [folded c(2)] w u] obtain t where
    "connect demo_client_cfg wit_io ?net ?s = save_session demo_client_cfg good_disk (connect_session demo_pubkey body) t"
    by (auto simp: good)
  then show ?thesis by (simp add: run_client_def exit_code_def save_session_def good_disk_def)
qed

lemma demo_start_ok: "vpn_ok demo_settings (vpn_create_app [] [])"
  by (rule vpn_create_app_ok) (simp add: lease_ok_def)

theorem tunnel_keys_agree_witness:
  "\<exists>(s' :: world client) conf x psk. map_of (files (c_host s')) (conf_path demo_client_cfg) = Some (conf_text conf) \<and>
     c_session s' = Stored x \<and> c_psk conf = b64e psk \<and> psk_in_force (w_vpn (c_world s')) (s_public_key x) = Some psk"
proof -
  obtain s' where r: "run_client clear_aead demo_client_cfg wit_io (world_net demo_servers demo_moment) Connect
     (wit_client NoSession (vpn_create_app [] [])) = (Some 0, s')" using wit_connect by blast
  have "world_ok demo_servers (c_world (wit_client NoSession (vpn_create_app [] [])))"
    using demo_world_ok [OF demo_start_ok] by (simp add: wit_client_def)
  moreover have "sim_ready (kme_conf demo_servers) (kme_auth demo_servers) (peer_qkd demo_client_cfg)"
    using demo_ready(1) by (simp add: demo_servers_def demo_client_cfg_def)
  ultimately show ?thesis using tunnel_keys_agree [OF r] by (auto simp: Let_def)
qed

text \<open>A refresh for the peer of the demonstration tunnel.\<close>

definition wit_session :: session where
  "wit_session = \<lparr> s_public_key = demo_pubkey, s_server_public_key = ''srv'', s_endpoint = ''vpn:51819'',
     s_client_ip = ''0.0.0.2'', s_preshared_key_id = ''z'' \<rparr>"

lemma wit_refresh:
  "\<exists>s'. run_client clear_aead demo_client_cfg wit_io (world_net demo_servers demo_moment) RefreshCommand
     (wit_client (Stored wit_session) demo_vpn) = (Some 0, s')"
proof -
  let ?s = "wit_client (Stored wit_session) demo_vpn" and ?net = "world_net demo_servers demo_moment"
  obtain e where e: "vpn_new_key (reach demo_servers demo_moment) ''QKD2'' demo_ekm = (Inr (''a'', replicate 32 1), e)"
    using demo_new_key by blast
  have q: "map_of (peers_mem demo_vpn) demo_pubkey = Some \<lparr> client_ip = ''0.0.0.2'', peer_qkd_id = ''QKD2'',
      preshared_key_id = Some [], next_refresh_at = Some 3600000000, refresh_due = False \<rparr>" by (rule demo_tunnel_run(2))
  have c: "\<exists>v. control ?net ''Bearer t'' (Refresh (JObj [(''public_key'', JStr demo_pubkey)])) (demo_world demo_vpn) =
     (Some (Inr (Refreshing \<lparr>rr_preshared_key_id = ''a'', rr_effective_time = 30000000\<rparr>)),
      (demo_world demo_vpn)\<lparr>w_ekm := e, w_vpn := v\<rparr>)"
  proof -
    have s: "vpn_conf demo_servers = demo_settings" "vpn_verify demo_servers = static_verify ''t''" "at_vpn demo_moment = demo_io 0"
      by (simp_all add: demo_servers_def demo_moment_def)
    have w: "w_ekm (demo_world u) = demo_ekm" "w_vpn (demo_world u) = u" for u by (simp_all add: demo_world_def)
    show ?thesis
      unfolding world_net_def net.simps vpn_serve_def w
      by (subst s, subst demo_auth, simp add: demo_started_ok(4) refresh_connection_def e q s,
          simp add: schedule_def demo_settings_def)
        (rule exI, rule refl)
  qed
  then obtain v where c: "control ?net ''Bearer t'' (Refresh (JObj [(''public_key'', JStr demo_pubkey)])) (demo_world demo_vpn) =
     (Some (Inr (Refreshing \<lparr>rr_preshared_key_id = ''a'', rr_effective_time = 30000000\<rparr>)),
      (demo_world demo_vpn)\<lparr>w_ekm := e, w_vpn := v\<rparr>)" by blast
  have "w_kme ((demo_world demo_vpn)\<lparr>w_ekm := e, w_vpn := v\<rparr>) = link_kme" by (simp add: demo_world_def)
  from demo_fetch_key [OF this, of demo_client_cfg demo_moment] obtain w2 where
    f: "fetch_key demo_client_cfg ?net ''a'' ((demo_world demo_vpn)\<lparr>w_ekm := e, w_vpn := v\<rparr>) = (Inr (replicate 32 1), w2)"
    by (auto simp: demo_client_cfg_def)
  have p: "\<exists>h'. set_psk good_disk wit_run iface path srv psk h = (Inr (), h')" for path srv psk h
    by (simp add: set_psk_def with_psk_file_def wg_run_def wit_run_def on_disk_def write_text_def good_disk_def)
  obtain h' where h': "set_psk good_disk wit_run iface ''/tmp/wg-psk-1'' ''srv'' (replicate 32 1) \<lparr> files = [], commands = [] \<rparr> = (Inr (), h')"
    using p by blast
  have "fst (refresh demo_client_cfg wit_io ?net ?s) = Inr ()"
    using wit_token [of "\<lparr> files = [], commands = [] \<rparr>"] c f h'
    by (simp add: refresh_def bind_cmd_def on_host_def on_world_def control_post_def answered_def refreshing_def
        save_session_def require_session_def read_session_def wait_until_def wit_client_def wit_session_def)
      (simp add: wit_io_def save_session_def good_disk_def [THEN fun_cong, THEN fun_cong])
  then show ?thesis by (cases "refresh demo_client_cfg wit_io ?net ?s") (simp add: run_client_def exit_code_def)
qed

theorem refresh_keys_agree_witness:
  "\<exists>(s' :: world client) psk i t. t \<le> c_now s' \<and>
     psk_in_force (fire demo_settings (demo_io t) i (w_vpn (c_world s'))) demo_pubkey = Some psk"
proof -
  obtain s' where r: "run_client clear_aead demo_client_cfg wit_io (world_net demo_servers demo_moment) RefreshCommand
     (wit_client (Stored wit_session) demo_vpn) = (Some 0, s')" using wit_refresh by blast
  have "world_ok demo_servers (c_world (wit_client (Stored wit_session) demo_vpn))"
    using demo_world_ok reached_ok [OF demo_tunnel_run(1)] by (simp add: wit_client_def)
  moreover have "sim_ready (kme_conf demo_servers) (kme_auth demo_servers) (peer_qkd demo_client_cfg)"
    using demo_ready(1) by (simp add: demo_servers_def demo_client_cfg_def)
  ultimately obtain x body psk i where
    "c_session (wit_client (Stored wit_session) demo_vpn) = Stored x" "rr_effective_time (body :: refresh_reply) \<le> c_now s'"
    "\<forall>io'. now_us io' \<ge> rr_effective_time body \<longrightarrow> wg_set io' = Inr () \<longrightarrow>
       psk_in_force (fire demo_settings io' i (w_vpn (c_world s'))) (s_public_key x) = Some psk"
    using refresh_keys_agree [OF r] by (auto simp: Let_def demo_servers_def)
  then have "psk_in_force (fire demo_settings (demo_io (rr_effective_time body)) i (w_vpn (c_world s'))) demo_pubkey = Some psk"
    by (auto simp: wit_client_def wit_session_def)
  then show ?thesis using \<open>rr_effective_time body \<le> c_now s'\<close> by blast
qed

lemma wit_upload:
  "\<exists>s'. run_client clear_aead demo_client_cfg wit_io (world_net demo_servers demo_moment) (UploadFile ''f.txt'' [5])
     (wit_client NoSession (vpn_create_app [] [])) = (Some 0, s')"
proof -
  let ?v = "vpn_create_app [] []" and ?net = "world_net demo_servers demo_moment"
  have t: "fst (at_file_key demo_moment) = 0" "snd (at_file_key demo_moment) = 1" "at_upload demo_moment = 2"
    "at_uuid demo_moment = ''u''" "upload_conf demo_servers = demo_upload" "upload_aead demo_servers = clear_aead"
    by (simp_all add: demo_moment_def demo_servers_def)
  have rs: "reach demo_servers demo_moment = demo_upload_send" by (rule ext)+ (simp add: reach_def demo_servers_def demo_moment_def)
  obtain e where n: "ekm_new demo_upload_send ''QKD2'' ''file'' demo_ekm = (Inr (''a'', replicate 32 1), e)"
    using demo_file_key(2) by (metis prod.collapse)
  have fk: "file_key demo_upload demo_upload_send 0 1 (Some ''QKD2'') (demo_ekm, []) =
      (Inr (''a'', ''QKD2''), e, [(''a'', replicate 32 1, 601)])"
    using n by (simp add: file_key_def Let_def prune_keys_def demo_upload_def)
  let ?w1 = "(demo_world ?v)\<lparr>w_ekm := e, w_keys := [(''a'', replicate 32 1, 601)]\<rparr>"
  have 1: "file_key_call ?net ''QKD2'' (demo_world ?v) = (Some (Inr ''a''), ?w1)"
    by (simp add: world_net_def t rs demo_world_def fk)
  obtain ks where 2: "fetch_key demo_client_cfg ?net ''a'' ?w1 = (Inr (replicate 32 1), ?w1\<lparr>w_kme := ks\<rparr>)"
    using demo_fetch_key [of ?w1 demo_client_cfg demo_moment] by (auto simp: demo_world_def demo_client_cfg_def)
  obtain blob where 3: "aes_gcm_wrap clear_aead (replicate 12 7) (replicate 32 1) [5] (utf8 ''f.txt'') = Inr blob"
    by (simp add: aes_gcm_wrap_def clear_aead_def key_ok_def)
  have u: "aes_gcm_unwrap clear_aead (replicate 32 1) blob (utf8 ''f.txt'') = Inr [5]"
    using wrap_unwrap [OF clear_aead_ok wrap_key_ok [OF clear_aead_ok 3], of "replicate 12 7" "[5]" "utf8 ''f.txt''"] 3
    by (auto simp: NONCE_LEN_def)
  have o: "object_name_of ''u'' ''f.txt'' = ''u_f.txt''" by code_simp
  have "\<exists>w. upload_call ?net ''a'' ''f.txt'' blob (?w1\<lparr>w_kme := ks\<rparr>) = (Some (Inr ''gs://b/u_f.txt''), w)"
    by (simp add: world_net_def t upload_def get_file_key_def prune_keys_def Let_def u dir_upload_def o demo_world_def demo_sink_def)
  then obtain w where 4: "upload_call ?net ''a'' ''f.txt'' blob (?w1\<lparr>w_kme := ks\<rparr>) = (Some (Inr ''gs://b/u_f.txt''), w)" by blast
  have "fst (cli_upload clear_aead demo_client_cfg wit_io ?net ''f.txt'' [5] (wit_client NoSession ?v)) = Inr ''gs://b/u_f.txt''"
    using 1 2 3 4 by (simp add: cli_upload_def bind_cmd_def on_world_def answered_def wit_client_def demo_client_cfg_def wit_io_def)
  then show ?thesis
    by (cases "cli_upload clear_aead demo_client_cfg wit_io ?net ''f.txt'' [5] (wit_client NoSession ?v)")
      (simp add: run_client_def exit_code_def)
qed

theorem upload_stores_plaintext_witness:
  "\<exists>s' :: world client. map_of (ds_objects (w_sink (c_world s'))) = [''u_f.txt'' \<mapsto> [5]]"
proof -
  obtain s' where r: "run_client clear_aead demo_client_cfg wit_io (world_net demo_servers demo_moment) (UploadFile ''f.txt'' [5])
     (wit_client NoSession (vpn_create_app [] [])) = (Some 0, s')" using wit_upload by blast
  have o: "object_name_of ''u'' ''f.txt'' = ''u_f.txt''" by code_simp
  have 1: "world_ok demo_servers (c_world (wit_client NoSession (vpn_create_app [] [])))"
    using demo_world_ok [OF demo_start_ok] by (simp add: wit_client_def)
  have 2: "sim_ready (kme_conf demo_servers) (kme_auth demo_servers) (peer_qkd demo_client_cfg)"
    using demo_ready(1) by (simp add: demo_servers_def demo_client_cfg_def)
  have 3: "upload_aead demo_servers = clear_aead" by (simp add: demo_servers_def)
  from upload_stores_plaintext [OF r 1 2 3 clear_aead_ok] o have
    "map_of (ds_objects (w_sink (c_world s'))) = [''u_f.txt'' \<mapsto> [5]]"
    by (simp add: wit_client_def demo_world_def demo_sink_def wit_io_def NONCE_LEN_def demo_moment_def)
  then show ?thesis by blast
qed

definition wit_evs :: "link_event list" where
  "wit_evs = [LinkPull ''QKD2'' 0, LinkEkm (Request ''Bearer s'' (GetNew ''QKD2'' ''vpn'') demo_fresh), LinkFetch ''QKD1'' ''a'']"

abbreviation wit_link :: "key_store \<times> ekm" where
  "wit_link \<equiv> link_exec demo_env demo_cfg link_rand None wit_evs
     (KeyStore 82 1000 0, create_app (open_store (replicate 32 9)) (new_pool [''QKD2''] 3 600))"

theorem buffered_keys_can_be_fetched_witness:
  "fst (client_dec_keys (sim_send demo_cfg link_rand None) ''QKD1'' [''b''] (fst wit_link)) =
     Inr [\<lparr> k_id = ''b'', k_material = replicate 32 2 \<rparr>]"
proof -
  have p: "map (\<lambda>k. (k_id k, k_material k)) (pooled (snd wit_link)) = [(''b'', replicate 32 2), (''cc'', replicate 32 3)]" by code_simp
  then have "\<lparr> k_id = ''b'', k_material = replicate 32 2 \<rparr> \<in> set (pooled (snd wit_link))"
    by (cases "pooled (snd wit_link)") auto
  from buffered_keys_can_be_fetched [OF _ link_rand_inj demo_ready(1) prod.collapse [symmetric] this]
  show ?thesis by (simp add: open_store_def)
qed

end
