(* ===== verification/PyValues.thy ===== *)
theory PyValues
  imports Etsi014
begin

text \<open>
  How Python's operators and methods act on decoded JSON and on text, as far as the scripts and the
  analysis use them: \<open>j.get(k, d)\<close>, \<open>len\<close>, \<open>in\<close>, \<open>==\<close>, arithmetic on a decoded number, \<open>or\<close>, \<open>float\<close> of a
  text, the format \<open>.6g\<close> and \<open>str.splitlines\<close>. Floats are rationals: rounding, overflow to infinity and
  NaN in a JSON file are not modelled.
\<close>

section \<open>Decoded JSON\<close>

definition AttributeError :: py_error where
  "AttributeError = OtherError ''AttributeError''"

definition py_div :: "rat \<Rightarrow> rat \<Rightarrow> rat py" where
  "py_div a b = (if b = 0 then Inl ZeroDivisionError else Inr (a / b))"

lemma py_div_Inr [simp]: "b \<noteq> 0 \<Longrightarrow> py_div a b = Inr (a / b)"
  by (simp add: py_div_def)

text \<open>An operand of \<open>+\<close>, \<open>-\<close>, \<open>*\<close>, \<open>/\<close> or \<open>abs\<close> next to a number.\<close>

text \<open>Integers from here on round past the greatest double: converting one to a float raises OverflowError.\<close>

definition FLOAT_END :: int where
  "FLOAT_END = 2 ^ 1024 - 2 ^ 970"

definition as_num :: "json \<Rightarrow> rat py" where
  "as_num j =
     (case j of
        JBool b \<Rightarrow> Inr (of_bool b)
      | JInt i \<Rightarrow> Inr (of_int i)
      | JFloat q \<Rightarrow> Inr q
      | _ \<Rightarrow> Inl TypeError)"

definition py_get :: "json \<Rightarrow> string \<Rightarrow> json \<Rightarrow> json py" where
  "py_get j k d =
     (case j of
        JObj kvs \<Rightarrow> Inr (case map_of (rev kvs) k of None \<Rightarrow> d | Some v \<Rightarrow> v)
      | _ \<Rightarrow> Inl AttributeError)"

definition py_or :: "json \<Rightarrow> json \<Rightarrow> json" where
  "py_or a b = (if truthy a then a else b)"

definition py_len :: "json \<Rightarrow> int py" where
  "py_len j =
     (case j of
        JList xs \<Rightarrow> Inr (int (length xs))
      | JObj kvs \<Rightarrow> Inr (int (length (remdups (map fst kvs))))
      | JStr s \<Rightarrow> Inr (int (length s))
      | _ \<Rightarrow> Inl TypeError)"

text \<open>\<open>==\<close>: numbers and truth values compare by value, dictionaries whatever the order of their keys (the
  last of equal keys wins).\<close>

primrec norm_json :: "json \<Rightarrow> json" where
  "norm_json JNull = JNull"
| "norm_json (JBool b) = JFloat (of_bool b)"
| "norm_json (JInt i) = JFloat (of_int i)"
| "norm_json (JFloat q) = JFloat q"
| "norm_json (JStr s) = JStr s"
| "norm_json (JList xs) = JList (map norm_json xs)"
| "norm_json (JObj kvs) =
     JObj (let m = map (map_prod id norm_json) kvs
           in map (\<lambda>k. (k, the (map_of (rev m) k))) (sort (remdups (map fst m))))"

definition py_eq :: "json \<Rightarrow> json \<Rightarrow> bool" where
  "py_eq a b \<longleftrightarrow> norm_json a = norm_json b"

lemma py_eq_refl [simp]: "py_eq a a"
  by (simp add: py_eq_def)

lemma py_eq_numbers [simp]:
  "py_eq (JInt i) (JInt k) \<longleftrightarrow> i = k" "py_eq (JInt i) (JFloat q) \<longleftrightarrow> of_int i = q"
  "py_eq (JFloat q) (JInt i) \<longleftrightarrow> q = of_int i" "py_eq (JFloat q) (JFloat r) \<longleftrightarrow> q = r"
  "py_eq (JStr s) (JStr t) \<longleftrightarrow> s = t" "\<not> py_eq JNull (JInt i)" "\<not> py_eq (JInt i) JNull"
  by (simp_all add: py_eq_def)

text \<open>\<open>str(j)\<close>; \<open>shw\<close> stands for the rendering of floats, lists and dictionaries, which depends on the binary
  representation of floats.\<close>

definition py_str :: "(json \<Rightarrow> string) \<Rightarrow> json \<Rightarrow> string" where
  "py_str shw j =
     (case j of
        JNull \<Rightarrow> ''None''
      | JBool b \<Rightarrow> if b then ''True'' else ''False''
      | JInt i \<Rightarrow> str_int i
      | JStr s \<Rightarrow> s
      | _ \<Rightarrow> shw j)"

text \<open>\<open>x in c\<close>: an element of a list, a key of a dictionary, a part of a text.\<close>

definition occurs_in :: "string \<Rightarrow> string \<Rightarrow> bool" where
  "occurs_in t s \<longleftrightarrow> list_ex (\<lambda>i. startswith (drop i s) t) [0..<Suc (length s)]"

definition py_contains :: "json \<Rightarrow> json \<Rightarrow> bool py" where
  "py_contains x c =
     (case c of
        JList xs \<Rightarrow> Inr (list_ex (py_eq x) xs)
      | JObj kvs \<Rightarrow> in_strings x (set (map fst kvs))
      | JStr s \<Rightarrow> (case x of JStr t \<Rightarrow> Inr (occurs_in t s) | _ \<Rightarrow> Inl TypeError)
      | _ \<Rightarrow> Inl TypeError)"

lemma occurs_in_iff: "occurs_in t s \<longleftrightarrow> (\<exists>u v. s = u @ t @ v)"
proof
  assume "occurs_in t s"
  then obtain i v where "drop i s = t @ v" by (auto simp: occurs_in_def list_ex_iff startswith_iff)
  then have "s = take i s @ t @ v" by (metis append_take_drop_id)
  then show "\<exists>u v. s = u @ t @ v" by blast
next
  assume "\<exists>u v. s = u @ t @ v"
  then obtain u v where s: "s = u @ t @ v" by blast
  then have "length u \<in> set [0..<Suc (length s)]" "startswith (drop (length u) s) t" by auto
  then show "occurs_in t s" unfolding occurs_in_def list_ex_iff by blast
qed

section \<open>Lists of results\<close>

lemma map_py_elem: "map_py f xs = Inr ys \<Longrightarrow> x \<in> set xs \<Longrightarrow> \<exists>y \<in> set ys. f x = Inr y"
  by (induction xs arbitrary: ys) (auto simp: bind_py_eq_Inr)

lemma map_py_origin: "map_py f xs = Inr ys \<Longrightarrow> y \<in> set ys \<Longrightarrow> \<exists>x \<in> set xs. f x = Inr y"
  by (induction xs arbitrary: ys) (auto simp: bind_py_eq_Inr)

section \<open>Numbers in text\<close>

definition pow10 :: "int \<Rightarrow> rat" where
  "pow10 e = (if 0 \<le> e then 10 ^ nat e else 1 / 10 ^ nat (- e))"

text \<open>\<open>float(text)\<close>; None is a ValueError. \<open>parse_nat\<close> knows the underscores between digits.\<close>

datatype float_text = FNum rat | FNan | FInf bool

definition lower :: "string \<Rightarrow> string" where
  "lower s = map (\<lambda>c. let n = of_char c :: nat in if 65 \<le> n \<and> n \<le> 90 then char_of (n + 32) else c) s"

definition signed :: "string \<Rightarrow> bool \<times> string" where
  "signed s = (case s of
       [] \<Rightarrow> (False, [])
     | c # cs \<Rightarrow> if c = CHR ''-'' then (True, cs) else if c = CHR ''+'' then (False, cs) else (False, s))"

definition parse_part :: "string \<Rightarrow> (nat \<times> nat) option" where
  "parse_part s =
     (if s = [] then Some (0, 0)
      else map_option (\<lambda>n. (n, length (filter (\<lambda>c. c \<noteq> CHR ''_'') s))) (parse_nat s))"

definition parse_exponent :: "string \<Rightarrow> int option" where
  "parse_exponent s = (case signed s of (neg, ds) \<Rightarrow> map_option (\<lambda>n. if neg then - int n else int n) (parse_nat ds))"

definition parse_decimal :: "string \<Rightarrow> rat option" where
  "parse_decimal s =
     (case partition_at CHR ''e'' s of (mant, mark, ex) \<Rightarrow>
      (case partition_at CHR ''.'' mant of (whole, dot, fra) \<Rightarrow>
       if whole = [] \<and> fra = [] then None
       else
         (case (parse_part whole, parse_part fra, if mark = [] then Some 0 else parse_exponent ex) of
            (Some (w, _), Some (f, k), Some e) \<Rightarrow>
              Some ((of_nat w + of_nat f / 10 ^ k) * pow10 e)
          | _ \<Rightarrow> None)))"

definition py_float :: "string \<Rightarrow> float_text option" where
  "py_float text =
     (case signed (lower (strip text)) of (neg, s) \<Rightarrow>
       if s = ''nan'' then Some FNan
       else if s = ''inf'' \<or> s = ''infinity'' then Some (FInf neg)
       else map_option (\<lambda>q. FNum (if neg then - q else q)) (parse_decimal s))"

text \<open>Evaluating \<open>float\<close> on decimal texts.\<close>

lemma digit_vals:
  "digit_val CHR ''0'' = Some 0" "digit_val CHR ''1'' = Some 1" "digit_val CHR ''2'' = Some 2"
  "digit_val CHR ''3'' = Some 3" "digit_val CHR ''4'' = Some 4" "digit_val CHR ''5'' = Some 5"
  "digit_val CHR ''6'' = Some 6" "digit_val CHR ''7'' = Some 7" "digit_val CHR ''8'' = Some 8"
  "digit_val CHR ''9'' = Some 9"
  by (simp_all add: digit_val_def)

lemma lower_Nil [simp]: "lower [] = []"
  by (simp add: lower_def)

lemma number_chars:
  assumes "digit_val c = Some d \<or> c = CHR ''.''"
  shows "\<not> is_space c" "lower (c # cs) = c # lower cs"
  using assms by (auto simp: digit_val_def is_space_def lower_def Let_def split: if_splits)

lemmas py_float_simps =
  py_float_def parse_decimal_def parse_part_def parse_nat_def strip_def signed_def partition_at_def
  pow10_def digit_vals number_chars [OF disjI2 [OF refl]] digit_vals [THEN disjI1, THEN number_chars(1)]
  digit_vals [THEN disjI1, THEN number_chars(2)]

text \<open>The format \<open>.6g\<close>: six significant digits, rounded half to even, no trailing zeros.\<close>

definition round_even :: "rat \<Rightarrow> int" where
  "round_even q =
     (let f = \<lfloor>q\<rfloor>; r = q - of_int f
      in if r < 1 / 2 \<or> (r = 1 / 2 \<and> even f) then f else f + 1)"

definition exponent10 :: "rat \<Rightarrow> int" where
  "exponent10 q =
     (if 1 \<le> q then int (length (str_nat (nat \<lfloor>q\<rfloor>))) - 1
      else case quotient_of q of (n, d) \<Rightarrow>
        (case filter (\<lambda>k. 1 \<le> q * 10 ^ k) [1..<Suc (length (str_nat (nat d)))] of
           k # ks \<Rightarrow> - int k | [] \<Rightarrow> 0))"

definition rstrip_zeros :: "string \<Rightarrow> string" where
  "rstrip_zeros s = rev (dropWhile (\<lambda>c. c = CHR ''0'') (rev s))"

definition with_point :: "string \<Rightarrow> string \<Rightarrow> string" where
  "with_point whole fra = (let f = rstrip_zeros fra in if f = [] then whole else whole @ CHR ''.'' # f)"

definition fmt_g6 :: "rat \<Rightarrow> string" where
  "fmt_g6 q =
     (if q = 0 then ''0''
      else
        (let a = \<bar>q\<bar>; e0 = exponent10 a; n0 = round_even (a / pow10 (e0 - 5));
             (n, e) = (if n0 = 1000000 then (100000, e0 + 1) else (n0, e0));
             ds = str_nat (nat n);
             body =
               (if e < -4 \<or> 6 \<le> e then
                  with_point (take 1 ds) (drop 1 ds) @ ''e'' @ (if e < 0 then ''-'' else ''+'') @
                  (let x = str_nat (nat \<bar>e\<bar>) in if length x < 2 then CHR ''0'' # x else x)
                else if e < 0 then with_point ''0'' (replicate (nat (- e - 1)) (CHR ''0'') @ ds)
                else with_point (take (nat e + 1) ds) (drop (nat e + 1) ds))
         in if q < 0 then CHR ''-'' # body else body))"

section \<open>Lines\<close>

definition line_break :: "char \<Rightarrow> bool" where
  "line_break c \<longleftrightarrow> (of_char c :: nat) \<in> {10, 11, 12, 13, 28, 29, 30, 133}"

fun lines_from :: "string \<Rightarrow> string \<Rightarrow> string list" where
  "lines_from acc [] = (if acc = [] then [] else [rev acc])"
| "lines_from acc [c] = (if line_break c then [rev acc] else [rev (c # acc)])"
| "lines_from acc (c # d # ds) =
     (if c = CHR 0x0D \<and> d = CHR 0x0A then rev acc # lines_from [] ds
      else if line_break c then rev acc # lines_from [] (d # ds)
      else lines_from (c # acc) (d # ds))"

definition splitlines :: "string \<Rightarrow> string list" where
  "splitlines s = lines_from [] s"

lemma line_break_newline [simp]: "line_break CHR 0x0A"
  by (simp add: line_break_def)

lemma lines_from_line:
  assumes "\<forall>c \<in> set w. \<not> line_break c"
  shows "lines_from acc (w @ CHR 0x0A # s) = (rev acc @ w) # lines_from [] s"
  using assms
proof (induction w arbitrary: acc)
  case Nil
  show ?case by (cases s) auto
next
  case (Cons c w)
  then have c: "\<not> line_break c" "c \<noteq> CHR 0x0D" by (auto simp: line_break_def)
  have "lines_from acc (c # w @ CHR 0x0A # s) = lines_from (c # acc) (w @ CHR 0x0A # s)"
    using c by (cases "w @ CHR 0x0A # s") auto
  with Cons show ?case by simp
qed

lemma splitlines_joined:
  assumes "\<forall>w \<in> set ws. \<forall>c \<in> set w. \<not> line_break c"
  shows "splitlines (concat (map (\<lambda>w. w @ [CHR 0x0A]) ws)) = ws"
  using assms by (induction ws) (auto simp: splitlines_def lines_from_line)

end
