(* ===== verification/EntryPoints.thy ===== *)
theory EntryPoints
  imports EkmApp VpnApp UploadApp WireGuard PyValues
begin

text \<open>
  \<open>src/qkd_ekm/common/settings.py\<close> and what the entry points make of the environment
  (\<open>ekm/__main__.py\<close>, \<open>vpn/__main__.py\<close>, \<open>upload/__main__.py\<close>): the settings, verifiers and the start of each
  application. \<open>environ\<close> is \<open>os.environ.get\<close>. Clients, ports, directories and uvicorn are not modelled; a
  number of seconds that is not finite is outside the model and raises here.
\<close>

section \<open>Reading the environment\<close>

type_synonym environ = "string \<Rightarrow> string option"

definition env_value :: "environ \<Rightarrow> string \<Rightarrow> string option \<Rightarrow> bool \<Rightarrow> string option py" where
  "env_value environ name dflt required =
     (let value = (case environ name of None \<Rightarrow> dflt | Some v \<Rightarrow> Some v)
      in if required \<and> value = None then Inl (RuntimeError (''missing env '' @ name)) else Inr value)"

text \<open>\<open>env(name)\<close>, \<open>env(name, default)\<close> and \<open>env(name, required=True)\<close>.\<close>

definition env_or :: "environ \<Rightarrow> string \<Rightarrow> string \<Rightarrow> string" where
  "env_or environ name dflt = (case environ name of None \<Rightarrow> dflt | Some v \<Rightarrow> v)"

definition env_required :: "environ \<Rightarrow> string \<Rightarrow> string py" where
  "env_required environ name =
     bind_py (env_value environ name None True) (\<lambda>v. case v of Some t \<Rightarrow> Inr t | None \<Rightarrow> Inl TypeError)"

lemma env_required_iff: "env_required environ name = Inr v \<longleftrightarrow> environ name = Some v"
  by (auto simp: env_required_def env_value_def Let_def split: option.splits)

definition int_env :: "environ \<Rightarrow> string \<Rightarrow> int \<Rightarrow> int py" where
  "int_env environ name dflt =
     (case environ name of
        None \<Rightarrow> Inr dflt
      | Some t \<Rightarrow> (case py_int t of None \<Rightarrow> Inl ValueError | Some n \<Rightarrow> Inr n))"

definition float_env :: "environ \<Rightarrow> string \<Rightarrow> rat \<Rightarrow> rat py" where
  "float_env environ name dflt =
     (case environ name of
        None \<Rightarrow> Inr dflt
      | Some t \<Rightarrow>
          (case py_float t of
             None \<Rightarrow> Inl ValueError
           | Some (FNum q) \<Rightarrow> Inr q
           | Some _ \<Rightarrow> Inl (OtherError ''not finite'')))"

definition items_of :: "string \<Rightarrow> string list" where
  "items_of content = filter (\<lambda>s. s \<noteq> []) (map strip (split_on CHR '','' content))"

section \<open>The EKM\<close>

text \<open>The TLS arguments of uvicorn; no arguments is plain HTTP.\<close>

definition ssl_options :: "environ \<Rightarrow> (string \<times> string) list py" where
  "ssl_options environ =
     (case (environ ''EKM_TLS_CERT'', environ ''EKM_TLS_KEY'') of
        (Some (c # cs), Some (k # ks)) \<Rightarrow> Inr [(''ssl_certfile'', c # cs), (''ssl_keyfile'', k # ks)]
      | _ \<Rightarrow>
          if environ ''EKM_PLAINTEXT_HTTP'' = Some ''1'' then Inr []
          else Inl (RuntimeError ''EKM_TLS_CERT and EKM_TLS_KEY are required''))"

definition ekm_peers :: "environ \<Rightarrow> string list" where
  "ekm_peers environ = items_of (env_or environ ''EKM_PEERS'' ''QKD2'')"

text \<open>\<open>build_app\<close>: the environment of the routes, the state they start from and the interval of the pull
  loop. \<open>st\<close> is the opened store, \<open>verify_token\<close> Google's verification, \<open>ae\<close> AES-GCM.\<close>

definition ekm_build_app ::
  "environ \<Rightarrow> (string \<Rightarrow> string + claims) \<Rightarrow> aead \<Rightarrow> store \<Rightarrow> (ekm_env \<times> ekm \<times> rat) py" where
  "ekm_build_app environ verify_token ae st =
     bind_py (env_required environ ''QKD1_URL'') (\<lambda>_.
     let ps = ekm_peers environ in
     bind_py (int_env environ ''EKM_POOL_TARGET'' 50) (\<lambda>tgt.
     bind_py (float_env environ ''EKM_POOL_TTL'' 600) (\<lambda>ttl_s.
     let auds = set (items_of (env_or environ ''EKM_JWT_AUDIENCES'' [])) in
     bind_py (env_required environ ''EKMS_SA_EMAIL'') (\<lambda>email.
     bind_py (env_required environ ''VPN_TOKEN'') (\<lambda>token.
     bind_py (float_env environ ''EKM_PULL_INTERVAL'' 2) (\<lambda>interval.
     Inr (\<lparr> verify_kms = google_verify verify_token
              (GoogleJwtVerifier {email} (if auds = {} then None else Some auds)),
            verify_vpn = static_verify token, the_aead = ae,
            bind_peer = env_or environ ''EKM_BIND_PEER'' (case ps of [] \<Rightarrow> ''QKD2'' | p # _ \<Rightarrow> p) \<rparr>,
          create_app st (new_pool ps tgt ttl_s), interval)))))))"

text \<open>\<open>main\<close> reads the TLS options before it builds anything.\<close>

definition ekm_main ::
  "environ \<Rightarrow> (string \<Rightarrow> string + claims) \<Rightarrow> aead \<Rightarrow> store \<Rightarrow>
   ((string \<times> string) list \<times> ekm_env \<times> ekm \<times> rat) py" where
  "ekm_main environ verify_token ae st =
     bind_py (ssl_options environ) (\<lambda>ssl.
     bind_py (ekm_build_app environ verify_token ae st) (\<lambda>app.
     bind_py (int_env environ ''EKM_PORT'' 8443) (\<lambda>_. Inr (ssl, app))))"

section \<open>The VPN server\<close>

definition DEFAULT_AUDIENCES :: string where
  "DEFAULT_AUDIENCES = ''32555940559.apps.googleusercontent.com,qkd-ekm-vpn''"

definition split_set :: "string \<Rightarrow> string set" where
  "split_set value = set (items_of value)"

definition settings_from_env :: "environ \<Rightarrow> string \<Rightarrow> string \<Rightarrow> vpn_settings py" where
  "settings_from_env environ address tunnel =
     bind_py (env_required environ ''VPN_PUBLIC_ENDPOINT'') (\<lambda>endpoint.
     bind_py (int_env environ ''VPN_REFRESH_S'' 3600) (\<lambda>refresh1.
     bind_py (int_env environ ''VPN_ACTIVATION_DELAY_S'' 30) (\<lambda>delay1.
     Inr \<lparr> public_endpoint = endpoint, tunnel_cidr = tunnel, server_address = address,
           allowed_ips = env_or environ ''VPN_ALLOWED_IPS'' ''10.10.0.0/24,10.20.0.0/24'',
           refresh_s = refresh1, activation_delay_s = delay1, server_peer = ''QKD1'' \<rparr>)))"

definition lift_py :: "'a py \<Rightarrow> host \<Rightarrow> 'a on_host" where
  "lift_py m h = (m, h)"

text \<open>\<open>build_app\<close>: the interface, forwarding and NAT come up first; then the settings and the verifier of
  Google tokens.\<close>

definition vpn_build_app ::
  "environ \<Rightarrow> disk \<Rightarrow> runner \<Rightarrow> (string \<Rightarrow> string + claims) \<Rightarrow> host \<Rightarrow> (vpn_settings \<times> verifier) on_host" where
  "vpn_build_app environ disk runner verify_token h =
     (let address = env_or environ ''VPN_ADDRESS'' ''10.20.0.1/24'';
          tunnel = env_or environ ''VPN_TUNNEL_CIDR'' ''10.20.0.0/24'';
          iface = env_or environ ''VPN_IFACE'' ''wg0''
      in then_do (ensure_private_key disk runner (env_or environ ''VPN_PRIVATE_KEY_FILE'' ''/etc/qkd-ekm/wg_private.key'') h) (\<lambda>key_file h.
         then_do (lift_py (int_env environ ''VPN_LISTEN_PORT'' 51819) h) (\<lambda>port h.
         then_do (ensure_interface runner iface key_file port address h) (\<lambda>_ h.
         then_do (ensure_ip_forward runner h) (\<lambda>_ h.
         then_do (ensure_masquerade runner tunnel h) (\<lambda>_ h.
         then_do (lift_py (settings_from_env environ address tunnel) h) (\<lambda>settings h.
         then_do (lift_py (bind_py (env_required environ ''EKM_URL'') (\<lambda>_. env_required environ ''VPN_TOKEN'')) h) (\<lambda>_ h.
         then_do (lift_py (env_required environ ''VPN_ALLOWED_EMAILS'') h) (\<lambda>emails h.
           let auds = split_set (env_or environ ''VPN_ALLOWED_AUDIENCES'' DEFAULT_AUDIENCES)
           in (Inr (settings, google_verify verify_token
                 (GoogleJwtVerifier (split_set emails) (if auds = {} then None else Some auds))), h))))))))))"

section \<open>The upload server\<close>

text \<open>The settings and, when \<open>UPLOAD_SINK_DIR\<close> is set, the path and bucket of the directory sink (None is
  Cloud Storage).\<close>

definition upload_build_app :: "environ \<Rightarrow> (upload_settings \<times> (string \<times> string) option) py" where
  "upload_build_app environ =
     bind_py (env_required environ ''GCS_BUCKET'') (\<lambda>b.
     bind_py (env_required environ ''KMS_KEY_NAME'') (\<lambda>kms.
     bind_py (int_env environ ''UPLOAD_KEY_TTL_S'' 600) (\<lambda>ttl_s.
     bind_py (env_required environ ''EKM_URL'') (\<lambda>_.
     bind_py (env_required environ ''VPN_TOKEN'') (\<lambda>_.
     Inr (\<lparr> bucket = b, kms_key_name = kms, file_key_ttl_s = of_int ttl_s,
            peer_default = env_or environ ''UPLOAD_PEER'' ''QKD2'' \<rparr>,
          case environ ''UPLOAD_SINK_DIR'' of
            Some (c # cs) \<Rightarrow> Some (c # cs, b)
          | _ \<Rightarrow> None))))))"

section \<open>Properties\<close>

lemma ssl_options_plain:
  "ssl_options environ = Inr [] \<longleftrightarrow>
     \<not> ((\<exists>c. environ ''EKM_TLS_CERT'' = Some c \<and> c \<noteq> []) \<and> (\<exists>k. environ ''EKM_TLS_KEY'' = Some k \<and> k \<noteq> [])) \<and>
     environ ''EKM_PLAINTEXT_HTTP'' = Some ''1''"
  by (auto simp: ssl_options_def split: option.splits list.splits)

lemma ekm_build_app_Inr:
  assumes "ekm_build_app environ verify_token ae st = Inr (cfg, s, interval)"
  obtains email token tgt ttl_s where
    "environ ''EKMS_SA_EMAIL'' = Some email" "environ ''VPN_TOKEN'' = Some token"
    "verify_kms cfg = google_verify verify_token (GoogleJwtVerifier {email}
       (let auds = set (items_of (env_or environ ''EKM_JWT_AUDIENCES'' [])) in if auds = {} then None else Some auds))"
    "verify_vpn cfg = static_verify token"
    "bind_peer cfg = env_or environ ''EKM_BIND_PEER'' (case ekm_peers environ of [] \<Rightarrow> ''QKD2'' | p # _ \<Rightarrow> p)"
    "s = create_app st (new_pool (ekm_peers environ) tgt ttl_s)"
  using assms by (auto simp: ekm_build_app_def bind_py_eq_Inr Let_def env_required_iff)

text \<open>An EKM that starts serves plain HTTP only when it was told to with \<open>EKM_PLAINTEXT_HTTP=1\<close> and has no
  certificate and key; it has both secrets from the environment; it starts with an empty buffer for each
  configured peer; and unless \<open>EKM_BIND_PEER\<close> names another, the peer that the first wrap of an external
  key draws from is one of the pool.\<close>

theorem ekm_starts_configured:
  assumes "ekm_main environ verify_token ae st = Inr (ssl, cfg, s, interval)"
  shows "(ssl = [] \<longrightarrow> environ ''EKM_PLAINTEXT_HTTP'' = Some ''1'' \<and>
      \<not> ((\<exists>c. environ ''EKM_TLS_CERT'' = Some c \<and> c \<noteq> []) \<and> (\<exists>k. environ ''EKM_TLS_KEY'' = Some k \<and> k \<noteq> []))) \<and>
    (\<exists>token. environ ''VPN_TOKEN'' = Some token \<and> verify_vpn cfg = static_verify token) \<and>
    (\<forall>p. map_of (deques (e_pool s)) p = (if p \<in> set (ekm_peers environ) then Some [] else None)) \<and>
    (environ ''EKM_BIND_PEER'' = None \<and> ekm_peers environ \<noteq> [] \<longrightarrow> bind_peer cfg \<in> set (ekm_peers environ))"
proof -
  from assms have ssl: "ssl_options environ = Inr ssl"
    and app: "ekm_build_app environ verify_token ae st = Inr (cfg, s, interval)"
    by (auto simp: ekm_main_def bind_py_eq_Inr)
  have peers: "map_of (deques (e_pool (create_app st (new_pool ps tgt t)))) p =
      (if p \<in> set ps then Some [] else None)" for ps tgt t p
  proof -
    have "map_of (map (\<lambda>q. (q, [])) qs) p = (if p \<in> set qs then Some [] else None)" for qs
      by (induction qs) auto
    from this [of "rev (remdups (rev ps))"] show ?thesis by (simp add: create_app_def new_pool_def)
  qed
  from app show ?thesis
  proof (rule ekm_build_app_Inr)
    fix email token tgt ttl_s
    assume "environ ''VPN_TOKEN'' = Some token" "verify_vpn cfg = static_verify token"
      "bind_peer cfg = env_or environ ''EKM_BIND_PEER'' (case ekm_peers environ of [] \<Rightarrow> ''QKD2'' | p # _ \<Rightarrow> p)"
      "s = create_app st (new_pool (ekm_peers environ) tgt ttl_s)"
    then show ?thesis using ssl ssl_options_plain [of environ] peers
      by (auto simp: env_or_def split: option.splits list.splits)
  qed
qed

definition demo_environ :: environ where
  "demo_environ = map_of [(''EKM_PLAINTEXT_HTTP'', ''1''), (''QKD1_URL'', ''http://kme''),
     (''EKMS_SA_EMAIL'', ''kms@x''), (''VPN_TOKEN'', []), (''EKM_PEERS'', ''QKD2, QKD3'')]"

lemma demo_ekm_main:
  "\<exists>cfg s i. ekm_main demo_environ verify_token ae st = Inr ([], cfg, s, i) \<and> verify_vpn cfg = static_verify []"
  by (simp add: demo_environ_def ekm_main_def ssl_options_def ekm_build_app_def env_required_def env_value_def
      int_env_def float_env_def Let_def)

theorem ekm_starts_configured_witness:
  "\<exists>cfg s i. ekm_main demo_environ (\<lambda>_. Inl ''ValueError'') clear_aead (open_store []) = Inr ([], cfg, s, i) \<and>
     demo_environ ''EKM_PLAINTEXT_HTTP'' = Some ''1'' \<and> map_of (deques (e_pool s)) ''QKD2'' = Some []"
proof -
  obtain cfg s i where m: "ekm_main demo_environ (\<lambda>_. Inl ''ValueError'') clear_aead (open_store []) = Inr ([], cfg, s, i)"
    using demo_ekm_main by blast
  have "''QKD2'' \<in> set (ekm_peers demo_environ)" by code_simp
  with ekm_starts_configured [OF m] m show ?thesis by auto
qed

text \<open>An empty \<open>VPN_TOKEN\<close> passes for a required value: the EKM starts, and a request whose bearer token is
  white space only (a no-break space survives the HTTP layer) is authorized.\<close>

theorem empty_token_accepts_blank:
  assumes "ekm_build_app environ verify_token ae st = Inr (cfg, s, interval)" and "environ ''VPN_TOKEN'' = Some []"
  shows "bearer_dep (verify_vpn cfg) (''Bearer '' @ [CHR 0xA0]) = Inr [(''sub'', JStr ''static'')]"
proof -
  have "bearer_dep (static_verify []) (''Bearer '' @ [CHR 0xA0]) = Inr [(''sub'', JStr ''static'')]" by code_simp
  with assms show ?thesis by (elim ekm_build_app_Inr) simp
qed

theorem empty_token_accepts_blank_witness:
  "\<exists>cfg s i. ekm_build_app demo_environ (\<lambda>_. Inl ''ValueError'') clear_aead (open_store []) = Inr (cfg, s, i) \<and>
     bearer_dep (verify_vpn cfg) (''Bearer '' @ [CHR 0xA0]) = Inr [(''sub'', JStr ''static'')]"
proof -
  obtain cfg s i where m: "ekm_build_app demo_environ (\<lambda>_. Inl ''ValueError'') clear_aead (open_store []) = Inr (cfg, s, i)"
    using demo_ekm_main [of "\<lambda>_. Inl ''ValueError''" clear_aead "open_store []"]
    by (auto simp: ekm_main_def bind_py_eq_Inr)
  have "demo_environ ''VPN_TOKEN'' = Some []" by (simp add: demo_environ_def)
  from empty_token_accepts_blank [OF m this] m show ?thesis by blast
qed

end
