(* ===== verification/Rotate.thy ===== *)
theory Rotate
  imports EntryPoints
begin

text \<open>
  \<open>src/qkd_ekm/ekm/rotate.py\<close>: rotation of a Cloud KMS external key onto the next EKM key path. The KMS
  client is a parameter: four calls over a world of its own, and \<open>kms_pause\<close> for \<open>time.sleep\<close>. The calls are
  stated as a log that is kept by \<open>logged\<close>, a wrapper around any client.
\<close>

record kms_version =
  v_name :: string
  v_state :: string

record 'w kms =
  kms_list :: "string \<Rightarrow> 'w \<Rightarrow> kms_version list py \<times> 'w"
  kms_create :: "string \<Rightarrow> string \<Rightarrow> 'w \<Rightarrow> kms_version py \<times> 'w"
  kms_get :: "string \<Rightarrow> 'w \<Rightarrow> kms_version py \<times> 'w"
  kms_promote :: "string \<Rightarrow> string \<Rightarrow> 'w \<Rightarrow> unit py \<times> 'w"
  kms_pause :: "'w \<Rightarrow> 'w"

definition POLL_ATTEMPTS :: nat where
  "POLL_ATTEMPTS = 60"

text \<open>\<open>int(name.rsplit("/", 1)[-1])\<close>\<close>

definition version_number :: "string \<Rightarrow> int py" where
  "version_number name =
     (case py_int (snd (snd (rpartition_at CHR ''/'' name))) of None \<Rightarrow> Inl ValueError | Some n \<Rightarrow> Inr n)"

text \<open>\<open>max(numbers, default=0) + 1\<close>\<close>

definition next_version :: "kms_version list \<Rightarrow> int py" where
  "next_version vs =
     bind_py (map_py (\<lambda>v. version_number (v_name v)) vs) (\<lambda>ns.
       Inr (case ns of [] \<Rightarrow> 1 | n # rest \<Rightarrow> fold max rest n + 1))"

fun poll :: "'w kms \<Rightarrow> nat \<Rightarrow> kms_version \<Rightarrow> 'w \<Rightarrow> kms_version py \<times> 'w" where
  "poll c 0 v w = (Inl (RuntimeError (v_name v @ '' did not become ENABLED'')), w)"
| "poll c (Suc n) v w =
     (if v_state v = ''ENABLED'' then (Inr v, w)
      else case kms_get c (v_name v) (kms_pause c w) of
          (Inl e, w1) \<Rightarrow> (Inl e, w1)
        | (Inr v1, w1) \<Rightarrow> poll c n v1 w1)"

definition key_version_path :: "environ \<Rightarrow> int \<Rightarrow> string" where
  "key_version_path environ n = env_or environ ''EKM_KEY_PATH_PREFIX'' ''api/keys/'' @ CHR ''v'' # str_int n"

text \<open>From the number of the next version on: create it, wait for it, promote what KMS assigned.\<close>

definition rotate_to :: "environ \<Rightarrow> 'w kms \<Rightarrow> string \<Rightarrow> int \<Rightarrow> 'w \<Rightarrow> string py \<times> 'w" where
  "rotate_to environ c kms_key n w =
     (case kms_create c kms_key (key_version_path environ n) w of
        (Inl e, w1) \<Rightarrow> (Inl e, w1)
      | (Inr v0, w1) \<Rightarrow>
          (case poll c POLL_ATTEMPTS v0 w1 of
             (Inl e, w2) \<Rightarrow> (Inl e, w2)
           | (Inr v, w2) \<Rightarrow>
               (case version_number (v_name v) of
                  Inl e \<Rightarrow> (Inl e, w2)
                | Inr created \<Rightarrow>
                    (case kms_promote c kms_key (str_int created) w2 of
                       (Inl e, w3) \<Rightarrow> (Inl e, w3)
                     | (Inr _, w3) \<Rightarrow> (Inr (CHR ''v'' # str_int n), w3)))))"

definition rotate_key :: "environ \<Rightarrow> 'w kms \<Rightarrow> 'w \<Rightarrow> string py \<times> 'w" where
  "rotate_key environ c w =
     (case env_required environ ''KMS_KEY'' of
        Inl e \<Rightarrow> (Inl e, w)
      | Inr kms_key \<Rightarrow>
          (case kms_list c kms_key w of
             (Inl e, w1) \<Rightarrow> (Inl e, w1)
           | (Inr vs, w1) \<Rightarrow>
               (case next_version vs of
                  Inl e \<Rightarrow> (Inl e, w1)
                | Inr n \<Rightarrow> rotate_to environ c kms_key n w1)))"

text \<open>\<open>main\<close>: exit status 0, or the exception.\<close>

definition rotate_main :: "environ \<Rightarrow> 'w kms \<Rightarrow> 'w \<Rightarrow> int py \<times> 'w" where
  "rotate_main environ c w = map_prod (map_sum id (\<lambda>_. 0)) id (rotate_key environ c w)"

section \<open>The calls that are made\<close>

datatype kms_call =
    ListVersions string
  | Create string string
  | GetVersion string
  | Promote string string

text \<open>Every call is logged with the version that it answered, if it did.\<close>

type_synonym kms_log = "(kms_call \<times> kms_version option) list"

definition answer_of :: "kms_version py \<Rightarrow> kms_version option" where
  "answer_of a = (case a of Inl e \<Rightarrow> None | Inr v \<Rightarrow> Some v)"

definition logged :: "'w kms \<Rightarrow> ('w \<times> kms_log) kms" where
  "logged c =
     \<lparr> kms_list = (\<lambda>p (w, l). apsnd (\<lambda>w. (w, l @ [(ListVersions p, None)])) (kms_list c p w)),
       kms_create = (\<lambda>p q (w, l). case kms_create c p q w of (a, w1) \<Rightarrow> (a, (w1, l @ [(Create p q, answer_of a)]))),
       kms_get = (\<lambda>p (w, l). case kms_get c p w of (a, w1) \<Rightarrow> (a, (w1, l @ [(GetVersion p, answer_of a)]))),
       kms_promote = (\<lambda>p q (w, l). apsnd (\<lambda>w. (w, l @ [(Promote p q, None)])) (kms_promote c p q w)),
       kms_pause = (\<lambda>(w, l). (kms_pause c w, l)) \<rparr>"

lemma logged_calls [simp]:
  "kms_list (logged c) p (w, l) = apsnd (\<lambda>w. (w, l @ [(ListVersions p, None)])) (kms_list c p w)"
  "kms_create (logged c) p q (w, l) = (case kms_create c p q w of (a, w1) \<Rightarrow> (a, (w1, l @ [(Create p q, answer_of a)])))"
  "kms_get (logged c) p (w, l) = (case kms_get c p w of (a, w1) \<Rightarrow> (a, (w1, l @ [(GetVersion p, answer_of a)])))"
  "kms_promote (logged c) p q (w, l) = apsnd (\<lambda>w. (w, l @ [(Promote p q, None)])) (kms_promote c p q w)"
  "kms_pause (logged c) (w, l) = (kms_pause c w, l)"
  by (simp_all add: logged_def)

text \<open>A look at a version and what KMS answered. Each look asks for the version last answered, by the name in that
  answer, and only while that answer was not ENABLED.\<close>

type_synonym look = "string \<times> kms_version option"

definition look_calls :: "look list \<Rightarrow> kms_log" where
  "look_calls looks = map (apfst GetVersion) looks"

fun follows :: "kms_version option \<Rightarrow> look list \<Rightarrow> bool" where
  "follows a [] = True"
| "follows a ((name, b) # looks) =
     ((case a of None \<Rightarrow> False | Some v \<Rightarrow> name = v_name v \<and> v_state v \<noteq> ''ENABLED'') \<and> follows b looks)"

definition last_answer :: "kms_version option \<Rightarrow> look list \<Rightarrow> kms_version option" where
  "last_answer a looks = last (a # map snd looks)"

lemma look_simps [simp]:
  "look_calls [] = []" "look_calls ((name, b) # looks) = (GetVersion name, b) # look_calls looks"
  "last_answer a [] = a" "last_answer a ((name, b) # looks) = last_answer b looks"
  by (simp_all add: look_calls_def last_answer_def)

text \<open>Waiting asks for the version at most as often as it may, and hands on the last answer of KMS, if that
  is ENABLED.\<close>

lemma poll_log:
  assumes "poll (logged c) n v (w, l) = (r, (w', l'))"
  shows "\<exists>looks. l' = l @ look_calls looks \<and> length looks \<le> n \<and> follows (Some v) looks \<and>
    (\<forall>v'. r = Inr v' \<longrightarrow> last_answer (Some v) looks = Some v' \<and> v_state v' = ''ENABLED'')"
  using assms
proof (induction n arbitrary: v w l)
  case 0
  then show ?case by (intro exI [of _ "[]"]) auto
next
  case (Suc n)
  show ?case
  proof (cases "v_state v = ''ENABLED''")
    case True
    with Suc.prems show ?thesis by (intro exI [of _ "[]"]) auto
  next
    case False
    obtain g w1 where g: "kms_get c (v_name v) (kms_pause c w) = (g, w1)" by fastforce
    show ?thesis
    proof (cases g)
      case (Inl e)
      with g False Suc.prems show ?thesis
        by (intro exI [of _ "[(v_name v, None)]"]) (auto simp: answer_of_def)
    next
      case (Inr v1)
      with g False Suc.prems have "poll (logged c) n v1 (w1, l @ [(GetVersion (v_name v), Some v1)]) = (r, (w', l'))"
        by (simp add: answer_of_def)
      from Suc.IH [OF this] obtain looks where "l' = l @ [(GetVersion (v_name v), Some v1)] @ look_calls looks"
        "length looks \<le> n" "follows (Some v1) looks"
        "\<forall>v'. r = Inr v' \<longrightarrow> last_answer (Some v1) looks = Some v' \<and> v_state v' = ''ENABLED''" by auto
      then show ?thesis using False by (intro exI [of _ "(v_name v, Some v1) # looks"]) simp
    qed
  qed
qed

text \<open>When a version is created, it is for the path of the greatest number listed plus one; at most sixty looks
  follow, each at the version last answered; and at most one promotion, as the last call, of the number in
  the name of the version that KMS answered last, which is ENABLED. Whatever call raises, the run ends there.\<close>

definition rotation_log :: "environ \<Rightarrow> string \<Rightarrow> int \<Rightarrow> string py \<Rightarrow> kms_log \<Rightarrow> bool" where
  "rotation_log environ kms_key n r calls \<longleftrightarrow>
     (\<exists>made looks. length looks \<le> POLL_ATTEMPTS \<and> follows made looks \<and>
       (let waited = (Create kms_key (key_version_path environ n), made) # look_calls looks
        in calls = waited \<and> (\<exists>e. r = Inl e) \<or>
          (\<exists>v created. last_answer made looks = Some v \<and> v_state v = ''ENABLED'' \<and>
             version_number (v_name v) = Inr created \<and>
             calls = waited @ [(Promote kms_key (str_int created), None)] \<and>
             (r = Inr (CHR ''v'' # str_int n) \<or> (\<exists>e. r = Inl e)))))"

lemma rotate_to_log:
  assumes "rotate_to environ (logged c) kms_key n (w, l) = (r, (w', l'))"
  shows "\<exists>calls. l' = l @ calls \<and> rotation_log environ kms_key n r calls"
proof -
  obtain cr w1 where cr: "kms_create c kms_key (key_version_path environ n) w = (cr, w1)" by fastforce
  let ?C = "(Create kms_key (key_version_path environ n), answer_of cr)"
  show ?thesis
  proof (cases cr)
    case (Inl e)
    with cr assms have "l' = l @ [?C]" "r = Inl e" by (auto simp: rotate_to_def)
    moreover have "rotation_log environ kms_key n (Inl e) [?C]"
      unfolding rotation_log_def Let_def by (intro exI [of _ "answer_of cr"] exI [of _ "[]"]) simp
    ultimately show ?thesis by blast
  next
    case (Inr v0)
    obtain p w2 l2 where p: "poll (logged c) POLL_ATTEMPTS v0 (w1, l @ [?C]) = (p, (w2, l2))"
      by (metis prod_cases3)
    have made: "answer_of cr = Some v0" using Inr by (simp add: answer_of_def)
    from poll_log [OF p] obtain looks where l2: "l2 = l @ ?C # look_calls looks"
      "length looks \<le> POLL_ATTEMPTS" "follows (answer_of cr) looks"
      and en: "\<forall>v'. p = Inr v' \<longrightarrow> last_answer (answer_of cr) looks = Some v' \<and> v_state v' = ''ENABLED''"
      unfolding made by auto
    show ?thesis
    proof (cases "\<exists>v created. p = Inr v \<and> version_number (v_name v) = Inr created")
      case True
      then obtain v created where v: "p = Inr v" "version_number (v_name v) = Inr created" by blast
      obtain m w3 where m: "kms_promote c kms_key (str_int created) w2 = (m, w3)" by fastforce
      from v m cr Inr p assms have r: "l' = l2 @ [(Promote kms_key (str_int created), None)]"
        "r = Inr (CHR ''v'' # str_int n) \<or> (\<exists>e. r = Inl e)"
        by (cases m; auto simp: rotate_to_def)+
      have "rotation_log environ kms_key n r (?C # look_calls looks @ [(Promote kms_key (str_int created), None)])"
        unfolding rotation_log_def Let_def using v en l2(2,3) r(2)
        by (intro exI [of _ "answer_of cr"] exI [of _ looks]) simp
      with r(1) l2(1) show ?thesis by auto
    next
      case False
      with cr Inr p assms have "l' = l2" "\<exists>e. r = Inl e"
        by (cases p; auto simp: rotate_to_def split: sum.splits)+
      moreover from this(2) have "rotation_log environ kms_key n r (?C # look_calls looks)"
        unfolding rotation_log_def Let_def using l2(2,3)
        by (intro exI [of _ "answer_of cr"] exI [of _ looks]) simp
      ultimately show ?thesis using l2(1) by auto
    qed
  qed
qed

lemma rotation_calls:
  assumes "rotate_key environ (logged c) (w, []) = (r, (w', calls))" and "environ ''KMS_KEY'' = Some kms_key"
  shows "\<exists>rest. calls = (ListVersions kms_key, None) # rest \<and>
    (rest = [] \<and> (\<exists>e. r = Inl e) \<or>
     (\<exists>vs w1 n. kms_list c kms_key w = (Inr vs, w1) \<and> next_version vs = Inr n \<and>
        rotation_log environ kms_key n r rest))"
proof -
  have key: "env_required environ ''KMS_KEY'' = Inr kms_key" using assms(2) by (simp add: env_required_iff)
  obtain ls w1 where ls: "kms_list c kms_key w = (ls, w1)" by fastforce
  show ?thesis
  proof (cases "\<exists>vs n. ls = Inr vs \<and> next_version vs = Inr n")
    case True
    then obtain vs n where n: "ls = Inr vs" "next_version vs = Inr n" by blast
    with ls key assms(1) have "rotate_to environ (logged c) kms_key n (w1, [(ListVersions kms_key, None)]) = (r, (w', calls))"
      by (simp add: rotate_key_def)
    from rotate_to_log [OF this] n ls show ?thesis by auto
  next
    case False
    with ls key assms(1) have "calls = [(ListVersions kms_key, None)]" "\<exists>e. r = Inl e"
      by (cases ls; auto simp: rotate_key_def split: sum.splits)+
    then show ?thesis by simp
  qed
qed

text \<open>Property C10. Rotation as a protocol, for any KMS: the versions are listed first; then at most one version is created,
  on the key path of the greatest number listed plus one; a version is looked at not more than sixty times,
  each time the one KMS answered last, and never once an answer was ENABLED; a promotion is the last call and
  names the version of the last answer, which was ENABLED; and success means that it was made.\<close>

theorem rotation_protocol:
  assumes "rotate_key environ (logged c) (w, []) = (r, (w', calls))" and "environ ''KMS_KEY'' = Some kms_key"
  shows "\<exists>rest. calls = (ListVersions kms_key, None) # rest \<and>
    (rest = [] \<and> (\<exists>e. r = Inl e) \<or>
     (\<exists>vs w1 n. kms_list c kms_key w = (Inr vs, w1) \<and> next_version vs = Inr n \<and>
        rotation_log environ kms_key n r rest))"
  using assms by (rule rotation_calls)

text \<open>A KMS that assigns the number it is given, whose versions are enabled at the first look.\<close>

definition demo_kms :: "nat kms" where
  "demo_kms =
     \<lparr> kms_list = (\<lambda>p w. (Inr [\<lparr> v_name = p @ ''/1'', v_state = ''ENABLED'' \<rparr>], w)),
       kms_create = (\<lambda>p q w. (Inr \<lparr> v_name = p @ ''/2'', v_state = ''PENDING'' \<rparr>, w)),
       kms_get = (\<lambda>n w. (Inr \<lparr> v_name = n, v_state = ''ENABLED'' \<rparr>, w)),
       kms_promote = (\<lambda>p q w. (Inr (), w)), kms_pause = Suc \<rparr>"

definition kms_environ :: environ where
  "kms_environ = map_of [(''KMS_KEY'', ''k'')]"

theorem rotation_protocol_witness:
  "\<exists>calls rest. rotate_key kms_environ (logged demo_kms) (0, []) = (Inr ''v2'', (1, calls)) \<and>
     calls = (ListVersions ''k'', None) # rest \<and> rotation_log kms_environ ''k'' 2 (Inr ''v2'') rest"
proof -
  have r: "rotate_key kms_environ (logged demo_kms) (0, []) = (Inr ''v2'', (1,
      [(ListVersions ''k'', None), (Create ''k'' ''api/keys/v2'', Some \<lparr> v_name = ''k/2'', v_state = ''PENDING'' \<rparr>),
       (GetVersion ''k/2'', Some \<lparr> v_name = ''k/2'', v_state = ''ENABLED'' \<rparr>), (Promote ''k'' ''2'', None)]))"
    by code_simp
  have e: "kms_environ ''KMS_KEY'' = Some ''k''" by (simp add: kms_environ_def)
  have n: "next_version [\<lparr> v_name = ''k/1'', v_state = ''ENABLED'' \<rparr>] = Inr 2" by code_simp
  from rotation_protocol [OF r e] r n show ?thesis by (auto simp: demo_kms_def)
qed

section \<open>What the loop and the guess leave open\<close>

text \<open>The answer of the sixtieth look is not looked at: a version that is ENABLED by then is reported as not
  ENABLED and never promoted.\<close>

theorem last_look_ignored:
  "poll c 1 \<lparr> v_name = n, v_state = ''PENDING_GENERATION'' \<rparr> w =
     (case kms_get c n (kms_pause c w) of
        (Inl e, w1) \<Rightarrow> (Inl e, w1)
      | (Inr v, w1) \<Rightarrow> (Inl (RuntimeError (v_name v @ '' did not become ENABLED'')), w1))"
  by (simp split: prod.split sum.split)

text \<open>The key path follows the number that was guessed, not the one that is assigned: two rotations that
  saw the same list create two versions on one key path, so the EKM gives both one key.\<close>

theorem concurrent_rotations_share_path:
  assumes "rotate_key environ (logged c1) (w1, []) = (Inr label1, (u1, calls1))"
    and "rotate_key environ (logged c2) (w2, []) = (Inr label2, (u2, calls2))"
    and "environ ''KMS_KEY'' = Some kms_key"
    and "fst (kms_list c1 kms_key w1) = fst (kms_list c2 kms_key w2)"
  shows "\<exists>path. Create kms_key path \<in> fst ` set calls1 \<and> Create kms_key path \<in> fst ` set calls2"
proof -
  from rotation_calls [OF assms(1,3)] obtain vs v1 n rest1 where 1: "calls1 = (ListVersions kms_key, None) # rest1"
    "kms_list c1 kms_key w1 = (Inr vs, v1)" "next_version vs = Inr n"
    "rotation_log environ kms_key n (Inr label1) rest1" by auto
  from rotation_calls [OF assms(2,3)] 1 assms(4) obtain rest2 where 2: "calls2 = (ListVersions kms_key, None) # rest2"
    "rotation_log environ kms_key n (Inr label2) rest2" by auto
  show ?thesis using 1 2
    by (intro exI [of _ "key_version_path environ n"]) (auto simp: rotation_log_def Let_def)
qed

end
