(* ===== verification/Calibrate.thy ===== *)
theory Calibrate
  imports ModelEnumerate ModelReport PyValues
begin

text \<open>
  \<open>src/scripts/model_calibrate.py\<close>: the sweep of the readings of the rules against the published counts.
  A knob is a name with its getter and its update; \<open>combos\<close> is the plan of a stage, \<open>measure\<close> one
  enumeration, and the choices of \<open>main\<close> are functions of the measured rows. Timing, the process pool and
  printing are not modelled.
\<close>

section \<open>Knobs\<close>

definition KNOBS :: "(string \<times> (rules \<Rightarrow> bool) \<times> (bool \<Rightarrow> rules \<Rightarrow> rules)) list" where
  "KNOBS =
    [(''reject_stale_needs_active'', reject_stale_needs_active, \<lambda>b. reject_stale_needs_active_update (\<lambda>_. b)),
     (''ingest_needs_ekm'', ingest_needs_ekm, \<lambda>b. ingest_needs_ekm_update (\<lambda>_. b)),
     (''expire_needs_source_down'', expire_needs_source_down, \<lambda>b. expire_needs_source_down_update (\<lambda>_. b)),
     (''alloc_ekm_needs_source'', alloc_ekm_needs_source, \<lambda>b. alloc_ekm_needs_source_update (\<lambda>_. b)),
     (''restore_sets_recovery'', restore_sets_recovery, \<lambda>b. restore_sets_recovery_update (\<lambda>_. b)),
     (''restore_recovery_needs_full'', restore_recovery_needs_full, \<lambda>b. restore_recovery_needs_full_update (\<lambda>_. b)),
     (''authority_only_when_degraded'', authority_only_when_degraded, \<lambda>b. authority_only_when_degraded_update (\<lambda>_. b)),
     (''alloc_vpn_needs_no_active'', alloc_vpn_needs_no_active, \<lambda>b. alloc_vpn_needs_no_active_update (\<lambda>_. b)),
     (''vpn_pending_replaceable'', vpn_pending_replaceable, \<lambda>b. vpn_pending_replaceable_update (\<lambda>_. b)),
     (''recover_clears_pending'', recover_clears_pending, \<lambda>b. recover_clears_pending_update (\<lambda>_. b)),
     (''recover_needs_authority'', recover_needs_authority, \<lambda>b. recover_needs_authority_update (\<lambda>_. b)),
     (''dep_toggles_unconditional'', dep_toggles_unconditional, \<lambda>b. dep_toggles_unconditional_update (\<lambda>_. b)),
     (''activate_merged'', activate_merged, \<lambda>b. activate_merged_update (\<lambda>_. b)),
     (''ekm_down_clears_active'', ekm_down_clears_active, \<lambda>b. ekm_down_clears_active_update (\<lambda>_. b)),
     (''expire_marks_used'', expire_marks_used, \<lambda>b. expire_marks_used_update (\<lambda>_. b)),
     (''suspend_state'', suspend_state, \<lambda>b. suspend_state_update (\<lambda>_. b)),
     (''restoration_detected'', restoration_detected, \<lambda>b. restoration_detected_update (\<lambda>_. b)),
     (''abandon_pending'', abandon_pending, \<lambda>b. abandon_pending_update (\<lambda>_. b)),
     (''abandon_consumes_epoch'', abandon_consumes_epoch, \<lambda>b. abandon_consumes_epoch_update (\<lambda>_. b)),
     (''down_clears_pending'', down_clears_pending, \<lambda>b. down_clears_pending_update (\<lambda>_. b)),
     (''session_end'', session_end, \<lambda>b. session_end_update (\<lambda>_. b)),
     (''recover_clears_active'', recover_clears_active, \<lambda>b. recover_clears_active_update (\<lambda>_. b)),
     (''fifo_pool'', fifo_pool, \<lambda>b. fifo_pool_update (\<lambda>_. b)),
     (''alloc_vpn_any_future_epoch'', alloc_vpn_any_future_epoch, \<lambda>b. alloc_vpn_any_future_epoch_update (\<lambda>_. b)),
     (''reject_stale_per_epoch'', reject_stale_per_epoch, \<lambda>b. reject_stale_per_epoch_update (\<lambda>_. b))]"

text \<open>\<open>Rules.__slots__\<close>\<close>

definition knob_names :: "string list" where
  "knob_names = map fst KNOBS"

definition knob :: "rules \<Rightarrow> string \<Rightarrow> bool" where
  "knob r f = (case map_of KNOBS f of None \<Rightarrow> False | Some (get, put) \<Rightarrow> get r)"

definition set_knob :: "string \<times> bool \<Rightarrow> rules \<Rightarrow> rules" where
  "set_knob fb r = (case map_of KNOBS (fst fb) of None \<Rightarrow> r | Some (get, put) \<Rightarrow> put (snd fb) r)"

text \<open>\<open>replace(r, **dict(...))\<close>\<close>

definition replace_knobs :: "rules \<Rightarrow> (string \<times> bool) list \<Rightarrow> rules" where
  "replace_knobs r fbs = fold set_knob fbs r"

definition STRUCTURAL :: "string list" where
  "STRUCTURAL =
    [''alloc_vpn_needs_no_active'', ''vpn_pending_replaceable'', ''recover_clears_pending'',
     ''activate_merged'', ''ekm_down_clears_active'', ''restore_recovery_needs_full'']"

definition EDGES :: "string list" where
  "EDGES =
    [''reject_stale_needs_active'', ''dep_toggles_unconditional'', ''ingest_needs_ekm'',
     ''expire_needs_source_down'', ''alloc_ekm_needs_source'',
     ''authority_only_when_degraded'', ''recover_needs_authority'']"

definition ROUND2 :: "string list" where
  "ROUND2 =
    [''expire_marks_used'', ''suspend_state'', ''restoration_detected'',
     ''abandon_pending'', ''abandon_consumes_epoch'', ''down_clears_pending'',
     ''session_end'', ''recover_clears_active'', ''fifo_pool'',
     ''alloc_vpn_any_future_epoch'', ''reject_stale_per_epoch'']"

definition ROUND2_PRODUCTS :: "string list list" where
  "ROUND2_PRODUCTS =
    [[''expire_marks_used'', ''ekm_down_clears_active'', ''abandon_pending'',
      ''down_clears_pending'', ''suspend_state'', ''restoration_detected'',
      ''vpn_pending_replaceable''],
     [''expire_marks_used'', ''ekm_down_clears_active'', ''session_end'',
      ''recover_clears_active'', ''recover_clears_pending'', ''alloc_vpn_needs_no_active''],
     [''expire_marks_used'', ''ekm_down_clears_active'', ''abandon_pending'',
      ''abandon_consumes_epoch'', ''fifo_pool''],
     [''alloc_vpn_any_future_epoch'', ''reject_stale_per_epoch'', ''expire_marks_used'',
      ''ekm_down_clears_active'', ''abandon_pending'', ''down_clears_pending'']]"

definition ROUND2_SEEDS :: "string list list" where
  "ROUND2_SEEDS = [[], [''expire_marks_used''], [''expire_marks_used'', ''ekm_down_clears_active'']]"

definition MAX_STATES :: nat where
  "MAX_STATES = 150000"

section \<open>The plan\<close>

definition describe :: "rules \<Rightarrow> string" where
  "describe r =
     (let on = filter (\<lambda>f. knob r f \<noteq> knob base_rules f) knob_names
      in if on = [] then ''base'' else joined ''+'' on)"

text \<open>\<open>itertools.product((False, True), repeat=n)\<close>\<close>

fun bit_rows :: "nat \<Rightarrow> bool list list" where
  "bit_rows 0 = [[]]"
| "bit_rows (Suc n) = map (Cons False) (bit_rows n) @ map (Cons True) (bit_rows n)"

definition product_of :: "string list \<Rightarrow> rules list" where
  "product_of family = map (\<lambda>bits. replace_knobs base_rules (zip family bits)) (bit_rows (length family))"

datatype stage = Singles | Structural | Edges | Round2 | AllStages

definition planned :: "stage \<Rightarrow> rules list" where
  "planned st =
     base_rules #
     (if st \<in> {Singles, AllStages}
      then map (\<lambda>f. replace_knobs base_rules [(f, \<not> knob base_rules f)]) knob_names else []) @
     (if st \<in> {Structural, AllStages} then product_of STRUCTURAL else []) @
     (if st \<in> {Edges, AllStages} then product_of EDGES else []) @
     (if st \<in> {Round2, AllStages} then
        concat (map (\<lambda>seed. let start = replace_knobs base_rules (map (\<lambda>f. (f, True)) seed)
                            in start # map (\<lambda>f. replace_knobs start [(f, True)]) ROUND2) ROUND2_SEEDS) @
        concat (map product_of ROUND2_PRODUCTS)
      else [])"

text \<open>\<open>seen.setdefault(describe(r), r)\<close>: the first reading of each label, in order.\<close>

definition first_of_label :: "rules list \<Rightarrow> (string \<times> rules) list" where
  "first_of_label rs =
     foldl (\<lambda>seen r. if describe r \<in> fst ` set seen then seen else seen @ [(describe r, r)]) [] rs"

definition combos :: "stage \<Rightarrow> rules list" where
  "combos st = map snd (first_of_label (planned st))"

section \<open>Measuring and choosing\<close>

record row =
  rw_rules :: string
  rw_states :: nat
  rw_transitions :: nat
  rw_depth :: nat
  rw_violations :: nat
  rw_aborted :: bool

definition measure_reading :: "rules \<Rightarrow> row py option" where
  "measure_reading r =
     map_option (map_sum id (\<lambda>res. \<lparr> rw_rules = describe r, rw_states = length (r_states res),
       rw_transitions = length (r_transitions res), rw_depth = r_max_depth res,
       rw_violations = length (r_violations res), rw_aborted = r_aborted res \<rparr>))
       (run r (Some MAX_STATES))"

text \<open>\<open>TARGET\<close>, from \<open>expected/paper_numbers.json\<close>.\<close>

definition TARGET :: "nat \<times> nat \<times> nat" where
  "TARGET = (45824, 307680, 16)"

definition off_states :: "row \<Rightarrow> int" where
  "off_states r = \<bar>int (rw_states r) - int (fst TARGET)\<bar>"

definition off_transitions :: "row \<Rightarrow> int" where
  "off_transitions r = \<bar>int (rw_transitions r) - int (fst (snd TARGET))\<bar>"

definition row_distance :: "row \<Rightarrow> int" where
  "row_distance r = off_states r + off_transitions r"

text \<open>The rows printed: by distance for round 2 or when only the closest are asked for.\<close>

definition shown_rows :: "stage \<Rightarrow> int \<Rightarrow> row list \<Rightarrow> row list" where
  "shown_rows st top1 rows =
     (if top1 \<noteq> 0 then
        (let sorted_rows = sort_key row_distance rows
         in if 0 \<le> top1 then take (nat top1) sorted_rows
            else take (length sorted_rows - nat (- top1)) sorted_rows)
      else if st = Round2 then sort_key row_distance rows else rows)"

definition exact_match :: "row list \<Rightarrow> row option" where
  "exact_match rows =
     find (\<lambda>r. (rw_states r, rw_transitions r, rw_depth r) = TARGET \<and> rw_violations r = 0) rows"

text \<open>\<open>min\<close> with the key (states off, transitions off): the first of the least; of no rows it raises.\<close>

definition less_off :: "row \<Rightarrow> row \<Rightarrow> bool" where
  "less_off a b \<longleftrightarrow>
     off_states a < off_states b \<or> (off_states a = off_states b \<and> off_transitions a < off_transitions b)"

definition closest :: "row list \<Rightarrow> row py" where
  "closest rows =
     (case rows of
        [] \<Rightarrow> Inl ValueError
      | r # rs \<Rightarrow> Inr (fold (\<lambda>a best. if less_off a best then a else best) rs r))"

section \<open>Labels\<close>

lemma knob_names_distinct: "distinct knob_names"
  by (simp add: knob_names_def KNOBS_def)

lemma knob_names_plain: "\<forall>f \<in> set knob_names. f \<noteq> [] \<and> CHR ''+'' \<notin> set f \<and> f \<noteq> ''base''"
  by (simp add: knob_names_def KNOBS_def)

lemma split_joined:
  "ws \<noteq> [] \<Longrightarrow> \<forall>w \<in> set ws. CHR ''+'' \<notin> set w \<Longrightarrow> split_on CHR ''+'' (joined ''+'' ws) = ws"
proof (induction ws)
  case (Cons w ws)
  show ?case
  proof (cases ws)
    case Nil
    with Cons.prems show ?thesis by (simp add: joined_def split_on_word)
  next
    case (Cons v vs)
    then have "joined ''+'' (w # ws) = w @ CHR ''+'' # joined ''+'' ws" by (simp add: joined_def)
    with Cons.IH Cons.prems Cons show ?thesis by (simp add: split_on_prefix)
  qed
qed simp

lemma rules_eqI: "(\<And>f. f \<in> set knob_names \<Longrightarrow> knob r f = knob s f) \<Longrightarrow> r = s"
proof -
  assume "\<And>f. f \<in> set knob_names \<Longrightarrow> knob r f = knob s f"
  then have "\<forall>f \<in> set knob_names. knob r f = knob s f" by blast
  then show "r = s" by (simp add: knob_names_def knob_def KNOBS_def)
qed

lemma describe_on:
  assumes "describe r = describe s" "f \<in> set knob_names"
  shows "knob r f = knob s f"
proof -
  define on where "on t = filter (\<lambda>f. knob t f \<noteq> knob base_rules f) knob_names" for t
  have d: "describe t = (if on t = [] then ''base'' else joined ''+'' (on t))" for t
    by (simp add: describe_def on_def Let_def)
  have plain: "\<forall>w \<in> set (on t). CHR ''+'' \<notin> set w" "''base'' \<notin> set (on t)" for t
    using knob_names_plain by (auto simp: on_def)
  have words: "split_on CHR ''+'' (describe t) = (if on t = [] then [''base''] else on t)" for t
    using split_joined [OF _ plain(1)] by (simp add: d)
  have "on r = on s"
    using words [of r] words [of s] plain(2) [of r] plain(2) [of s] assms(1)
    by (metis list.set_intros(1))
  then have "f \<in> set (on r) \<longleftrightarrow> f \<in> set (on s)" by simp
  with assms(2) show ?thesis by (auto simp: on_def)
qed

lemma describe_inject: "describe r = describe s \<longleftrightarrow> r = s"
  using describe_on by (auto intro: rules_eqI)

section \<open>The plan of a stage\<close>

lemma first_of_label_append:
  "first_of_label (rs @ [r]) =
     (if describe r \<in> fst ` set (first_of_label rs) then first_of_label rs
      else first_of_label rs @ [(describe r, r)])"
  by (simp add: first_of_label_def)

lemma first_of_label_ok:
  "distinct (map fst (first_of_label rs)) \<and> (\<forall>e \<in> set (first_of_label rs). fst e = describe (snd e)) \<and>
   snd ` set (first_of_label rs) = set rs"
proof (induction rs rule: rev_induct)
  case Nil
  show ?case by (simp add: first_of_label_def)
next
  case (snoc r rs)
  show ?case
  proof (cases "describe r \<in> fst ` set (first_of_label rs)")
    case True
    then obtain e where e: "e \<in> set (first_of_label rs)" "fst e = describe r" by auto
    with snoc have "snd e = r" by (simp add: describe_inject)
    with e have "r \<in> snd ` set (first_of_label rs)" by (metis image_eqI)
    with snoc True show ?thesis by (auto simp: first_of_label_append)
  next
    case False
    with snoc show ?thesis by (auto simp: first_of_label_append)
  qed
qed

lemma combos_set: "set (combos st) = set (planned st)"
  using first_of_label_ok [of "planned st"] by (simp add: combos_def)

lemma combos_labels: "map describe (combos st) = map fst (first_of_label (planned st))"
  using first_of_label_ok [of "planned st"] by (auto simp: combos_def)

text \<open>The label tells every knob that is off the base, so two readings with one label are one reading;
  a stage plans each of its readings once.\<close>

theorem plan_has_each_reading_once:
  "(describe r = describe s \<longleftrightarrow> r = s) \<and> distinct (map describe (combos st)) \<and> distinct (combos st) \<and>
   set (combos st) = set (planned st)"
proof -
  have "distinct (map describe (combos st))"
    unfolding combos_labels using first_of_label_ok [of "planned st"] by blast
  then show ?thesis using describe_inject combos_set by (auto simp: distinct_map)
qed

section \<open>What a row says\<close>

text \<open>The steps of a reading between the states it can reach, and the greatest distance among them.\<close>

definition steps_of :: "rules \<Rightarrow> (lc_state \<times> string \<times> lc_state) set" where
  "steps_of r = {(u, l, t). lc_reachable r u \<and> lc_step r u l t}"

definition greatest_distance :: "rules \<Rightarrow> nat \<Rightarrow> bool" where
  "greatest_distance r n \<longleftrightarrow>
     (\<exists>t. distance r t n) \<and> (\<forall>t. lc_reachable r t \<longrightarrow> (\<exists>d. distance r t d \<and> d \<le> n))"

lemma transitions_count:
  assumes b: "model_lts.loop_ok r b dn" and q: "queue b = []"
  shows "length (sorted_list_of_set (edges b)) = card (steps_of r)"
proof -
  note st = model_lts.finished_states [OF b q]
  have dd: "distinct (map fst (index b))" using st(3,5) by simp
  have reach: "t \<in> set dn \<longleftrightarrow> lc_reachable r t" for t using st(2) by (auto simp: lc_reachable_iff)
  have num: "\<exists>i < length dn. map_of (index b) t = Some i \<and> dn ! i = t" if "lc_reachable r t" for t
  proof -
    from that reach obtain i where i: "i < length dn" "dn ! i = t" by (metis in_set_conv_nth)
    then have "(t, i) \<in> set (index b)" using st(3) by (auto simp: set_zip)
    with i dd show ?thesis by (metis map_of_is_SomeI)
  qed
  have rev: "map_of (index b) t = Some i \<Longrightarrow> dn ! i = t \<and> lc_reachable r t" for t i
    using st(3) by (auto dest!: map_of_SomeD simp: set_zip simp flip: reach)
  let ?f = "\<lambda>(u, l, t). (the (map_of (index b) u), l, the (map_of (index b) t))"
  have "edges b = ?f ` steps_of r"
  proof (intro set_eqI iffI; clarify)
    fix i l j assume "(i, l, j) \<in> edges b"
    then obtain u t where "map_of (index b) u = Some i" "map_of (index b) t = Some j" "lc_step r u l t"
      unfolding model_lts.finished_edges [OF b q] lc_step_iff by blast
    with rev show "(i, l, j) \<in> ?f ` steps_of r" by (force simp: steps_of_def)
  next
    fix i l j u m t assume "(u, m, t) \<in> steps_of r"
    then have "lc_reachable r u" "lc_reachable r t" "lc_step r u m t" by (auto simp: steps_of_def intro: lc_reachable.intros)
    with num [of u] num [of t] show "(the (map_of (index b) u), m, the (map_of (index b) t)) \<in> edges b"
      unfolding model_lts.finished_edges [OF b q] lc_step_iff by fastforce
  qed
  moreover have "inj_on ?f (steps_of r)"
  proof (rule inj_onI)
    fix p q
    assume a: "p \<in> steps_of r" "q \<in> steps_of r" "?f p = ?f q"
    obtain u l t u' l' t' where [simp]: "p = (u, l, t)" "q = (u', l', t')" by (cases p; cases q)
    from a have "lc_reachable r u" "lc_reachable r t" "lc_reachable r u'" "lc_reachable r t'"
      by (auto simp: steps_of_def intro: lc_reachable.intros)
    from this [THEN num] a(3) show "p = q" by auto
  qed
  ultimately have "card (edges b) = card (steps_of r)" by (simp add: card_image)
  moreover have "finite (edges b)"
  proof -
    obtain d where "model_lts.base_ok r b dn d" using b q by (auto simp: model_lts.loop_ok_def)
    then show ?thesis by (rule model_lts.finite_edges)
  qed
  ultimately show ?thesis by simp
qed

lemma measured:
  obtains row where "measure_reading r = Some (Inr row)" "rw_rules row = describe r" "rw_violations row = 0"
    "rw_aborted row \<longleftrightarrow> rw_states row > MAX_STATES"
    "\<not> rw_aborted row \<Longrightarrow> rw_states row = card {t. lc_reachable r t} \<and>
       rw_transitions row = card (steps_of r) \<and> greatest_distance r (rw_depth row)"
proof -
  obtain res where res: "run r (Some MAX_STATES) = Some (Inr res)" "r_violations res = []"
    "r_aborted res \<longleftrightarrow> length (r_states res) > MAX_STATES"
    using model_lts_run_clean [of r "Some MAX_STATES"] by auto
  obtain b dn where run: "run r (Some MAX_STATES) = Some (Inr \<lparr> r_states = depth b,
       r_transitions = sorted_list_of_set (edges b),
       r_max_depth = Max (snd ` set (depth b)), r_violations = violations b,
       r_index = index b, r_aborted = aborted b, r_rules = r \<rparr>)"
    and b: "model_lts.loop_ok r b dn" "queue b = [] \<or> aborted b"
    by (rule run_result)
  let ?row = "\<lparr> rw_rules = describe r, rw_states = length (depth b),
    rw_transitions = length (sorted_list_of_set (edges b)), rw_depth = Max (snd ` set (depth b)),
    rw_violations = length (violations b), rw_aborted = aborted b \<rparr>"
  have m: "measure_reading r = Some (Inr ?row)" using run by (simp add: measure_reading_def)
  have full: "length (depth b) = card {t. lc_reachable r t} \<and>
      (\<forall>t. lc_reachable r t \<longrightarrow> (\<exists>d. distance r t d \<and> d \<le> Max (snd ` set (depth b)))) \<and>
      (\<exists>t. distance r t (Max (snd ` set (depth b))))" if na: "\<not> aborted b"
  proof -
    from b(2) na have q: "queue b = []" by simp
    note st = model_lts.finished_states [OF b(1) q]
    have dist: "map_of (depth b) t = Some d \<longleftrightarrow> distance r t d" for t d
      using model_lts.finished_depth [OF b(1) q] by (simp add: distance_def)
    have dd: "distinct (map fst (depth b))" using st(4,5) by simp
    have states: "fst ` set (depth b) = {t. lc_reachable r t}"
      using st by (simp add: lc_reachable_iff)
    have "initial \<in> fst ` set (depth b)" unfolding states by (simp add: lc_reachable.start)
    then have ne: "snd ` set (depth b) \<noteq> {}" by auto
    have "card (fst ` set (depth b)) = length (depth b)"
      using dd by (metis distinct_card length_map set_map)
    moreover have "\<exists>d. distance r t d \<and> d \<le> Max (snd ` set (depth b))" if "lc_reachable r t" for t
    proof -
      from that states obtain d where d: "(t, d) \<in> set (depth b)" by force
      with dd dist have "distance r t d" by (metis map_of_is_SomeI)
      moreover have "d \<le> Max (snd ` set (depth b))" using image_eqI [of d snd, OF _ d] by (intro Max_ge) auto
      ultimately show ?thesis by blast
    qed
    moreover have "\<exists>t. distance r t (Max (snd ` set (depth b)))"
    proof -
      have "Max (snd ` set (depth b)) \<in> snd ` set (depth b)" using ne by (intro Max_in) auto
      then obtain t where "(t, Max (snd ` set (depth b))) \<in> set (depth b)" by force
      with dd dist show ?thesis by (metis map_of_is_SomeI)
    qed
    ultimately show ?thesis using states by simp
  qed
  from res run have "violations b = []" "aborted b \<longleftrightarrow> length (depth b) > MAX_STATES" by auto
  moreover have "length (sorted_list_of_set (edges b)) = card (steps_of r)" if "\<not> aborted b"
    using transitions_count [OF b(1)] b(2) that by simp
  ultimately show thesis using that [OF m] full by (simp add: greatest_distance_def)
qed

text \<open>For every reading, measuring returns a row without violations; it is abandoned exactly when more
  than 150,000 states were found, and otherwise its numbers are the number of reachable states, the number
  of steps between them and the greatest of their distances.\<close>

theorem measured_row_is_exact:
  "\<exists>row. measure_reading r = Some (Inr row) \<and> rw_violations row = 0 \<and>
     (rw_aborted row \<longleftrightarrow> rw_states row > 150000) \<and>
     (\<not> rw_aborted row \<longrightarrow> rw_states row = card {t. lc_reachable r t} \<and>
        rw_transitions row = card (steps_of r) \<and> greatest_distance r (rw_depth row))"
  by (rule measured [of r]) (simp add: MAX_STATES_def)

section \<open>The choices of main\<close>

lemma less_off_pair: "less_off a b \<longleftrightarrow> (off_states a, off_transitions a) < (off_states b, off_transitions b)"
  by (auto simp: less_off_def less_prod_def)

lemma fold_least:
  fixes key :: "'a \<Rightarrow> 'b :: linorder"
  shows "fold (\<lambda>a best. if key a < key best then a else best) rs r \<in> insert r (set rs) \<and>
    (\<forall>a \<in> insert r (set rs). key (fold (\<lambda>a best. if key a < key best then a else best) rs r) \<le> key a)"
proof (induction rs arbitrary: r)
  case (Cons x rs)
  show ?case
  proof (cases "key x < key r")
    case True
    then show ?thesis using Cons.IH [of x] by auto
  next
    case False
    then show ?thesis using Cons.IH [of r] by auto
  qed
qed simp

lemma closest_least:
  assumes "closest rows = Inr row"
  shows "row \<in> set rows \<and> (\<forall>a \<in> set rows. \<not> less_off a row)"
proof -
  from assms obtain r rs where "rows = r # rs"
    "row = fold (\<lambda>a best. if less_off a best then a else best) rs r"
    by (cases rows) (auto simp: closest_def)
  then show ?thesis
    using fold_least [of "\<lambda>a. (off_states a, off_transitions a)" rs r] unfolding less_off_pair not_less
    by (simp only: list.set simp_thms) blast
qed

lemma finite_reachable: "finite {t. lc_reachable r t}"
  by (rule finite_subset [OF _ finite_lc_ok [of r]]) (auto intro: lc_reachable_ok)

definition published :: "rules \<Rightarrow> bool" where
  "published r \<longleftrightarrow> card {t. lc_reachable r t} = 45824 \<and> card (steps_of r) = 307680 \<and> greatest_distance r 16"

text \<open>The rows of a plan, one per reading and in its order.\<close>

definition sweep :: "stage \<Rightarrow> row list py" where
  "sweep st = map_py (\<lambda>r. case measure_reading r of None \<Rightarrow> Inl ValueError | Some m \<Rightarrow> m) (combos st)"

definition row_of :: "rules \<Rightarrow> row" where
  "row_of r = projr (the (measure_reading r))"

lemma row_of: "measure_reading r = Some (Inr (row_of r))"
  by (rule measured [of r]) (simp add: row_of_def)

lemma sweep_rows: "sweep st = Inr (map row_of (combos st))"
  unfolding sweep_def by (intro map_py_total) (simp add: row_of)

lemma row_of_facts:
  "rw_rules (row_of r) = describe r" "rw_violations (row_of r) = 0"
  "rw_aborted (row_of r) \<longleftrightarrow> rw_states (row_of r) > MAX_STATES"
  "\<not> rw_aborted (row_of r) \<Longrightarrow> rw_states (row_of r) = card {t. lc_reachable r t} \<and>
     rw_transitions (row_of r) = card (steps_of r) \<and> greatest_distance r (rw_depth (row_of r))"
  using row_of [of r] by (rule_tac measured [of r]; simp)+

lemma greatest_distance_unique:
  assumes "greatest_distance r m" "greatest_distance r n"
  shows "m = n"
proof -
  have le: "a \<le> b" if a: "greatest_distance r a" and b: "greatest_distance r b" for a b
  proof -
    from a obtain t where t: "distance r t a" by (auto simp: greatest_distance_def)
    then have "lc_reachable r t" by (auto simp: distance_def lc_reachable_iff)
    with b obtain d where "distance r t d" "d \<le> b" by (auto simp: greatest_distance_def)
    moreover from t this(1) have "d = a" by (auto simp: distance_def intro: le_antisym)
    ultimately show ?thesis by simp
  qed
  from le [OF assms] le [OF assms(2,1)] show ?thesis by simp
qed

text \<open>A sweep that was cut short found too many states already.\<close>

lemma aborted_not_published:
  assumes "rw_aborted (row_of r)"
  shows "\<not> published r"
proof -
  obtain b dn where run: "run r (Some MAX_STATES) = Some (Inr \<lparr> r_states = depth b,
       r_transitions = sorted_list_of_set (edges b),
       r_max_depth = Max (snd ` set (depth b)), r_violations = violations b,
       r_index = index b, r_aborted = aborted b, r_rules = r \<rparr>)"
    and b: "model_lts.loop_ok r b dn"
    by (rule run_result)
  have "row_of r = \<lparr> rw_rules = describe r, rw_states = length (depth b),
    rw_transitions = length (sorted_list_of_set (edges b)), rw_depth = Max (snd ` set (depth b)),
    rw_violations = length (violations b), rw_aborted = aborted b \<rparr>"
    using row_of [of r] run by (simp add: measure_reading_def)
  with assms row_of_facts(3) [of r] have many: "length (depth b) > MAX_STATES" by simp
  obtain d where base: "model_lts.base_ok r b (dn @ queue b) d" using b by (auto simp: model_lts.loop_ok_def)
  then have dd: "distinct (map fst (depth b))" and reach: "fst ` set (depth b) \<subseteq> {t. lc_reachable r t}"
    by (auto simp: model_lts.base_ok_def lc_reachable_iff) blast
  have "length (depth b) = card (fst ` set (depth b))" using dd by (metis distinct_card length_map set_map)
  also have "\<dots> \<le> card {t. lc_reachable r t}" by (rule card_mono [OF finite_reachable reach])
  finally show ?thesis using many by (simp add: published_def MAX_STATES_def)
qed

text \<open>A row has the three numbers exactly when its reading has them.\<close>

lemma row_matches:
  "(rw_states (row_of r), rw_transitions (row_of r), rw_depth (row_of r)) = TARGET \<longleftrightarrow> published r"
proof (cases "rw_aborted (row_of r)")
  case True
  then show ?thesis using row_of_facts(3) [of r] aborted_not_published by (auto simp: TARGET_def MAX_STATES_def)
next
  case False
  from row_of_facts(4) [OF this] greatest_distance_unique [of r "rw_depth (row_of r)" 16] show ?thesis
    by (auto simp: TARGET_def published_def)
qed

lemma exact_match_rows:
  "case exact_match (map row_of rs) of
     Some row \<Rightarrow> \<exists>r \<in> set rs. published r \<and> rw_rules row = describe r
   | None \<Rightarrow> \<forall>r \<in> set rs. \<not> published r"
proof (cases "exact_match (map row_of rs)")
  case None
  then have "\<forall>r \<in> set rs. \<not> published r" by (auto simp: exact_match_def find_None_iff row_matches row_of_facts(2))
  with None show ?thesis by simp
next
  case (Some row)
  from find_SomeD [OF this [unfolded exact_match_def]] obtain r where "r \<in> set rs" "row = row_of r" "published r"
    by (auto simp: row_matches)
  with Some show ?thesis by (auto simp: row_of_facts(1))
qed

text \<open>Property C16. A sweep of a stage measures every reading of its plan, once, and its rows are those readings'.
  The match it reports is a reading of the plan with exactly the published numbers of reachable states and
  of steps between them and the published greatest distance; it reports none only when no reading of the
  plan has them; and the row called closest is one that no other row beats.\<close>

theorem reported_match_is_exact:
  "set (combos st) = set (planned st) \<and> distinct (combos st) \<and>
   (\<exists>rows. sweep st = Inr rows \<and> map rw_rules rows = map describe (combos st) \<and>
     (case exact_match rows of
        Some row \<Rightarrow> \<exists>r \<in> set (planned st). (\<forall>s. rw_rules row = describe s \<longleftrightarrow> s = r) \<and>
          card {t. lc_reachable r t} = 45824 \<and> card (steps_of r) = 307680 \<and> greatest_distance r 16
      | None \<Rightarrow> \<forall>r \<in> set (planned st).
          (card {t. lc_reachable r t}, card (steps_of r)) = (45824, 307680) \<longrightarrow> \<not> greatest_distance r 16) \<and>
     (\<exists>row. closest rows = Inr row \<and> row \<in> set rows \<and> (\<forall>a \<in> set rows. \<not> less_off a row)))"
proof -
  let ?rows = "map row_of (combos st)"
  have labels: "distinct (map describe (combos st))"
    unfolding combos_labels using first_of_label_ok [of "planned st"] by blast
  have "planned st \<noteq> []" by (simp add: planned_def)
  then have "combos st \<noteq> []" using combos_set [of st] by (metis set_empty)
  then obtain row where "closest ?rows = Inr row" by (cases "combos st") (auto simp: closest_def)
  with closest_least [OF this] have c: "\<exists>row. closest ?rows = Inr row \<and> row \<in> set ?rows \<and> (\<forall>a \<in> set ?rows. \<not> less_off a row)"
    by blast
  have m: "case exact_match ?rows of
      Some row \<Rightarrow> \<exists>r \<in> set (planned st). (\<forall>s. rw_rules row = describe s \<longleftrightarrow> s = r) \<and>
        card {t. lc_reachable r t} = 45824 \<and> card (steps_of r) = 307680 \<and> greatest_distance r 16
    | None \<Rightarrow> \<forall>r \<in> set (planned st).
        (card {t. lc_reachable r t}, card (steps_of r)) = (45824, 307680) \<longrightarrow> \<not> greatest_distance r 16"
    using exact_match_rows [of "combos st"]
    by (auto simp: published_def combos_set describe_inject split: option.splits)
  have "map rw_rules ?rows = map describe (combos st)" by (simp add: row_of_facts(1))
  with sweep_rows [of st] m c labels combos_set [of st] show ?thesis by (auto simp: distinct_map)
qed

text \<open>On the readings that change one knob each, the sweep ends with a row for every reading and a closest one.\<close>

theorem reported_match_is_exact_witness:
  "\<exists>rows row. sweep Singles = Inr rows \<and> map rw_rules rows = map describe (combos Singles) \<and>
     closest rows = Inr row \<and> row \<in> set rows"
  using reported_match_is_exact [of Singles] by blast

end
