(* ===== verification/SimMonitor.thy ===== *)
theory SimMonitor
  imports SimApp PyValues
begin

text \<open>
  The other routes of \<open>src/qkd_ekm/qkdsim/app.py\<close>: login, the monitoring values behind a JWT, the list of
  key servers, the state of the simulator, and the routing of all of its GET and POST requests. PyJWT is
  the parameter \<open>jwt\<close>; \<open>jwt_ok\<close> says that it accepts the tokens it made with the same secret. An authorization header is an argument of a
  request; the time is \<open>now\<close>.
\<close>

record jwt =
  jwt_encode :: "json \<Rightarrow> string \<Rightarrow> string"
  jwt_decode :: "string \<Rightarrow> string \<Rightarrow> json option"

definition jwt_ok :: "jwt \<Rightarrow> bool" where
  "jwt_ok j \<longleftrightarrow> (\<forall>claims secret. jwt_decode j (jwt_encode j claims secret) secret \<noteq> None)"

record monitor_config =
  sim_user :: string
  sim_password :: string
  bit_rate :: rat
  signal_qber :: rat
  decoy_qber :: rat
  jwt_secret :: string

definition SIGNAL_STATES_QBER :: json where
  "SIGNAL_STATES_QBER = JList (map JFloat [19 / 100, 104 / 100, 145 / 100, 27 / 100, 83 / 100, 69 / 100])"

definition DECOY_STATES_QBER :: json where
  "DECOY_STATES_QBER = JList (map JFloat [48 / 100, 153 / 100, 165 / 100, 69 / 100, 120 / 100, 48 / 100])"

section \<open>Handlers\<close>

definition sim_login :: "jwt \<Rightarrow> monitor_config \<Rightarrow> rat \<Rightarrow> json option \<Rightarrow> sim_error + json" where
  "sim_login j mon now body =
     (case body of
        None \<Rightarrow> Inl (SimCrash ValueError)
      | Some (JObj kvs) \<Rightarrow>
          if obj_get kvs ''username'' \<noteq> JStr (sim_user mon) \<or> obj_get kvs ''password'' \<noteq> JStr (sim_password mon)
          then Inl (SimHTTP 401 ''invalid credentials'')
          else Inr (JObj [(''token'', JStr (jwt_encode j
                 (JObj [(''sub'', JStr (sim_user mon)), (''iat'', JInt (py_trunc now))]) (jwt_secret mon)))])
      | Some _ \<Rightarrow> Inl (SimCrash AttributeError))"

definition require_jwt :: "jwt \<Rightarrow> monitor_config \<Rightarrow> string option \<Rightarrow> sim_error + unit" where
  "require_jwt j mon authorization =
     (let a = (case authorization of None \<Rightarrow> [] | Some t \<Rightarrow> t) in
      if \<not> startswith a ''Bearer '' then Inl (SimHTTP 401 ''unauthorized'')
      else case jwt_decode j (removeprefix a ''Bearer '') (jwt_secret mon) of
          None \<Rightarrow> Inl (SimHTTP 401 ''unauthorized'')
        | Some _ \<Rightarrow> Inr ())"

definition sim_key_servers :: "sim_config \<Rightarrow> jwt \<Rightarrow> monitor_config \<Rightarrow> string option \<Rightarrow> sim_error + json" where
  "sim_key_servers cfg j mon authorization =
     bind_py (require_jwt j mon authorization) (\<lambda>_.
       let master = (case saes cfg of [] \<Rightarrow> [] | m # _ \<Rightarrow> m);
           slave = (case saes cfg of _ # s # _ \<Rightarrow> s | _ \<Rightarrow> master)
       in Inr (JList [JObj [(''id'', JStr (master @ ''-'' @ slave)), (''masterSAE'', JStr master),
                            (''slaveSAE'', JStr slave)]]))"

definition metric_values :: "monitor_config \<Rightarrow> (string \<times> json) list" where
  "metric_values mon =
     [(''secure-bit-rate'', JFloat (bit_rate mon)), (''signal-qber'', JFloat (signal_qber mon)),
      (''decoy-qber'', JFloat (decoy_qber mon)), (''signal-states-qber'', SIGNAL_STATES_QBER),
      (''decoy-states-qber'', DECOY_STATES_QBER)]"

text \<open>\<open>stamp\<close> is the time as \<open>isoformat\<close> writes it.\<close>

definition sim_monitoring ::
  "jwt \<Rightarrow> monitor_config \<Rightarrow> string option \<Rightarrow> string \<Rightarrow> string \<Rightarrow> sim_error + json" where
  "sim_monitoring j mon authorization stamp metric =
     bind_py (require_jwt j mon authorization) (\<lambda>_.
       case map_of (metric_values mon) metric of
         None \<Rightarrow> Inl (SimHTTP 404 ''unknown metric'')
       | Some v \<Rightarrow> Inr (JObj [(''time'', JStr stamp), (''value'', v)]))"

definition sim_state :: "sim_config \<Rightarrow> string option \<Rightarrow> rat \<Rightarrow> key_store \<Rightarrow> sim_error + json" where
  "sim_state cfg authorization now s =
     bind_py (require_sim_token cfg authorization) (\<lambda>_.
     Inr (JObj
       [(''source_available'', JBool (source_on s)), (''consumed_keys'', JInt (consumed_keys s)),
        (''consumed_bits'', JInt (consumed_bits s)), (''key_requests'', JInt (key_requests s)),
        (''failed_key_requests'', JInt (failed_key_requests s)),
        (''generated_bits'', JInt (generated_bits now s)), (''deleted_bits'', JInt (deleted_bits s)),
        (''available_256bit_keys'', JInt (available_256bit_keys s))]))"

section \<open>All routes\<close>

record simulator =
  s_cfg :: sim_config
  s_mon :: monitor_config
  s_jwt :: jwt
  s_rand :: "nat \<Rightarrow> string \<times> bytes"
  s_now :: rat
  s_stamp :: string

definition sim_serve :: "simulator \<Rightarrow> string option \<Rightarrow> request \<Rightarrow> key_store \<Rightarrow> reply \<times> key_store" where
  "sim_serve sim authorization req s =
     (case req of
        Get path params \<Rightarrow>
          (case split_on CHR ''/'' path of
             [e, a] \<Rightarrow>
               if (e, a) = ([], ''healthz'') then (Reply 200 (Some (JObj [(''status'', JStr ''ok'')])), s)
               else (sim_reply (Inl (SimHTTP 404 ''Not Found'')), s)
           | [e, a, b] \<Rightarrow>
               if (e, a, b) = ([], ''kms'', ''key-servers'') then
                 (sim_reply (sim_key_servers (s_cfg sim) (s_jwt sim) (s_mon sim) authorization), s)
               else if (e, a, b) = ([], ''sim'', ''state'') then
                 (sim_reply (sim_state (s_cfg sim) authorization (s_now sim) s), s)
               else (sim_reply (Inl (SimHTTP 404 ''Not Found'')), s)
           | [e, a, b, metric, c] \<Rightarrow>
               if (e, a, b, c) = ([], ''monitoring'', ''qkd-qtx'', ''current'') then
                 (sim_reply (sim_monitoring (s_jwt sim) (s_mon sim) authorization (s_stamp sim) metric), s)
               else (sim_reply (Inl (SimHTTP 404 ''Not Found'')), s)
           | [e, a, v, k, sae, op] \<Rightarrow>
               if (e, a, v, k, op) = ([], ''api'', ''v1'', ''keys'', ''status'') then
                 (sim_reply (sim_status (s_cfg sim) authorization sae (s_now sim) s), s)
               else sim_send (s_cfg sim) (s_rand sim) authorization req s
           | _ \<Rightarrow> (sim_reply (Inl (SimHTTP 404 ''Not Found'')), s))
      | Post path body \<Rightarrow>
          if path = ''/auth/login'' then
            (sim_reply (sim_login (s_jwt sim) (s_mon sim) (s_now sim) (Some body)), s)
          else if path = ''/sim/source'' then
            (case body of
               JObj kvs \<Rightarrow> map_prod sim_reply id (sim_source (s_cfg sim) authorization kvs s)
             | _ \<Rightarrow>
                 (case require_sim_token (s_cfg sim) authorization of
                    Inl e \<Rightarrow> (sim_reply (Inl e), s)
                  | Inr _ \<Rightarrow> (sim_reply (Inl (SimCrash AttributeError)), s)))
          else sim_send (s_cfg sim) (s_rand sim) authorization req s)"

section \<open>Two credentials\<close>

definition bearer_header :: "string \<Rightarrow> string" where
  "bearer_header t = ''Bearer '' @ t"

lemma require_jwt_bearer [simp]:
  "require_jwt j mon (Some (bearer_header t)) =
     (case jwt_decode j t (jwt_secret mon) of None \<Rightarrow> Inl (SimHTTP 401 ''unauthorized'') | Some _ \<Rightarrow> Inr ())"
  using startswith_append [of "''Bearer ''" t] removeprefix_append [of "''Bearer ''" t]
  by (simp only: require_jwt_def bearer_header_def Let_def option.case not_True_eq_False if_False)

lemma require_sim_token_bearer [simp]:
  "require_sim_token cfg (Some (bearer_header t)) =
     (if sim_token cfg = None \<or> sim_token cfg = Some t then Inr () else Inl (SimHTTP 401 ''unauthorized''))"
  by (auto simp: require_sim_token_def bearer_header_def split: option.splits)

lemma login_token:
  assumes "jwt_ok j"
  shows "\<exists>t. sim_login j mon now (Some (JObj [(''username'', JStr (sim_user mon)), (''password'', JStr (sim_password mon))])) =
      Inr (JObj [(''token'', JStr t)]) \<and> jwt_decode j t (jwt_secret mon) \<noteq> None"
  using assms by (simp add: sim_login_def obj_get_def jwt_ok_def)

text \<open>The monitoring routes ask for a token that PyJWT accepts and for nothing else, whatever the static
  token of the key routes is; the status route asks for the static token alone. Neither credential opens
  the other's routes by itself, and no monitoring request changes the store.\<close>

theorem credentials_are_separate:
  "(sim_serve sim (Some (bearer_header t)) (Get (''/monitoring/qkd-qtx/signal-qber/current'') []) s =
      (Reply 200 (Some (JObj [(''time'', JStr (s_stamp sim)), (''value'', JFloat (signal_qber (s_mon sim)))])), s)
      \<longleftrightarrow> jwt_decode (s_jwt sim) t (jwt_secret (s_mon sim)) \<noteq> None) \<and>
   (sim_status (s_cfg sim) (Some (bearer_header t)) sae (s_now sim) s = Inl (SimHTTP 401 ''unauthorized'')
      \<longleftrightarrow> (\<exists>u. sim_token (s_cfg sim) = Some u \<and> u \<noteq> t)) \<and>
   (\<forall>path. snd (sim_serve sim auth (Get (''/monitoring/'' @ path) []) s) = s)"
proof (intro conjI allI)
  have path: "split_on CHR ''/'' ''/monitoring/qkd-qtx/signal-qber/current'' =
      [[], ''monitoring'', ''qkd-qtx'', ''signal-qber'', ''current'']" by simp
  show "sim_serve sim (Some (bearer_header t)) (Get (''/monitoring/qkd-qtx/signal-qber/current'') []) s =
      (Reply 200 (Some (JObj [(''time'', JStr (s_stamp sim)), (''value'', JFloat (signal_qber (s_mon sim)))])), s)
      \<longleftrightarrow> jwt_decode (s_jwt sim) t (jwt_secret (s_mon sim)) \<noteq> None"
    unfolding sim_serve_def request.case path
    by (simp add: sim_monitoring_def metric_values_def sim_reply_def split: option.split)
  show "sim_status (s_cfg sim) (Some (bearer_header t)) sae (s_now sim) s = Inl (SimHTTP 401 ''unauthorized'')
      \<longleftrightarrow> (\<exists>u. sim_token (s_cfg sim) = Some u \<and> u \<noteq> t)"
    by (cases "sim_token (s_cfg sim)") (auto simp: sim_status_def require_sae_def)
  fix path
  have "\<exists>w ws. split_on CHR ''/'' (''/monitoring/'' @ path) = [] # ''monitoring'' # w # ws"
    by (simp add: split_on_not_Nil neq_Nil_conv [symmetric] split: list.split)
  then show "snd (sim_serve sim auth (Get (''/monitoring/'' @ path) []) s) = s"
    by (auto simp: sim_serve_def sim_send_def split: list.splits)
qed

end
