(* ===== verification/Analysis.thy ===== *)
theory Analysis
  imports PyValues
begin

text \<open>
  \<open>src/qkd_ekm/analysis/\<close>: the equations (3) to (8), Table 9, the scalars and the choice of the live
  inputs of \<open>run_all\<close>, and the values that figures 4, 5 and 13 plot. Floats are rationals;
  \<open>AnalysisDouble\<close> has the same code with every operation rounded. Drawing, pandas and files are
  not modelled.
\<close>

section \<open>Equations\<close>

definition demand_rate :: "rat \<Rightarrow> rat \<Rightarrow> rat \<Rightarrow> rat \<Rightarrow> rat \<Rightarrow> rat \<Rightarrow> rat py" where
  "demand_rate tau_e tau_v a_e a_v n_e n_v =
     bind_py (py_div (a_e * n_e) tau_e) (\<lambda>x.
     bind_py (py_div (a_v * n_v) tau_v) (\<lambda>y. Inr (x + y)))"

text \<open>\<open>demand()\<close> with the default arguments.\<close>

definition base_demand :: "rat py" where
  "base_demand = demand_rate 900 3600 1 1 1 1"

definition ceiling_pairs :: "rat \<Rightarrow> rat \<Rightarrow> rat \<Rightarrow> rat py" where
  "ceiling_pairs r D alpha = py_div (alpha * r) D"

definition endurance_s :: "rat \<Rightarrow> rat \<Rightarrow> rat \<Rightarrow> rat py" where
  "endurance_s B D beta = py_div (beta * B) D"

definition depletion_s :: "rat \<Rightarrow> rat \<Rightarrow> rat \<Rightarrow> rat option" where
  "depletion_s B D r_u = (let net = D - r_u in if net \<le> 0 then None else Some (B / net))"

definition refill_s :: "rat \<Rightarrow> rat \<Rightarrow> rat \<Rightarrow> rat option" where
  "refill_s D t_out r_u = (let net = r_u - D in if net \<le> 0 then None else Some (D * t_out / net))"

definition reserve_pct :: "rat \<Rightarrow> rat \<Rightarrow> rat \<Rightarrow> rat \<Rightarrow> rat py" where
  "reserve_pct B D t_out_s r_u =
     (case depletion_s B D r_u of
        None \<Rightarrow> Inr 100
      | Some t_dep \<Rightarrow>
          bind_py (py_div t_out_s t_dep) (\<lambda>q. Inr (max 0 (min 100 (100 * (1 - q))))))"

section \<open>Table 9\<close>

record table_row =
  tr_pairs :: int
  tr_demand :: rat
  tr_headroom :: rat
  tr_endurance_h :: rat
  tr_refill_min :: "rat option"

definition table9_row :: "rat \<Rightarrow> rat \<Rightarrow> rat \<Rightarrow> int \<Rightarrow> table_row py" where
  "table9_row r B D_base p =
     (let D_row = D_base * of_int p in
      bind_py (py_div r D_row) (\<lambda>headroom.
      bind_py (endurance_s B D_row 1) (\<lambda>endurance.
      Inr \<lparr> tr_pairs = p, tr_demand = D_row, tr_headroom = headroom, tr_endurance_h = endurance / 3600,
            tr_refill_min = map_option (\<lambda>t. t / 60) (refill_s D_row 3600 r) \<rparr>)))"

definition TABLE9_PAIRS :: "int list" where
  "TABLE9_PAIRS = [1, 1000, 10000, 50000, 60000]"

definition table9 :: "rat \<Rightarrow> rat \<Rightarrow> int list \<Rightarrow> table_row list py" where
  "table9 r B pairs = bind_py base_demand (\<lambda>D_base. map_py (table9_row r B D_base) pairs)"

section \<open>The runs of the analysis\<close>

definition SOURCE_RATE :: rat where
  "SOURCE_RATE = 82890625 / 1000000"

definition INVENTORY :: rat where
  "INVENTORY = 3275971"

text \<open>\<open>x / n\<close> where \<open>x\<close> may be \<open>None\<close>.\<close>

definition opt_div :: "rat option \<Rightarrow> rat \<Rightarrow> rat py" where
  "opt_div x n = (case x of None \<Rightarrow> Inl TypeError | Some q \<Rightarrow> py_div q n)"

definition run_scalars :: "(string \<times> json) list py" where
  "run_scalars =
     bind_py base_demand (\<lambda>D.
     bind_py (ceiling_pairs SOURCE_RATE D 1) (\<lambda>mQ.
     bind_py (reserve_pct INVENTORY (D * 1000) (24 * 3600) 0) (\<lambda>r1.
     bind_py (reserve_pct INVENTORY (D * 10000) (24 * 3600) 0) (\<lambda>r10.
     bind_py (opt_div (depletion_s INVENTORY (D * 50000) 0) 3600) (\<lambda>d50.
     bind_py (opt_div (refill_s (D * 1000) 3600 SOURCE_RATE) 60) (\<lambda>f1.
     bind_py (opt_div (refill_s (D * 10000) 3600 SOURCE_RATE) 60) (\<lambda>f10.
     bind_py (opt_div (refill_s (D * 50000) 3600 SOURCE_RATE) 3600) (\<lambda>f50.
     Inr [(''D'', JFloat D), (''mQ'', JFloat mQ),
          (''reserve_24h_1000_pct'', JFloat r1), (''reserve_24h_10000_pct'', JFloat r10),
          (''depletion_50000_h'', JFloat d50), (''refill_1h_1000_min'', JFloat f1),
          (''refill_1h_10000_min'', JFloat f10), (''refill_1h_50000_h'', JFloat f50)]))))))))"

text \<open>The live table of \<open>run_all\<close>: written when the capture names a rate and an inventory that are not
  zero. \<open>capture\<close> is the decoded file, None when it is missing or not JSON.\<close>

definition live_table :: "json option \<Rightarrow> table_row list option py" where
  "live_table capture =
     (case capture of
        None \<Rightarrow> Inr None
      | Some live \<Rightarrow>
          if \<not> truthy live then Inr None
          else
            bind_py (py_get live ''derived_256bit_rate'' JNull) (\<lambda>r1.
            bind_py (py_get live ''source_rate_units_per_s'' JNull) (\<lambda>r2.
            bind_py (py_get live ''available_256bit_keys'' JNull) (\<lambda>b1.
            bind_py (py_get live ''inventory_units'' JNull) (\<lambda>b2.
              if truthy (py_or r1 r2) \<and> truthy (py_or b1 b2) then
                bind_py (as_num (py_or r1 r2)) (\<lambda>r.
                bind_py (as_num (py_or b1 b2)) (\<lambda>b.
                map_sum id Some (table9 r b TABLE9_PAIRS)))
              else Inr None)))))"

section \<open>Figures\<close>

text \<open>The number at the marked point of figure 4, a point of the grid of figure 5, and the refill
  duration in hours of figure 13 at a utilisation in percent and a duration in hours (None is its NaN).\<close>

definition fig4_pairs :: "rat \<Rightarrow> int py" where
  "fig4_pairs r =
     bind_py (demand_rate (15 * 60) (60 * 60) 1 1 1 1) (\<lambda>D.
     bind_py (ceiling_pairs r D 1) (\<lambda>pz. Inr (if pz < 0 then - \<lfloor>- pz\<rfloor> else \<lfloor>pz\<rfloor>)))"

definition fig5_point :: "rat \<Rightarrow> rat \<Rightarrow> rat py" where
  "fig5_point pairs dur =
     bind_py base_demand (\<lambda>D_base.
     bind_py (py_div INVENTORY (D_base * pairs)) (\<lambda>t_dep.
     bind_py (py_div (dur * 3600) t_dep) (\<lambda>q. Inr (min 100 (max 0 (100 * (1 - q)))))))"

definition fig13_demand :: "rat \<Rightarrow> rat \<Rightarrow> rat py" where
  "fig13_demand util dur = py_div (util / 100 * INVENTORY) (dur * 3600)"

definition fig13_point :: "rat \<Rightarrow> rat \<Rightarrow> rat option py" where
  "fig13_point util dur =
     bind_py (fig13_demand util dur) (\<lambda>D.
       let net = SOURCE_RATE - D
       in Inr (if net > 0 then Some (D * (dur * 3600) / net / 3600) else None))"

section \<open>The equations against each other\<close>

lemma base_demand [simp]: "base_demand = Inr (1 / 720)"
  by (simp add: base_demand_def demand_rate_def)

lemma refill_None: "refill_s D t r = None \<longleftrightarrow> r \<le> D"
  by (simp add: refill_s_def Let_def)

lemma depletion_None: "depletion_s B D r = None \<longleftrightarrow> D \<le> r"
  by (simp add: depletion_s_def Let_def)

lemma depletion_endurance:
  "0 < D \<Longrightarrow> depletion_s B D 0 = Some T \<longleftrightarrow> endurance_s B D 1 = Inr T"
  by (auto simp: depletion_s_def endurance_s_def py_div_def Let_def)

text \<open>The clipped percentage in terms of the share \<open>s\<close> that the interruption takes.\<close>

lemma clipped_share:
  fixes s :: rat
  shows "max 0 (min 100 (100 * (1 - s))) = 0 \<longleftrightarrow> 1 \<le> s"
    "max 0 (min 100 (100 * (1 - s))) = 100 \<longleftrightarrow> s \<le> 0"
  by (auto simp: max_def min_def)

lemma share_left:
  fixes B x :: rat
  assumes "0 < B"
  shows "100 * (B - x) / B = 100 * (1 - x / B)" "1 \<le> x / B \<longleftrightarrow> B \<le> x" "x / B \<le> 0 \<longleftrightarrow> x \<le> 0"
  using assms by (simp_all add: diff_divide_distrib right_diff_distrib divide_le_0_iff)

text \<open>What \<open>reserve_pct\<close> is for a buffer that is not empty: the remaining inventory
  \<open>B - (D - r_u) * t_out\<close> as a share of \<open>B\<close>, clipped to 0..100.\<close>

lemma reserve_pct_value:
  assumes "0 < B" "0 \<le> t"
  shows "reserve_pct B D t r = Inr (max 0 (min 100 (100 * (B - (D - r) * t) / B)))"
proof (cases "D \<le> r")
  case True
  then have "(D - r) * t \<le> 0" using assms by (simp add: mult_nonpos_nonneg)
  then have "max 0 (min 100 (100 * (1 - (D - r) * t / B))) = 100"
    using assms by (simp only: clipped_share share_left)
  then show ?thesis using True assms
    by (simp only: share_left) (simp add: reserve_pct_def depletion_s_def Let_def)
next
  case False
  then have net: "B / (D - r) \<noteq> 0" and dep: "depletion_s B D r = Some (B / (D - r))"
    using assms by (auto simp: depletion_s_def Let_def)
  have q: "t / (B / (D - r)) = (D - r) * t / B" by (simp add: mult.commute)
  show ?thesis using assms
    by (simp only: share_left reserve_pct_def dep option.simps py_div_Inr [OF net] q bind_py.simps)
qed

text \<open>For a buffer that is not empty and an interruption of \<open>t\<close> seconds the reserve is a percentage; it is
  the clipped share of what the net drain leaves; it is zero exactly when the depletion time has passed
  and full exactly when nothing is drained. An empty buffer under a net drain raises ZeroDivisionError
  instead of answering 0.\<close>

theorem reserve_within_bounds:
  assumes "0 < B" and "0 \<le> t"
  shows "\<exists>p. reserve_pct B D t r = Inr p \<and> 0 \<le> p \<and> p \<le> 100 \<and>
      p = max 0 (min 100 (100 * (B - (D - r) * t) / B)) \<and>
      (p = 0 \<longleftrightarrow> (\<exists>T. depletion_s B D r = Some T \<and> T \<le> t)) \<and>
      (p = 100 \<longleftrightarrow> depletion_s B D r = None \<or> t = 0) \<and>
      (reserve_pct 0 D t r = Inl ZeroDivisionError \<longleftrightarrow> r < D)"
proof -
  let ?x = "(D - r) * t"
  let ?p = "max 0 (min 100 (100 * (B - ?x) / B))"
  have "B \<le> ?x \<longleftrightarrow> (\<exists>T. depletion_s B D r = Some T \<and> T \<le> t)"
  proof (cases "D \<le> r")
    case True
    then have "?x \<le> 0" using assms by (simp add: mult_nonpos_nonneg)
    with assms True show ?thesis by (simp add: depletion_s_def Let_def)
  next
    case False
    then have "B / (D - r) \<le> t \<longleftrightarrow> B \<le> ?x" by (simp add: pos_divide_le_eq mult.commute)
    with False show ?thesis by (simp add: depletion_s_def Let_def)
  qed
  then have zero: "?p = 0 \<longleftrightarrow> (\<exists>T. depletion_s B D r = Some T \<and> T \<le> t)"
    using assms by (simp only: share_left clipped_share)
  have "?x \<le> 0 \<longleftrightarrow> depletion_s B D r = None \<or> t = 0"
    using assms by (auto simp: depletion_None mult_le_0_iff)
  then have full: "?p = 100 \<longleftrightarrow> depletion_s B D r = None \<or> t = 0"
    using assms by (simp only: share_left clipped_share)
  have "reserve_pct 0 D t r = Inl ZeroDivisionError \<longleftrightarrow> r < D"
    by (auto simp: reserve_pct_def depletion_s_def py_div_def Let_def)
  then show ?thesis using reserve_pct_value [OF assms, of D r] zero full by auto
qed

theorem reserve_within_bounds_witness:
  "\<exists>p. reserve_pct 100 3 30 1 = Inr p \<and> 0 \<le> p \<and> p \<le> (100 :: rat) \<and> p = 40"
  using reserve_within_bounds [of 100 30 3 1] by auto

text \<open>A row of Table 9 for \<open>p > 0\<close> pairs: the demand is the supplied headroom's denominator, the buffer
  covers exactly that demand for the endurance, and there is a refill time exactly when the headroom
  exceeds one; then the surplus of the source over the refill time equals what the interruption of one
  hour took.\<close>

theorem table9_row_consistent:
  assumes "0 < p" and "0 < r"
  shows "\<exists>row. table9_row r B (1 / 720) p = Inr row \<and> tr_pairs row = p \<and>
      tr_headroom row * tr_demand row = r \<and> tr_endurance_h row * 3600 * tr_demand row = B \<and>
      (tr_refill_min row \<noteq> None \<longleftrightarrow> 1 < tr_headroom row) \<and>
      (\<forall>m. tr_refill_min row = Some m \<longrightarrow> (r - tr_demand row) * (m * 60) = tr_demand row * 3600)"
proof -
  define D where "D = (1 / 720 :: rat) * of_int p"
  have D: "D > 0" using assms by (simp add: D_def)
  have row: "table9_row r B (1 / 720) p = Inr \<lparr> tr_pairs = p, tr_demand = D, tr_headroom = r / D,
      tr_endurance_h = B / D / 3600, tr_refill_min = map_option (\<lambda>t. t / 60) (refill_s D 3600 r) \<rparr>"
    unfolding table9_row_def Let_def D_def [symmetric] using D by (simp add: endurance_s_def)
  have "refill_s D 3600 r \<noteq> None \<longleftrightarrow> 1 < r / D"
    using D by (simp add: refill_None not_le)
  moreover have "(r - D) * (m * 60) = D * 3600" if "map_option (\<lambda>t. t / 60) (refill_s D 3600 r) = Some m" for m
  proof -
    have net: "r - D \<noteq> 0" and m: "m * 60 = D * 3600 / (r - D)"
      using that by (auto simp: refill_s_def Let_def split: if_splits)
    show ?thesis unfolding m using net by simp
  qed
  ultimately show ?thesis unfolding row using D by (simp del: not_None_eq)
qed

theorem table9_row_consistent_witness:
  "\<exists>row. table9_row 2 100 (1 / 720) 720 = Inr row \<and> tr_headroom row * tr_demand row = 2 \<and>
     (tr_refill_min row \<noteq> None \<longleftrightarrow> 1 < tr_headroom row)"
  using table9_row_consistent [of 720 2 100] by force

text \<open>The figures draw the equations: the marked point of figure 4 is 59681, a point of figure 5 is
  \<open>reserve_pct\<close> without replenishment, and a point of figure 13 is \<open>refill_s\<close> at the demand its axis stands
  for.\<close>

theorem figures_agree:
  assumes "0 < pairs" and "0 < dur"
  shows "fig4_pairs SOURCE_RATE = Inr 59681 \<and>
    fig5_point pairs dur = reserve_pct INVENTORY (1 / 720 * pairs) (dur * 3600) 0 \<and>
    fig13_point util dur =
      bind_py (fig13_demand util dur) (\<lambda>D. Inr (map_option (\<lambda>t. t / 3600) (refill_s D (dur * 3600) SOURCE_RATE)))"
proof (intro conjI)
  show "fig4_pairs SOURCE_RATE = Inr 59681"
    by (simp add: fig4_pairs_def demand_rate_def ceiling_pairs_def SOURCE_RATE_def floor_unique)
  have "INVENTORY / (1 / 720 * pairs) \<noteq> 0" using assms by (simp add: INVENTORY_def)
  then show "fig5_point pairs dur = reserve_pct INVENTORY (1 / 720 * pairs) (dur * 3600) 0"
    using assms by (auto simp: fig5_point_def reserve_pct_def depletion_s_def Let_def max_def min_def)
  show "fig13_point util dur = bind_py (fig13_demand util dur)
      (\<lambda>D. Inr (map_option (\<lambda>t. t / 3600) (refill_s D (dur * 3600) SOURCE_RATE)))"
    using assms by (cases "fig13_demand util dur") (auto simp: fig13_point_def refill_s_def Let_def)
qed

theorem figures_agree_witness: "fig4_pairs SOURCE_RATE = Inr 59681 \<and>
    fig5_point 10 2 = reserve_pct INVENTORY (1 / 720 * 10) (2 * 3600) 0"
  using figures_agree [of 10 2] by simp

end
