(* ===== verification/Heqa.thy ===== *)
theory Heqa
  imports SimMonitor Analysis
begin

text \<open>
  \<open>src/qkd_ekm/qkd/heqa.py\<close> and \<open>src/scripts/capture_qkd.py\<close>: the client of the appliance's monitoring
  API, the best-effort capture of the Table 4 fields, and the script that adds the counters with the
  second credential. The HTTP client is the transport \<open>send\<close>, which is given the authorization header;
  a token or an SAE name that is no string raises TypeError in the model.
\<close>

type_synonym 'w transport = "string option \<Rightarrow> request \<Rightarrow> 'w \<Rightarrow> reply \<times> 'w"

definition RATE_PATHS :: "(string \<times> string) list" where
  "RATE_PATHS =
     [(''secure_bit_rate'', ''/monitoring/qkd-qtx/secure-bit-rate/current''),
      (''signal_qber'', ''/monitoring/qkd-qtx/signal-qber/current''),
      (''weak_decoy_qber'', ''/monitoring/qkd-qtx/decoy-qber/current''),
      (''signal_qber_per_state'', ''/monitoring/qkd-qtx/signal-states-qber/current''),
      (''weak_decoy_qber_per_state'', ''/monitoring/qkd-qtx/decoy-states-qber/current'')]"

definition COUNTER_FIELDS :: "(string \<times> string) list" where
  "COUNTER_FIELDS =
     [(''available_secured_bits'', ''current_bits''), (''max_key_length'', ''maximum_key_length''),
      (''available_256bit_keys'', ''num_of_256_keys_available''),
      (''consumed_bits'', ''bits_consumed_from_the_beginning''),
      (''consumed_keys'', ''keys_consumed_from_the_beginning''),
      (''key_requests'', ''key_requests_from_the_beginning''),
      (''failed_key_requests'', ''num_failed_key_requests_from_the_beginning''),
      (''generated_bits'', ''total_generated_bits''), (''deleted_bits'', ''deleted_bits'')]"

definition TABLE4_KEYS :: "string list" where
  "TABLE4_KEYS =
     [''secure_bit_rate'', ''secure_key_rate_256'', ''signal_qber'', ''weak_decoy_qber'',
      ''signal_qber_per_state'', ''weak_decoy_qber_per_state'', ''available_secured_bits'',
      ''available_256bit_keys'', ''consumed_keys'', ''consumed_bits'', ''key_requests'',
      ''failed_key_requests'', ''max_key_length'', ''generated_bits'', ''deleted_bits'']"

section \<open>The monitor\<close>

record monitor =
  m_username :: string
  m_password :: string
  m_token :: "string option"

definition HTTPStatusError :: py_error where
  "HTTPStatusError = OtherError ''HTTPStatusError''"

text \<open>What \<open>login\<close> and \<open>get\<close> make of a reply: \<open>raise_for_status\<close> lets 2xx pass.\<close>

definition monitor_reply :: "reply \<Rightarrow> json py" where
  "monitor_reply r =
     (case r of
        TransportError \<Rightarrow> Inl QkdUnavailable
      | Reply status body \<Rightarrow>
          if status = 503 \<or> status \<ge> 500 then Inl QkdUnavailable
          else if status < 200 \<or> status \<ge> 300 then Inl HTTPStatusError
          else (case body of None \<Rightarrow> Inl ValueError | Some j \<Rightarrow> Inr j))"

definition monitor_login :: "'w transport \<Rightarrow> monitor \<times> 'w \<Rightarrow> string py \<times> (monitor \<times> 'w)" where
  "monitor_login send mw =
     (case mw of (m, w) \<Rightarrow>
       (case send None (Post ''/auth/login'' (JObj [(''username'', JStr (m_username m)),
               (''password'', JStr (m_password m))])) w of
          (r, w1) \<Rightarrow>
            (case bind_py (monitor_reply r) (\<lambda>j. bind_py (obj_item j ''token'') as_str) of
               Inl e \<Rightarrow> (Inl e, (m, w1))
             | Inr t \<Rightarrow> (Inr t, (m\<lparr>m_token := Some t\<rparr>, w1)))))"

definition monitor_get :: "'w transport \<Rightarrow> string \<Rightarrow> monitor \<times> 'w \<Rightarrow> json py \<times> (monitor \<times> 'w)" where
  "monitor_get send path mw =
     (case (case m_token (fst mw) of None \<Rightarrow> monitor_login send mw | Some t \<Rightarrow> (Inr t, mw)) of
        (Inl e, mw1) \<Rightarrow> (Inl e, mw1)
      | (Inr t, (m1, w1)) \<Rightarrow>
          (case send (Some (bearer_header t)) (Get path []) w1 of (r, w2) \<Rightarrow> (monitor_reply r, (m1, w2))))"

section \<open>Capture\<close>

type_synonym capture = "(string \<times> json) list"

text \<open>\<open>result[field] = v\<close>\<close>

fun dict_put :: "string \<Rightarrow> json \<Rightarrow> capture \<Rightarrow> capture" where
  "dict_put k v [] = [(k, v)]"
| "dict_put k v ((j, u) # d) = (if j = k then (j, v) # d else (j, u) # dict_put k v d)"

definition field_of :: "capture \<Rightarrow> string \<Rightarrow> json" where
  "field_of d k = (case map_of d k of None \<Rightarrow> JNull | Some v \<Rightarrow> v)"

text \<open>The loop over the rate fields: whatever goes wrong with one leaves it None.\<close>

fun capture_rates :: "'w transport \<Rightarrow> (string \<times> string) list \<Rightarrow> capture \<Rightarrow> monitor \<times> 'w \<Rightarrow> capture \<times> (monitor \<times> 'w)" where
  "capture_rates send [] d mw = (d, mw)"
| "capture_rates send ((field, path) # rest) d mw =
     (case monitor_get send path mw of (r, mw1) \<Rightarrow>
       capture_rates send rest
         (case bind_py r (\<lambda>j. obj_item j ''value'') of Inl e \<Rightarrow> d | Inr v \<Rightarrow> dict_put field v d) mw1)"

text \<open>\<open>j[0]\<close>\<close>

definition first_item :: "json \<Rightarrow> json py" where
  "first_item j =
     (case j of
        JList (x # xs) \<Rightarrow> Inr x
      | JList [] \<Rightarrow> Inl IndexError
      | JStr (c # cs) \<Rightarrow> Inr (JStr [c])
      | JStr [] \<Rightarrow> Inl IndexError
      | JObj kvs \<Rightarrow> Inl KeyError
      | _ \<Rightarrow> Inl TypeError)"

definition status_path :: "string \<Rightarrow> string" where
  "status_path sae = ''/api/v1/keys/'' @ sae @ ''/status''"

text \<open>\<open>for field, ext_key in _COUNTER_FIELDS.items(): result[field] = ext.get(ext_key)\<close>\<close>

definition put_counters :: "json \<Rightarrow> capture \<Rightarrow> capture py" where
  "put_counters ext d =
     (case ext of
        JObj kvs \<Rightarrow> Inr (fold (\<lambda>(field, ext_key) d. dict_put field (obj_get kvs ext_key) d) COUNTER_FIELDS d)
      | _ \<Rightarrow> Inl AttributeError)"

definition capture_counters :: "'w transport \<Rightarrow> capture \<Rightarrow> monitor \<times> 'w \<Rightarrow> capture \<times> (monitor \<times> 'w)" where
  "capture_counters send d mw =
     (case monitor_get send ''/kms/key-servers'' mw of (r, mw1) \<Rightarrow>
       (case bind_py r (\<lambda>servers. bind_py (first_item servers) (\<lambda>s. bind_py (obj_item s ''slaveSAE'') as_str)) of
          Inl e \<Rightarrow> (d, mw1)
        | Inr sae \<Rightarrow>
            (case monitor_get send (status_path sae) mw1 of (r2, mw2) \<Rightarrow>
              (case bind_py r2 (\<lambda>j. bind_py (obj_item j ''status_extension'') (\<lambda>ext. put_counters ext d)) of
                 Inl e \<Rightarrow> (d, mw2)
               | Inr d' \<Rightarrow> (d', mw2)))))"

text \<open>\<open>rate / 256\<close>. The quotient of an integer by 256 is an exact rational rounded to a double, and OverflowError
  where it would round past the greatest one; a float divided by 256 never overflows.\<close>

definition per_256 :: "json \<Rightarrow> json py" where
  "per_256 rate =
     (case rate of
        JInt i \<Rightarrow> if FLOAT_END * 256 \<le> \<bar>i\<bar> then Inl OverflowError else Inr (JFloat (of_int i / 256))
      | _ \<Rightarrow> bind_py (as_num rate) (\<lambda>q. Inr (JFloat (q / 256))))"

definition monitor_capture :: "'w transport \<Rightarrow> monitor \<times> 'w \<Rightarrow> capture py \<times> (monitor \<times> 'w)" where
  "monitor_capture send mw =
     (case capture_rates send RATE_PATHS (map (\<lambda>k. (k, JNull)) TABLE4_KEYS) mw of (d, mw1) \<Rightarrow>
       (case (if field_of d ''secure_bit_rate'' = JNull then Inr d
              else bind_py (per_256 (field_of d ''secure_bit_rate'')) (\<lambda>rate.
                Inr (dict_put ''secure_key_rate_256'' rate d))) of
          Inl e \<Rightarrow> (Inl e, mw1)
        | Inr d1 \<Rightarrow> apfst Inr (capture_counters send d1 mw1)))"

section \<open>The script\<close>

record capture_args =
  a_user :: string
  a_password :: string
  a_backend :: string
  a_token :: "string option"
  a_etsi_token :: "string option"
  a_sae :: string

definition SOURCE_LABEL :: string where
  "SOURCE_LABEL = ''Secure Key Rate (256bps)''"

text \<open>\<open>_counters\<close>: the counter block with the key-delivery credential.\<close>

definition counters :: "'w transport \<Rightarrow> string \<Rightarrow> string \<Rightarrow> monitor \<times> 'w \<Rightarrow> json py \<times> (monitor \<times> 'w)" where
  "counters send etsi_token sae mw =
     (case monitor_get send (status_path sae) (apfst (\<lambda>m. m\<lparr>m_token := Some etsi_token\<rparr>) mw) of
        (r, mw1) \<Rightarrow> (bind_py r (\<lambda>j. obj_item j ''status_extension''), mw1))"

definition given :: "string option \<Rightarrow> string option" where
  "given x = (case x of Some (c # cs) \<Rightarrow> Some (c # cs) | _ \<Rightarrow> None)"

text \<open>The counters of the second pass, and what the script adds to a capture.\<close>

definition second_pass :: "'w transport \<Rightarrow> capture_args \<Rightarrow> capture \<Rightarrow> monitor \<times> 'w \<Rightarrow> capture py \<times> (monitor \<times> 'w)" where
  "second_pass send a d mw =
     (case given (a_etsi_token a) of
        Some t \<Rightarrow>
          if field_of d ''available_256bit_keys'' = JNull then
            (case counters send t (a_sae a) mw of (r, mw1) \<Rightarrow> (bind_py r (\<lambda>ext. put_counters ext d), mw1))
          else (Inr d, mw)
      | None \<Rightarrow> (Inr d, mw))"

definition provenance :: "capture_args \<Rightarrow> string \<Rightarrow> capture \<Rightarrow> capture py" where
  "provenance a stamp d =
     bind_py (if field_of d ''secure_bit_rate'' = JNull then Inr JNull
              else per_256 (field_of d ''secure_bit_rate'')) (\<lambda>rate.
     Inr (dict_put ''source_label_secure_key_rate'' (JStr SOURCE_LABEL)
           (dict_put ''backend'' (JStr (a_backend a))
             (dict_put ''captured_at'' (JStr stamp) (dict_put ''derived_256bit_rate'' rate d)))))"

definition capture_qkd :: "'w transport \<Rightarrow> capture_args \<Rightarrow> string \<Rightarrow> 'w \<Rightarrow> capture py \<times> 'w" where
  "capture_qkd send a stamp w =
     (let m = \<lparr> m_username = a_user a, m_password = a_password a, m_token = given (a_token a) \<rparr> in
      case monitor_capture send (m, w) of
        (Inl e, mw) \<Rightarrow> (Inl e, snd mw)
      | (Inr d, mw) \<Rightarrow>
          (case second_pass send a d mw of (r, mw1) \<Rightarrow> (bind_py r (provenance a stamp), snd mw1)))"

section \<open>What a capture always is\<close>

lemma keys_dict_put:
  "map fst (dict_put k v d) = (if k \<in> fst ` set d then map fst d else map fst d @ [k])"
  by (induction k v d rule: dict_put.induct) auto

lemma map_of_dict_put: "map_of (dict_put k v d) j = (if j = k then Some v else map_of d j)"
  by (induction k v d rule: dict_put.induct) auto

lemma field_of_dict_put [simp]: "field_of (dict_put k v d) j = (if j = k then v else field_of d j)"
  by (simp add: field_of_def map_of_dict_put)

lemma keys_fold_put:
  "fst ` set fs \<subseteq> fst ` set d \<Longrightarrow>
   map fst (fold (\<lambda>(field, ext_key). dict_put field (g field ext_key)) fs d) = map fst d"
proof (induction fs arbitrary: d)
  case (Cons f fs)
  obtain field ext_key where f: "f = (field, ext_key)" by (cases f)
  let ?d = "dict_put field (g field ext_key) d"
  have k: "map fst ?d = map fst d" using Cons.prems f by (simp add: keys_dict_put)
  then have "fst ` set ?d = fst ` set d" by (metis set_map)
  with Cons.IH [of ?d] Cons.prems k f show ?case by simp
qed simp

lemma capture_rates_keys:
  "fst ` set ps \<subseteq> fst ` set d \<Longrightarrow> map fst (fst (capture_rates send ps d mw)) = map fst d"
proof (induction ps arbitrary: d mw)
  case (Cons p ps)
  obtain field path where p: "p = (field, path)" by (cases p)
  obtain r mw1 where g: "monitor_get send path mw = (r, mw1)" by (cases "monitor_get send path mw")
  let ?d = "case bind_py r (\<lambda>j. obj_item j ''value'') of Inl e \<Rightarrow> d | Inr v \<Rightarrow> dict_put field v d"
  have k: "map fst ?d = map fst d" using Cons.prems p by (simp add: keys_dict_put split: sum.split)
  then have "fst ` set ?d = fst ` set d" by (metis set_map)
  with Cons.IH [of ?d mw1] Cons.prems k p g show ?case by simp
qed simp

lemma put_counters_keys:
  assumes "put_counters ext d = Inr d1" "fst ` set COUNTER_FIELDS \<subseteq> fst ` set d"
  shows "map fst d1 = map fst d"
proof -
  from assms(1) obtain kvs where
    "d1 = fold (\<lambda>(field, ext_key). dict_put field (obj_get kvs ext_key)) COUNTER_FIELDS d"
    by (auto simp: put_counters_def split: json.splits)
  with keys_fold_put [OF assms(2)] show ?thesis by simp
qed

lemma capture_counters_keys:
  assumes "fst ` set COUNTER_FIELDS \<subseteq> fst ` set d"
  shows "map fst (fst (capture_counters send d mw)) = map fst d"
  using put_counters_keys [OF _ assms]
  by (auto simp: capture_counters_def bind_py_eq_Inr split: prod.split sum.split)

lemma table4_fields: "fst ` set RATE_PATHS \<subseteq> set TABLE4_KEYS" "fst ` set COUNTER_FIELDS \<subseteq> set TABLE4_KEYS"
  "''secure_key_rate_256'' \<in> set TABLE4_KEYS"
  by (simp_all add: RATE_PATHS_def COUNTER_FIELDS_def TABLE4_KEYS_def)

text \<open>Property C34. Whatever the appliance answers, a capture has exactly the fifteen fields of Table 4 in their order,
  and the only errors are those of a bit rate that is no number, TypeError, or an integer whose quotient by
  256 no double holds, OverflowError.\<close>

theorem capture_has_table4_fields:
  "case fst (monitor_capture send mw) of
     Inr d \<Rightarrow> map fst d = TABLE4_KEYS
   | Inl e \<Rightarrow> e = TypeError \<or> e = OverflowError"
proof -
  let ?d0 = "map (\<lambda>k. (k, JNull)) TABLE4_KEYS"
  obtain d mw1 where r: "capture_rates send RATE_PATHS ?d0 mw = (d, mw1)"
    by (cases "capture_rates send RATE_PATHS ?d0 mw")
  have "fst ` set RATE_PATHS \<subseteq> fst ` set ?d0" using table4_fields(1) by (simp add: image_image)
  from capture_rates_keys [OF this, of send mw] r have d: "map fst d = TABLE4_KEYS" by (simp add: o_def)
  have put: "map fst (dict_put ''secure_key_rate_256'' v d) = TABLE4_KEYS" for v
    using d table4_fields(3) by (simp add: keys_dict_put flip: set_map)
  have cnt: "map fst (fst (capture_counters send d1 mw1)) = TABLE4_KEYS" if "map fst d1 = TABLE4_KEYS" for d1
  proof -
    have "fst ` set COUNTER_FIELDS \<subseteq> fst ` set d1" using table4_fields(2) that by (metis set_map)
    from capture_counters_keys [OF this] that show ?thesis by simp
  qed
  show ?thesis using r cnt d put
    by (auto simp: monitor_capture_def per_256_def as_num_def split: json.splits sum.splits prod.splits)
qed

end
