(* ===== verification/Capture.thy ===== *)
theory Capture
  imports Heqa
begin

text \<open>
  The capture script against the simulator: with the monitoring credentials and, where the simulator has a
  static token, the second one, the capture holds every value of the simulator; and the analysis reads its
  live table from it.
\<close>

definition authorised :: "simulator \<Rightarrow> monitor \<Rightarrow> bool" where
  "authorised sim m \<longleftrightarrow>
     (case m_token m of
        Some t \<Rightarrow> jwt_decode (s_jwt sim) t (jwt_secret (s_mon sim)) \<noteq> None
      | None \<Rightarrow> m_username m = sim_user (s_mon sim) \<and> m_password m = sim_password (s_mon sim))"

lemma login_sim:
  assumes "jwt_ok (s_jwt sim)" "m_token m = None" "authorised sim m"
  obtains t where "monitor_login (sim_serve sim) (m, s) = (Inr t, (m\<lparr>m_token := Some t\<rparr>, s))"
    "jwt_decode (s_jwt sim) t (jwt_secret (s_mon sim)) \<noteq> None"
proof -
  obtain t where t: "sim_login (s_jwt sim) (s_mon sim) (s_now sim)
      (Some (JObj [(''username'', JStr (sim_user (s_mon sim))), (''password'', JStr (sim_password (s_mon sim)))])) =
      Inr (JObj [(''token'', JStr t)])" "jwt_decode (s_jwt sim) t (jwt_secret (s_mon sim)) \<noteq> None"
    using login_token [OF assms(1)] by blast
  have "monitor_login (sim_serve sim) (m, s) = (Inr t, (m\<lparr>m_token := Some t\<rparr>, s))"
    using assms(2,3) t(1)
    by (simp add: monitor_login_def authorised_def sim_serve_def sim_reply_def monitor_reply_def obj_item_def as_str_def)
  with t(2) that show thesis by blast
qed

lemma get_sim:
  assumes "jwt_ok (s_jwt sim)" "authorised sim m"
  obtains t where "jwt_decode (s_jwt sim) t (jwt_secret (s_mon sim)) \<noteq> None"
    "monitor_get (sim_serve sim) path (m, s) =
       (case sim_serve sim (Some (bearer_header t)) (Get path []) s of
          (r, s1) \<Rightarrow> (monitor_reply r, (m\<lparr>m_token := Some t\<rparr>, s1)))"
proof (cases "m_token m")
  case None
  with assms obtain t where "monitor_login (sim_serve sim) (m, s) = (Inr t, (m\<lparr>m_token := Some t\<rparr>, s))"
    "jwt_decode (s_jwt sim) t (jwt_secret (s_mon sim)) \<noteq> None" by (blast elim: login_sim)
  with None that show thesis by (simp add: monitor_get_def)
next
  case (Some t)
  then have "m\<lparr>m_token := Some t\<rparr> = m" by simp
  with Some assms(2) that [of t] show thesis by (simp add: monitor_get_def authorised_def)
qed

lemma authorised_token: "jwt_decode (s_jwt sim) t (jwt_secret (s_mon sim)) \<noteq> None \<Longrightarrow> authorised sim (m\<lparr>m_token := Some t\<rparr>)"
  by (simp add: authorised_def)

section \<open>The rates\<close>

definition rate_value :: "monitor_config \<Rightarrow> string \<Rightarrow> json" where
  "rate_value mon field = field_of
     [(''secure_bit_rate'', JFloat (bit_rate mon)), (''signal_qber'', JFloat (signal_qber mon)),
      (''weak_decoy_qber'', JFloat (decoy_qber mon)), (''signal_qber_per_state'', SIGNAL_STATES_QBER),
      (''weak_decoy_qber_per_state'', DECOY_STATES_QBER)] field"

lemma rate_metrics:
  "\<forall>fp \<in> set RATE_PATHS. \<exists>metric.
     split_on CHR ''/'' (snd fp) = [[], ''monitoring'', ''qkd-qtx'', metric, ''current''] \<and>
     map_of (metric_values mon) metric = Some (rate_value mon (fst fp))"
  by (simp add: RATE_PATHS_def metric_values_def rate_value_def field_of_def)

lemma serve_metric:
  assumes "(field, path) \<in> set RATE_PATHS" "jwt_decode (s_jwt sim) t (jwt_secret (s_mon sim)) \<noteq> None"
  shows "sim_serve sim (Some (bearer_header t)) (Get path []) s =
    (Reply 200 (Some (JObj [(''time'', JStr (s_stamp sim)), (''value'', rate_value (s_mon sim) field)])), s)"
proof -
  from assms(1) rate_metrics [of "s_mon sim"] obtain metric where
    "split_on CHR ''/'' path = [[], ''monitoring'', ''qkd-qtx'', metric, ''current'']"
    "map_of (metric_values (s_mon sim)) metric = Some (rate_value (s_mon sim) field)" by fastforce
  with assms(2) show ?thesis by (auto simp: sim_serve_def sim_monitoring_def sim_reply_def)
qed

lemma get_rate:
  assumes "jwt_ok (s_jwt sim)" "authorised sim m" "(field, path) \<in> set RATE_PATHS"
  obtains m' where "authorised sim m'"
    "monitor_get (sim_serve sim) path (m, s) =
       (Inr (JObj [(''time'', JStr (s_stamp sim)), (''value'', rate_value (s_mon sim) field)]), (m', s))"
proof -
  obtain t where t: "jwt_decode (s_jwt sim) t (jwt_secret (s_mon sim)) \<noteq> None"
    "monitor_get (sim_serve sim) path (m, s) =
       (case sim_serve sim (Some (bearer_header t)) (Get path []) s of
          (r, s1) \<Rightarrow> (monitor_reply r, (m\<lparr>m_token := Some t\<rparr>, s1)))"
    using get_sim [OF assms(1,2)] by blast
  show thesis
    using that [OF authorised_token [OF t(1), of m]] t(2) serve_metric [OF assms(3) t(1), of s]
    by (simp add: monitor_reply_def)
qed

lemma capture_rates_sim:
  assumes "jwt_ok (s_jwt sim)"
  shows "set ps \<subseteq> set RATE_PATHS \<Longrightarrow> authorised sim m \<Longrightarrow> \<exists>m'. authorised sim m' \<and>
    capture_rates (sim_serve sim) ps d (m, s) =
      (fold (\<lambda>(f, p). dict_put f (rate_value (s_mon sim) f)) ps d, (m', s))"
proof (induction ps arbitrary: d m)
  case Nil
  then show ?case by auto
next
  case (Cons p ps)
  obtain field path where p: "p = (field, path)" by (cases p)
  with Cons.prems obtain m1 where m1: "authorised sim m1"
    "monitor_get (sim_serve sim) path (m, s) =
       (Inr (JObj [(''time'', JStr (s_stamp sim)), (''value'', rate_value (s_mon sim) field)]), (m1, s))"
    using get_rate [OF assms, of m field path s] by auto
  from Cons.IH [OF _ m1(1), of "dict_put field (rate_value (s_mon sim) field) d"] Cons.prems p m1(2)
  show ?case by (simp add: obj_item_def)
qed

section \<open>The counters\<close>

definition counter_block :: "simulator \<Rightarrow> key_store \<Rightarrow> (string \<times> json) list" where
  "counter_block sim s =
     [(''current_bits'', JInt (generated_bits (s_now sim) s - deleted_bits s)),
      (''maximum_key_length'', JInt MAX_KEY_SIZE),
      (''num_of_256_keys_available'', JInt (available_256bit_keys s)),
      (''bits_consumed_from_the_beginning'', JInt (consumed_bits s)),
      (''keys_consumed_from_the_beginning'', JInt (consumed_keys s)),
      (''key_requests_from_the_beginning'', JInt (key_requests s)),
      (''num_failed_key_requests_from_the_beginning'', JInt (failed_key_requests s)),
      (''total_generated_bits'', JInt (generated_bits (s_now sim) s)),
      (''deleted_bits'', JInt (deleted_bits s))]"

definition counted :: "simulator \<Rightarrow> key_store \<Rightarrow> capture \<Rightarrow> capture" where
  "counted sim s d = fold (\<lambda>(field, ext_key). dict_put field (obj_get (counter_block sim s) ext_key)) COUNTER_FIELDS d"

lemma put_counter_block: "put_counters (JObj (counter_block sim s)) d = Inr (counted sim s d)"
  by (simp add: put_counters_def counted_def)

lemma counted_fields:
  "field_of (counted sim s d) k =
     (case map_of COUNTER_FIELDS k of
        None \<Rightarrow> field_of d k
      | Some ext_key \<Rightarrow> obj_get (counter_block sim s) ext_key)"
  by (simp add: counted_def COUNTER_FIELDS_def)

lemma status_path_split:
  "CHR ''/'' \<notin> set sae \<Longrightarrow> split_on CHR ''/'' (status_path sae) = [[], ''api'', ''v1'', ''keys'', sae, ''status'']"
  using split_on_prefix [of "CHR ''/''" sae "''status''"] by (simp add: status_path_def)

lemma serve_status:
  assumes "CHR ''/'' \<notin> set sae"
  shows "sim_serve sim a (Get (status_path sae) []) s = (sim_reply (sim_status (s_cfg sim) a sae (s_now sim) s), s)"
  by (simp add: sim_serve_def status_path_split [OF assms])

lemma sim_status_block:
  assumes "sae \<in> set (saes (s_cfg sim))" "sim_token (s_cfg sim) = None \<or> sim_token (s_cfg sim) = Some t"
  shows "bind_py (monitor_reply (sim_reply (sim_status (s_cfg sim) (Some (bearer_header t)) sae (s_now sim) s)))
    (\<lambda>j. obj_item j ''status_extension'') = Inr (JObj (counter_block sim s))"
  using assms by (simp add: sim_status_def require_sae_def sim_reply_def monitor_reply_def obj_item_def counter_block_def)

lemma sim_status_refused:
  assumes "sim_token (s_cfg sim) = Some u" "u \<noteq> t"
  shows "monitor_reply (sim_reply (sim_status (s_cfg sim) (Some (bearer_header t)) sae (s_now sim) s)) = Inl HTTPStatusError"
  using assms by (simp add: sim_status_def sim_reply_def monitor_reply_def)

text \<open>The first pass gets the counters or leaves them alone.\<close>

lemma capture_counters_sim:
  assumes "jwt_ok (s_jwt sim)" "authorised sim m" "saes (s_cfg sim) = m1 # sl # rest" "CHR ''/'' \<notin> set sl"
  shows "\<exists>m' d'. capture_counters (sim_serve sim) d (m, s) = (d', (m', s)) \<and>
    (d' = counted sim s d \<or> d' = d \<and> sim_token (s_cfg sim) \<noteq> None)"
proof -
  obtain t where t: "jwt_decode (s_jwt sim) t (jwt_secret (s_mon sim)) \<noteq> None"
    "monitor_get (sim_serve sim) ''/kms/key-servers'' (m, s) =
       (case sim_serve sim (Some (bearer_header t)) (Get ''/kms/key-servers'' []) s of
          (r, s1) \<Rightarrow> (monitor_reply r, (m\<lparr>m_token := Some t\<rparr>, s1)))"
    using get_sim [OF assms(1,2)] by blast
  have servers: "monitor_get (sim_serve sim) ''/kms/key-servers'' (m, s) =
      (Inr (JList [JObj [(''id'', JStr (m1 @ ''-'' @ sl)), (''masterSAE'', JStr m1), (''slaveSAE'', JStr sl)]]),
       (m\<lparr>m_token := Some t\<rparr>, s))"
    using t assms(3) by (auto simp: sim_serve_def sim_key_servers_def sim_reply_def monitor_reply_def)
  let ?m = "m\<lparr>m_token := Some t\<rparr>"
  obtain u where u: "monitor_get (sim_serve sim) (status_path sl) (?m, s) =
      (monitor_reply (sim_reply (sim_status (s_cfg sim) (Some (bearer_header u)) sl (s_now sim) s)), (m\<lparr>m_token := Some u\<rparr>, s))"
    using get_sim [OF assms(1) authorised_token [OF t(1), of m], of "status_path sl" s]
    by (auto simp: serve_status [OF assms(4)])
  have sl: "sl \<in> set (saes (s_cfg sim))" using assms(3) by simp
  let ?q = "monitor_reply (sim_reply (sim_status (s_cfg sim) (Some (bearer_header u)) sl (s_now sim) s))"
  have c: "capture_counters (sim_serve sim) d (m, s) =
      (case bind_py (bind_py ?q (\<lambda>j. obj_item j ''status_extension'')) (\<lambda>ext. put_counters ext d) of
         Inl e \<Rightarrow> (d, (m\<lparr>m_token := Some u\<rparr>, s)) | Inr d' \<Rightarrow> (d', (m\<lparr>m_token := Some u\<rparr>, s)))"
    unfolding capture_counters_def servers
    by (simp add: first_item_def obj_item_def [of "JObj _" "''slaveSAE''"] as_str_def u bind_py_assoc)
  show ?thesis
  proof (cases "sim_token (s_cfg sim) = None \<or> sim_token (s_cfg sim) = Some u")
    case True
    then show ?thesis using c sim_status_block [OF sl True, of s] by (simp add: put_counter_block)
  next
    case False
    then obtain v where v: "sim_token (s_cfg sim) = Some v" "v \<noteq> u" by auto
    show ?thesis using c sim_status_refused [OF v, of sl s] v by simp
  qed
qed

section \<open>The whole capture\<close>

definition rated :: "simulator \<Rightarrow> capture" where
  "rated sim = fold (\<lambda>(f, p). dict_put f (rate_value (s_mon sim) f)) RATE_PATHS (map (\<lambda>k. (k, JNull)) TABLE4_KEYS)"

definition with_rates :: "simulator \<Rightarrow> capture" where
  "with_rates sim = dict_put ''secure_key_rate_256'' (JFloat (bit_rate (s_mon sim) / 256)) (rated sim)"

lemma field_of_none: "field_of (map (\<lambda>k. (k, JNull)) ks) k = JNull"
  by (induction ks) (auto simp: field_of_def)

lemma rated_fields:
  "field_of (rated sim) k = (if k \<in> fst ` set RATE_PATHS then rate_value (s_mon sim) k else JNull)"
  by (simp add: rated_def RATE_PATHS_def field_of_none)

lemma rate_value_rate [simp]: "rate_value mon ''secure_bit_rate'' = JFloat (bit_rate mon)"
  by (simp add: rate_value_def field_of_def)

lemma with_rates_fields:
  "field_of (with_rates sim) k =
     (if k = ''secure_key_rate_256'' then JFloat (bit_rate (s_mon sim) / 256) else field_of (rated sim) k)"
  by (simp add: with_rates_def)

lemma monitor_capture_sim:
  assumes "jwt_ok (s_jwt sim)" "authorised sim m" "saes (s_cfg sim) = m1 # sl # rest" "CHR ''/'' \<notin> set sl"
  shows "\<exists>m' d. monitor_capture (sim_serve sim) (m, s) = (Inr d, (m', s)) \<and>
    (d = counted sim s (with_rates sim) \<or> d = with_rates sim \<and> sim_token (s_cfg sim) \<noteq> None)"
proof -
  obtain m2 where m2: "authorised sim m2"
    "capture_rates (sim_serve sim) RATE_PATHS (map (\<lambda>k. (k, JNull)) TABLE4_KEYS) (m, s) = (rated sim, (m2, s))"
    using capture_rates_sim [OF assms(1) subset_refl assms(2)] unfolding rated_def by blast
  have rate: "field_of (rated sim) ''secure_bit_rate'' = JFloat (bit_rate (s_mon sim))"
    by (simp add: rated_fields RATE_PATHS_def)
  obtain m' d where c: "capture_counters (sim_serve sim) (with_rates sim) (m2, s) = (d, (m', s))"
    "d = counted sim s (with_rates sim) \<or> d = with_rates sim \<and> sim_token (s_cfg sim) \<noteq> None"
    using capture_counters_sim [OF assms(1) m2(1) assms(3,4)] by blast
  then show ?thesis using m2(2) rate by (simp add: monitor_capture_def per_256_def as_num_def with_rates_def)
qed

lemma counters_sim:
  assumes "sae \<in> set (saes (s_cfg sim))" "CHR ''/'' \<notin> set sae" "sim_token (s_cfg sim) = Some t"
  shows "counters (sim_serve sim) t sae (m, s) = (Inr (JObj (counter_block sim s)), (m\<lparr>m_token := Some t\<rparr>, s))"
  using sim_status_block [OF assms(1), of t s] assms(3)
  by (simp add: counters_def monitor_get_def serve_status [OF assms(2)])

lemma field_avail:
  "field_of (with_rates sim) ''available_256bit_keys'' = JNull"
  "field_of (counted sim s (with_rates sim)) ''available_256bit_keys'' = JInt (available_256bit_keys s)"
  by (simp_all add: with_rates_fields rated_fields RATE_PATHS_def counted_fields COUNTER_FIELDS_def
      counter_block_def obj_get_def)

definition finished :: "capture_args \<Rightarrow> string \<Rightarrow> simulator \<Rightarrow> key_store \<Rightarrow> capture" where
  "finished a stamp sim s =
     dict_put ''source_label_secure_key_rate'' (JStr SOURCE_LABEL)
       (dict_put ''backend'' (JStr (a_backend a))
         (dict_put ''captured_at'' (JStr stamp)
           (dict_put ''derived_256bit_rate'' (JFloat (bit_rate (s_mon sim) / 256))
             (counted sim s (with_rates sim)))))"

lemma capture_qkd_sim:
  assumes "jwt_ok (s_jwt sim)" "a_user a = sim_user (s_mon sim)" "a_password a = sim_password (s_mon sim)"
    and "given (a_token a) = None"
    and "saes (s_cfg sim) = m1 # sl # rest" "CHR ''/'' \<notin> set sl"
    and "a_sae a \<in> set (saes (s_cfg sim))" "CHR ''/'' \<notin> set (a_sae a)"
    and "sim_token (s_cfg sim) = None \<or> given (a_etsi_token a) = sim_token (s_cfg sim)"
  shows "capture_qkd (sim_serve sim) a stamp s = (Inr (finished a stamp sim s), s)"
proof -
  let ?m = "\<lparr> m_username = a_user a, m_password = a_password a, m_token = given (a_token a) \<rparr>"
  have "authorised sim ?m" using assms(2-4) by (simp add: authorised_def)
  from monitor_capture_sim [OF assms(1) this assms(5,6)] obtain m' d where
    c: "monitor_capture (sim_serve sim) (?m, s) = (Inr d, (m', s))"
    and d: "d = counted sim s (with_rates sim) \<or> d = with_rates sim \<and> sim_token (s_cfg sim) \<noteq> None" by blast
  have "\<exists>m2. second_pass (sim_serve sim) a d (m', s) = (Inr (counted sim s (with_rates sim)), (m2, s))"
    using d
  proof
    assume "d = counted sim s (with_rates sim)"
    then show ?thesis using field_avail(2) by (auto simp: second_pass_def split: option.split)
  next
    assume d: "d = with_rates sim \<and> sim_token (s_cfg sim) \<noteq> None"
    then obtain u where u: "sim_token (s_cfg sim) = Some u" "given (a_etsi_token a) = Some u"
      using assms(9) by auto
    show ?thesis using d u field_avail(1)
      by (simp add: second_pass_def counters_sim [OF assms(7,8) u(1)] put_counter_block)
  qed
  moreover have "field_of (counted sim s (with_rates sim)) ''secure_bit_rate'' = JFloat (bit_rate (s_mon sim))"
    by (simp add: counted_fields COUNTER_FIELDS_def with_rates_fields rated_fields RATE_PATHS_def)
  ultimately show ?thesis using c
    by (auto simp: capture_qkd_def provenance_def finished_def per_256_def as_num_def)
qed

section \<open>What the analysis reads\<close>

lemma distinct_dict_put: "distinct (map fst d) \<Longrightarrow> distinct (map fst (dict_put k v d))"
  by (simp add: keys_dict_put)

lemma distinct_fold_put:
  "distinct (map fst d) \<Longrightarrow> distinct (map fst (fold (\<lambda>(f, x). dict_put f (g f x)) fs d))"
  by (induction fs arbitrary: d) (auto simp: distinct_dict_put split: prod.splits)

lemma distinct_finished: "distinct (map fst (finished a stamp sim s))"
proof -
  have "distinct (map fst (map (\<lambda>k. (k, JNull)) TABLE4_KEYS))" by (simp add: TABLE4_KEYS_def o_def)
  then have "distinct (map fst (rated sim))" unfolding rated_def by (rule distinct_fold_put)
  then show ?thesis unfolding finished_def with_rates_def counted_def
    by (intro distinct_dict_put distinct_fold_put)
qed

lemma py_get_field: "distinct (map fst d) \<Longrightarrow> py_get (JObj d) k JNull = Inr (field_of d k)"
proof -
  assume "distinct (map fst d)"
  then have "map_of (rev d) = map_of d"
    by (intro map_of_eqI) (auto simp: rev_map [symmetric] dest!: map_of_SomeD intro: map_of_is_SomeI)
  then show ?thesis by (simp add: py_get_def field_of_def)
qed

lemma finished_fields:
  "field_of (finished a stamp sim s) ''derived_256bit_rate'' = JFloat (bit_rate (s_mon sim) / 256)"
  "field_of (finished a stamp sim s) ''source_rate_units_per_s'' = JNull"
  "field_of (finished a stamp sim s) ''available_256bit_keys'' = JInt (available_256bit_keys s)"
  "field_of (finished a stamp sim s) ''inventory_units'' = JNull"
  "field_of (finished a stamp sim s) ''backend'' = JStr (a_backend a)"
  "field_of (finished a stamp sim s) ''secure_key_rate_256'' = JFloat (bit_rate (s_mon sim) / 256)"
  using field_avail(2) [of sim s]
  by (simp_all add: finished_def counted_fields COUNTER_FIELDS_def with_rates_fields rated_fields RATE_PATHS_def)

lemma finished_rates:
  "\<forall>fp \<in> set RATE_PATHS. field_of (finished a stamp sim s) (fst fp) = rate_value (s_mon sim) (fst fp)"
  by (simp add: finished_def RATE_PATHS_def counted_fields COUNTER_FIELDS_def with_rates_fields rated_fields)

lemma finished_counters:
  "\<forall>fk \<in> set COUNTER_FIELDS. field_of (finished a stamp sim s) (fst fk) = obj_get (counter_block sim s) (snd fk)"
  by (simp add: finished_def COUNTER_FIELDS_def counted_fields)

lemma live_finished:
  "live_table (Some (JObj (finished a stamp sim s))) =
     (if bit_rate (s_mon sim) = 0 \<or> available_256bit_keys s = 0 then Inr None
      else map_sum id Some (table9 (bit_rate (s_mon sim) / 256) (of_int (available_256bit_keys s)) TABLE9_PAIRS))"
proof -
  have "finished a stamp sim s \<noteq> []" using finished_fields(5) [of a stamp sim s] by (auto simp: field_of_def)
  then show ?thesis
    by (simp add: live_table_def py_get_field [OF distinct_finished] finished_fields py_or_def as_num_def)
qed

text \<open>A capture of the simulator with the monitoring credentials and, where it has a static token, that
  token too, holds every rate and every counter of the simulator, changes nothing there, and the live
  Table 9 of the analysis is computed from the captured rate and inventory.\<close>

theorem capture_reads_simulator:
  assumes "jwt_ok (s_jwt sim)" and "a_user a = sim_user (s_mon sim)" and "a_password a = sim_password (s_mon sim)"
    and "given (a_token a) = None"
    and "saes (s_cfg sim) = m1 # sl # rest" and "CHR ''/'' \<notin> set sl"
    and "a_sae a \<in> set (saes (s_cfg sim))" and "CHR ''/'' \<notin> set (a_sae a)"
    and "sim_token (s_cfg sim) = None \<or> given (a_etsi_token a) = sim_token (s_cfg sim)"
  shows "\<exists>d. capture_qkd (sim_serve sim) a stamp s = (Inr d, s) \<and>
    (\<forall>(field, path) \<in> set RATE_PATHS. field_of d field = rate_value (s_mon sim) field) \<and>
    (\<forall>(field, key) \<in> set COUNTER_FIELDS. field_of d field = obj_get (counter_block sim s) key) \<and>
    field_of d ''secure_key_rate_256'' = JFloat (bit_rate (s_mon sim) / 256) \<and>
    live_table (Some (JObj d)) =
      (if bit_rate (s_mon sim) = 0 \<or> available_256bit_keys s = 0 then Inr None
       else map_sum id Some (table9 (bit_rate (s_mon sim) / 256) (of_int (available_256bit_keys s)) TABLE9_PAIRS))"
proof -
  let ?d = "finished a stamp sim s"
  have "\<forall>(field, path) \<in> set RATE_PATHS. field_of ?d field = rate_value (s_mon sim) field"
    "\<forall>(field, key) \<in> set COUNTER_FIELDS. field_of ?d field = obj_get (counter_block sim s) key"
    using finished_rates [of a stamp sim s] finished_counters [of a stamp sim s] by auto
  then show ?thesis
    using capture_qkd_sim [OF assms, of stamp s] finished_fields(6) [of a stamp sim s] live_finished [of a stamp sim s]
    by blast
qed

text \<open>A JWT library that signs with the secret itself.\<close>

definition demo_jwt :: jwt where
  "demo_jwt = \<lparr> jwt_encode = (\<lambda>c s. s), jwt_decode = (\<lambda>t s. if t = s then Some JNull else None) \<rparr>"

definition demo_sim :: simulator where
  "demo_sim = \<lparr> s_cfg = \<lparr> saes = [''QKD1'', ''QKD2''], sim_token = Some ''tok'' \<rparr>,
     s_mon = \<lparr> sim_user = ''admin'', sim_password = ''pw'', bit_rate = 21220, signal_qber = 8 / 10,
       decoy_qber = 1, jwt_secret = ''secret'' \<rparr>,
     s_jwt = demo_jwt, s_rand = demo_rand, s_now = 10, s_stamp = ''now'' \<rparr>"

definition demo_args :: capture_args where
  "demo_args = \<lparr> a_user = ''admin'', a_password = ''pw'', a_backend = ''sim'', a_token = None,
     a_etsi_token = Some ''tok'', a_sae = ''QKD2'' \<rparr>"

theorem capture_reads_simulator_witness:
  "\<exists>d. capture_qkd (sim_serve demo_sim) demo_args ''now'' (KeyStore 83 1000 0) = (Inr d, KeyStore 83 1000 0) \<and>
     field_of d ''secure_key_rate_256'' = JFloat (21220 / 256) \<and>
     live_table (Some (JObj d)) = map_sum id Some (table9 (21220 / 256) 1000 TABLE9_PAIRS)"
proof -
  have "jwt_ok (s_jwt demo_sim)" "a_user demo_args = sim_user (s_mon demo_sim)"
    "a_password demo_args = sim_password (s_mon demo_sim)" "given (a_token demo_args) = None"
    "saes (s_cfg demo_sim) = ''QKD1'' # ''QKD2'' # []" "CHR ''/'' \<notin> set ''QKD2''"
    "a_sae demo_args \<in> set (saes (s_cfg demo_sim))" "CHR ''/'' \<notin> set (a_sae demo_args)"
    "sim_token (s_cfg demo_sim) = None \<or> given (a_etsi_token demo_args) = sim_token (s_cfg demo_sim)"
    by (simp_all add: jwt_ok_def demo_sim_def demo_jwt_def demo_args_def given_def)
  from capture_reads_simulator [OF this, of "''now''" "KeyStore 83 1000 0"] show ?thesis
    by (auto simp: demo_sim_def KeyStore_def available_256bit_keys_def)
qed

end
