(* ===== verification/SimMain.thy ===== *)
theory SimMain
  imports Capture EntryPoints
begin

text \<open>
  \<open>src/qkd_ekm/qkdsim/__main__.py\<close> and what \<open>create_app\<close> of the simulator reads from the environment. With the
  default settings, the capture script and the analysis give Table 9 for the rate and the inventory that the
  analysis has as constants. uvicorn is not modelled.
\<close>

text \<open>\<open>create_app\<close>: the configuration of the routes; \<open>rate\<close> is \<open>store.rate_units_per_s\<close>, \<open>secret\<close> the random
  secret of the process.\<close>

definition sim_create_app :: "environ \<Rightarrow> rat \<Rightarrow> string \<Rightarrow> (sim_config \<times> monitor_config) py" where
  "sim_create_app environ rate secret =
     (let cfg = \<lparr> saes = parse_saes (env_or environ ''SIM_SAES'' ''QKD1,QKD2''), sim_token = environ ''SIM_TOKEN'' \<rparr>
      in bind_py (float_env environ ''SIM_SECURE_BIT_RATE'' (rate * 256)) (\<lambda>bits.
         bind_py (float_env environ ''SIM_SIGNAL_QBER'' (8 / 10)) (\<lambda>signal1.
         bind_py (float_env environ ''SIM_DECOY_QBER'' 1) (\<lambda>decoy1.
         Inr (cfg, \<lparr> sim_user = env_or environ ''SIM_USER'' ''admin'', sim_password = env_or environ ''SIM_PASSWORD'' ''admin'',
                bit_rate = bits, signal_qber = signal1, decoy_qber = decoy1, jwt_secret = secret \<rparr>)))))"

text \<open>\<open>main\<close>: the configuration, the store, the port and the TLS arguments.\<close>

definition sim_main ::
  "environ \<Rightarrow> string \<Rightarrow> rat \<Rightarrow> ((sim_config \<times> monitor_config) \<times> key_store \<times> int \<times> (string \<times> string) list) py" where
  "sim_main environ secret now =
     (let s = KeyStore (82890625 / 1000000) 3275971 now
      in bind_py (sim_create_app environ (rate_units_per_s s) secret) (\<lambda>app.
         bind_py (int_env environ ''SIM_PORT'' 8200) (\<lambda>port.
         Inr (app, s, port,
           case (environ ''SIM_TLS_CERT'', environ ''SIM_TLS_KEY'') of
             (Some (c # cs), Some (k # ks)) \<Rightarrow> [(''ssl_certfile'', c # cs), (''ssl_keyfile'', k # ks)]
           | _ \<Rightarrow> []))))"

lemma sim_main_default:
  assumes "sim_main environ secret now = Inr ((cfg, mon), s, port, ssl)"
    and "environ ''SIM_SAES'' = None" "environ ''SIM_SECURE_BIT_RATE'' = None"
  shows "saes cfg = [''QKD1'', ''QKD2'']" "sim_token cfg = environ ''SIM_TOKEN''"
    "sim_user mon = env_or environ ''SIM_USER'' ''admin''" "sim_password mon = env_or environ ''SIM_PASSWORD'' ''admin''"
    "bit_rate mon = SOURCE_RATE * 256" "of_int (available_256bit_keys s) = INVENTORY"
proof -
  have p: "parse_saes ''QKD1,QKD2'' = [''QKD1'', ''QKD2'']" by code_simp
  have d: "env_or environ ''SIM_SAES'' ''QKD1,QKD2'' = ''QKD1,QKD2''"
    "float_env environ ''SIM_SECURE_BIT_RATE'' x = Inr x" for x
    using assms(2,3) by (simp_all add: env_or_def float_env_def)
  have "saes cfg = [''QKD1'', ''QKD2''] \<and> sim_token cfg = environ ''SIM_TOKEN'' \<and>
     sim_user mon = env_or environ ''SIM_USER'' ''admin'' \<and> sim_password mon = env_or environ ''SIM_PASSWORD'' ''admin'' \<and>
     bit_rate mon = SOURCE_RATE * 256 \<and> s = KeyStore (82890625 / 1000000) 3275971 now"
    using assms(1)
    by (auto simp: sim_main_def sim_create_app_def d p Let_def bind_py_eq_Inr KeyStore_def SOURCE_RATE_def)
  then show "saes cfg = [''QKD1'', ''QKD2'']" "sim_token cfg = environ ''SIM_TOKEN''"
    "sim_user mon = env_or environ ''SIM_USER'' ''admin''" "sim_password mon = env_or environ ''SIM_PASSWORD'' ''admin''"
    "bit_rate mon = SOURCE_RATE * 256" "of_int (available_256bit_keys s) = INVENTORY"
    by (auto simp: KeyStore_def available_256bit_keys_def INVENTORY_def)
qed

text \<open>Property C4. The simulator as it starts when its environment leaves the SAEs and the bit rate alone, captured with its
  own credentials and its static token, gives the live Table 9 that the analysis computes from its constants,
  row by row the one published; the capture changes nothing in the simulator.\<close>

theorem default_simulator_gives_table9:
  assumes "sim_main environ secret now = Inr ((cfg, mon), s, port, ssl)"
    and "environ ''SIM_SAES'' = None" and "environ ''SIM_SECURE_BIT_RATE'' = None"
    and "jwt_ok j" and "sim = \<lparr> s_cfg = cfg, s_mon = mon, s_jwt = j, s_rand = rand, s_now = later, s_stamp = stamp \<rparr>"
    and "a_user a = env_or environ ''SIM_USER'' ''admin''" and "a_password a = env_or environ ''SIM_PASSWORD'' ''admin''"
    and "given (a_token a) = None" and "a_sae a \<in> {''QKD1'', ''QKD2''}"
    and "environ ''SIM_TOKEN'' = None \<or> given (a_etsi_token a) = environ ''SIM_TOKEN''"
  shows "\<exists>d. capture_qkd (sim_serve sim) a stamp1 s = (Inr d, s) \<and>
    live_table (Some (JObj d)) = map_sum id Some (table9 SOURCE_RATE INVENTORY TABLE9_PAIRS)"
proof -
  note cfg = sim_main_default [OF assms(1-3)]
  have "capture_qkd (sim_serve sim) a stamp1 s = (Inr (finished a stamp1 sim s), s)"
    by (rule capture_qkd_sim) (use assms(4-10) cfg in auto)
  moreover have "live_table (Some (JObj (finished a stamp1 sim s))) =
      map_sum id Some (table9 SOURCE_RATE INVENTORY TABLE9_PAIRS)"
    using live_finished [of a stamp1 sim s] assms(5) cfg(5,6) by (simp add: SOURCE_RATE_def INVENTORY_def)
  ultimately show ?thesis by blast
qed

definition sim_environ :: environ where
  "sim_environ = map_of [(''SIM_TOKEN'', ''tok''), (''SIM_PASSWORD'', ''pw'')]"

theorem default_simulator_gives_table9_witness:
  "\<exists>cfg mon s port ssl d. sim_main sim_environ ''secret'' 0 = Inr ((cfg, mon), s, port, ssl) \<and>
     capture_qkd (sim_serve \<lparr> s_cfg = cfg, s_mon = mon, s_jwt = demo_jwt, s_rand = demo_rand, s_now = 9, s_stamp = ''now'' \<rparr>)
       demo_args ''now'' s = (Inr d, s) \<and>
     live_table (Some (JObj d)) = map_sum id Some (table9 SOURCE_RATE INVENTORY TABLE9_PAIRS)"
proof -
  have "\<exists>cfg mon s port ssl. sim_main sim_environ ''secret'' 0 = Inr ((cfg, mon), s, port, ssl)"
    by (simp add: sim_main_def sim_create_app_def sim_environ_def env_or_def float_env_def int_env_def Let_def)
  then obtain cfg mon s port ssl where m: "sim_main sim_environ ''secret'' 0 = Inr ((cfg, mon), s, port, ssl)" by blast
  have "sim_environ ''SIM_SAES'' = None" "sim_environ ''SIM_SECURE_BIT_RATE'' = None" "jwt_ok demo_jwt"
    "a_user demo_args = env_or sim_environ ''SIM_USER'' ''admin''"
    "a_password demo_args = env_or sim_environ ''SIM_PASSWORD'' ''admin''"
    "given (a_token demo_args) = None" "a_sae demo_args \<in> {''QKD1'', ''QKD2''}"
    "sim_environ ''SIM_TOKEN'' = None \<or> given (a_etsi_token demo_args) = sim_environ ''SIM_TOKEN''"
    by (simp_all add: sim_environ_def env_or_def demo_args_def jwt_ok_def demo_jwt_def given_def)
  from default_simulator_gives_table9 [OF m this(1-3) refl this(4-8)] m show ?thesis by blast
qed

end
