(* ===== verification/Doubles.thy ===== *)
theory Doubles
  imports PyValues "HOL-Library.Log_Nat"
begin

text \<open>
  Python floats: \<open>fl x\<close> is the binary64 number nearest to \<open>x\<close>, ties to even, with gradual underflow. Values
  from \<open>2 ^ 1024\<close> on, which are infinities in Python, are outside the model. \<open>rel n x y\<close> says that \<open>x\<close> is \<open>y\<close> up
  to \<open>n\<close> units of \<open>1 / 2 ^ 50\<close>; the operations add up these units.
\<close>

section \<open>Rounding to binary64\<close>

text \<open>The binary exponent of a positive number.\<close>

definition exponent2 :: "rat \<Rightarrow> int" where
  "exponent2 q =
     (case quotient_of q of (n, d) \<Rightarrow>
        let e = bitlen n - bitlen d in if 2 powi e \<le> q then e else e - 1)"

definition fl :: "rat \<Rightarrow> rat" where
  "fl x =
     (if x = 0 then 0
      else let u = 2 powi max (exponent2 \<bar>x\<bar> - 52) (- 1074) in of_int (round_even (x / u)) * u)"

lemma powi_bitlen:
  assumes "0 < n"
  shows "2 powi (bitlen n - 1) \<le> (of_int n :: rat)" "(of_int n :: rat) < 2 powi bitlen n"
proof -
  have b: "0 < bitlen n"
  proof (rule ccontr)
    assume "\<not> 0 < bitlen n"
    with bitlen_bounds [OF assms] assms show False by simp
  qed
  from bitlen_bounds [OF assms] have "(2 :: int) ^ nat (bitlen n - 1) \<le> n" "n < 2 ^ nat (bitlen n)" by simp_all
  then have "of_int (2 ^ nat (bitlen n - 1)) \<le> (of_int n :: rat)" "(of_int n :: rat) < of_int (2 ^ nat (bitlen n))"
    by (simp_all only: of_int_le_iff of_int_less_iff)
  then show "2 powi (bitlen n - 1) \<le> (of_int n :: rat)" "(of_int n :: rat) < 2 powi bitlen n"
    using b by (simp_all add: power_int_def)
qed

lemma exponent2_le:
  assumes "0 < q"
  shows "2 powi exponent2 q \<le> q"
proof -
  obtain n d where q: "quotient_of q = (n, d)" by (cases "quotient_of q")
  have d: "0 < d" and r: "q = of_int n / of_int d" using q by (auto dest: quotient_of_denom_pos quotient_of_div)
  have n: "0 < n" using assms d r by (simp add: zero_less_divide_iff)
  have "2 powi (bitlen n - 1 - bitlen d) = 2 powi (bitlen n - 1) / (2 powi bitlen d :: rat)" by (simp add: power_int_diff)
  also have "\<dots> \<le> of_int n / of_int d"
    using powi_bitlen(1) [OF n] powi_bitlen(2) [OF d] n d by (intro frac_le) simp_all
  finally have "2 powi (bitlen n - bitlen d - 1) \<le> q" unfolding r by (simp add: algebra_simps)
  then show ?thesis by (simp add: exponent2_def q Let_def)
qed

lemma round_even_error: "\<bar>of_int (round_even q) - q\<bar> \<le> 1 / 2"
proof -
  have "of_int \<lfloor>q\<rfloor> \<le> q" "q < of_int \<lfloor>q\<rfloor> + 1" by linarith+
  then show ?thesis by (auto simp: round_even_def Let_def abs_le_iff)
qed

text \<open>Half a unit in the last place: a relative error of \<open>1 / 2 ^ 53\<close>, or next to nothing near zero.\<close>

lemma fl_error: "\<bar>fl x - x\<bar> \<le> \<bar>x\<bar> / 2 ^ 53 + 1 / 2 ^ 1075"
proof (cases "x = 0")
  case False
  define e where "e = max (exponent2 \<bar>x\<bar> - 52) (- 1074)"
  let ?u = "2 powi e :: rat"
  have u: "0 < ?u" by simp
  have "fl x - x = (of_int (round_even (x / ?u)) - x / ?u) * ?u"
    using False u by (simp add: fl_def e_def Let_def algebra_simps)
  then have "\<bar>fl x - x\<bar> = \<bar>of_int (round_even (x / ?u)) - x / ?u\<bar> * ?u" using u by (simp add: abs_mult)
  also have "\<dots> \<le> 1 / 2 * ?u" by (intro mult_right_mono round_even_error) simp
  also have "\<dots> \<le> \<bar>x\<bar> / 2 ^ 53 + 1 / 2 ^ 1075"
  proof (cases "exponent2 \<bar>x\<bar> - 52 \<le> - 1074")
    case True
    then have "e = - int 1074" by (simp add: e_def)
    then have "1 / 2 * ?u = 1 / 2 ^ Suc 1074"
      by (simp only: power_int_minus power_int_of_nat power_Suc) (simp add: inverse_eq_divide)
    also have "Suc 1074 = 1075" by simp
    finally have "1 / 2 * ?u = 1 / 2 ^ 1075" .
    moreover have "0 \<le> \<bar>x\<bar> / 2 ^ 53" by simp
    ultimately show ?thesis by linarith
  next
    case False
    then have "e = exponent2 \<bar>x\<bar> - 52" by (simp add: e_def)
    then have "?u = 2 powi exponent2 \<bar>x\<bar> / 2 powi 52" by (simp only:) (rule power_int_diff, simp)
    also have "\<dots> = 2 powi exponent2 \<bar>x\<bar> / 2 ^ 52" by simp
    also have "\<dots> \<le> \<bar>x\<bar> / 2 ^ 52" using exponent2_le [of "\<bar>x\<bar>"] \<open>x \<noteq> 0\<close> by (simp add: divide_right_mono)
    finally have "1 / 2 * ?u \<le> \<bar>x\<bar> / 2 ^ 53" by simp
    moreover have "(0 :: rat) \<le> 1 / 2 ^ 1075" by (rule divide_nonneg_nonneg) simp_all
    ultimately show ?thesis by linarith
  qed
  finally show ?thesis .
qed (simp add: fl_def)

lemma fl_near: "\<bar>fl x - x\<bar> \<le> \<bar>x\<bar> / 2 ^ 53 + 1 / 2 ^ 100"
proof -
  have "(1 :: rat) / 2 ^ 1075 \<le> 1 / 2 ^ 100"
    by (rule frac_le) simp_all
  with fl_error [of x] show ?thesis by linarith
qed

lemma round_even_nonpos: "q \<le> 0 \<Longrightarrow> round_even q \<le> 0"
proof (cases "q = 0")
  case True
  then show ?thesis by (simp add: round_even_def)
next
  case False
  assume "q \<le> 0"
  with False have "\<lfloor>q\<rfloor> < 0" by (simp add: floor_less_iff)
  then show ?thesis by (auto simp: round_even_def Let_def)
qed

lemma fl_nonpos: "x \<le> 0 \<Longrightarrow> fl x \<le> 0"
proof -
  assume x: "x \<le> 0"
  define u :: rat where "u = 2 powi max (exponent2 \<bar>x\<bar> - 52) (- 1074)"
  have u: "0 < u" by (simp add: u_def)
  with x have "x / u \<le> 0" by (simp add: divide_nonpos_pos)
  then have "round_even (x / u) \<le> 0" by (rule round_even_nonpos)
  then show ?thesis using u by (simp add: fl_def u_def [symmetric] Let_def mult_nonpos_nonneg)
qed

section \<open>Counting units\<close>

definition unit :: rat where
  "unit = 1 / 2 ^ 50"

definition rel :: "rat \<Rightarrow> rat \<Rightarrow> rat \<Rightarrow> bool" where
  "rel n x y \<longleftrightarrow> 0 < y \<and> \<bar>x - y\<bar> \<le> n * unit * y"

lemma unit_pos: "0 < unit" "unit \<le> 1 / 10 ^ 15"
  by (simp_all add: unit_def)

lemma rel_exact: "0 < y \<Longrightarrow> rel 0 y y"
  by (simp add: rel_def)

lemma rel_weaken: "rel m x y \<Longrightarrow> m \<le> n \<Longrightarrow> rel n x y"
proof -
  assume r: "rel m x y" and "m \<le> n"
  then have "m * (unit * y) \<le> n * (unit * y)" using unit_pos by (intro mult_right_mono) (simp_all add: rel_def)
  with r show ?thesis by (simp add: rel_def algebra_simps)
qed

text \<open>What \<open>rel\<close> says as a factor.\<close>

lemma rel_factor: "rel n x y \<longleftrightarrow> 0 < y \<and> (\<exists>s. x = y * (1 + s) \<and> \<bar>s\<bar> \<le> n * unit)"
proof
  assume r: "rel n x y"
  then have y: "0 < y" "\<bar>x - y\<bar> \<le> n * unit * y" by (simp_all add: rel_def)
  then have "\<bar>x / y - 1\<bar> = \<bar>x - y\<bar> / y" by (simp add: abs_div_pos diff_divide_distrib)
  also have "\<dots> \<le> n * unit" using y by (simp add: pos_divide_le_eq)
  finally have "\<bar>x / y - 1\<bar> \<le> n * unit" .
  with y show "0 < y \<and> (\<exists>s. x = y * (1 + s) \<and> \<bar>s\<bar> \<le> n * unit)" by (intro conjI exI [of _ "x / y - 1"]) simp_all
next
  assume "0 < y \<and> (\<exists>s. x = y * (1 + s) \<and> \<bar>s\<bar> \<le> n * unit)"
  then obtain s where s: "0 < y" "x = y * (1 + s)" "\<bar>s\<bar> \<le> n * unit" by blast
  then have "\<bar>x - y\<bar> = \<bar>s\<bar> * y" by (simp add: algebra_simps abs_mult)
  also have "\<dots> \<le> n * unit * y" using s by (intro mult_right_mono) simp_all
  finally show "rel n x y" using s(1) by (simp add: rel_def)
qed

text \<open>A factor of at most a hundred thousand units is small, and so are products of two of them.\<close>

definition small :: "rat \<Rightarrow> bool" where
  "small n \<longleftrightarrow> 0 \<le> n \<and> n \<le> 100000"

lemma small_units: "small n \<Longrightarrow> n * unit \<le> 1 / 10 ^ 10"
proof -
  assume "small n"
  then have "n * unit \<le> 100000 * (1 / 10 ^ 15)"
    using unit_pos by (intro mult_mono) (simp_all add: small_def)
  then show ?thesis by simp
qed

lemma rel_pos: "rel n x y \<Longrightarrow> small n \<Longrightarrow> 0 < x"
proof -
  assume r: "rel n x y" and n: "small n"
  then obtain s where s: "0 < y" "x = y * (1 + s)" "\<bar>s\<bar> \<le> n * unit" by (auto simp: rel_factor)
  have "\<bar>s\<bar> < 1" using s(3) small_units [OF n] by simp
  then have "0 < 1 + s" by linarith
  with s show ?thesis by simp
qed

lemma rel_fl:
  assumes "rel n x y" "small n" "1 / 10 ^ 6 \<le> y"
  shows "rel (n + 1 / 2) (fl x) y"
proof -
  have y: "0 < y" "\<bar>x - y\<bar> \<le> n * unit * y" using assms(1) by (simp_all add: rel_def)
  have "\<bar>x - y\<bar> \<le> 1 / 10 ^ 10 * y"
    using y small_units [OF assms(2)] by (meson mult_right_mono order_trans less_imp_le)
  moreover have "1 / 10 ^ 10 * y \<le> y" using y(1) by simp
  ultimately have "\<bar>x\<bar> \<le> 2 * y" using y(1) by linarith
  then have "\<bar>x\<bar> / 2 ^ 53 + 1 / 2 ^ 100 \<le> 2 * y / 2 ^ 53 + y / 2 ^ 53"
    using assms(3) by (intro add_mono divide_right_mono) simp_all
  also have "\<dots> \<le> 1 / 2 * unit * y" using y(1) by (simp add: unit_def)
  finally have "\<bar>fl x - x\<bar> \<le> 1 / 2 * unit * y" using fl_near [of x] by linarith
  with y(2) have "\<bar>fl x - y\<bar> \<le> n * unit * y + 1 / 2 * unit * y" by linarith
  with y(1) show ?thesis by (simp add: rel_def algebra_simps)
qed

lemma factor_mult:
  fixes s t p q :: rat
  assumes "\<bar>s\<bar> \<le> p" "\<bar>t\<bar> \<le> q" "p \<le> 1 / 10 ^ 10"
  shows "\<bar>(1 + s) * (1 + t) - 1\<bar> \<le> p + q + q / 10 ^ 10"
proof -
  have "\<bar>s * t\<bar> \<le> 1 / 10 ^ 10 * q" unfolding abs_mult using assms by (intro mult_mono) simp_all
  moreover have "(1 + s) * (1 + t) - 1 = s + t + s * t" by (simp add: algebra_simps)
  ultimately show ?thesis using assms by (simp add: abs_le_iff; linarith)
qed

lemma factor_div:
  fixes s t p q :: rat
  assumes "\<bar>s\<bar> \<le> p" "\<bar>t\<bar> \<le> q" "q \<le> 1 / 10 ^ 10"
  shows "\<bar>(1 + s) / (1 + t) - 1\<bar> \<le> (p + q) * (1 + 1 / 10 ^ 9)"
proof -
  have t: "1 - 1 / 10 ^ 10 \<le> 1 + t" using assms(2,3) by linarith
  then have pos: "0 < 1 + t" by (rule less_le_trans [rotated]) simp
  have "(1 + t) / (1 + t) = 1" using pos by (intro divide_self) (rule less_imp_neq [symmetric])
  then have "(1 + s) / (1 + t) - 1 = ((1 + s) - (1 + t)) / (1 + t)" by (simp only: diff_divide_distrib)
  also have "(1 + s) - (1 + t) = s - t" by simp
  finally have "\<bar>(1 + s) / (1 + t) - 1\<bar> = \<bar>s - t\<bar> / (1 + t)" using pos by (simp only: abs_divide abs_of_pos)
  also have "\<dots> \<le> (p + q) * (1 + 1 / 10 ^ 9)"
  proof -
    have "1 \<le> (1 + 1 / 10 ^ 9) * (1 - 1 / 10 ^ 10 :: rat)" by simp
    also have "\<dots> \<le> (1 + 1 / 10 ^ 9) * (1 + t)" by (rule mult_left_mono [OF t]) simp
    finally have one: "1 \<le> (1 + 1 / 10 ^ 9) * (1 + t)" .
    have st: "\<bar>s - t\<bar> \<le> p + q" using assms(1,2) by linarith
    then have "\<bar>s - t\<bar> * 1 \<le> (p + q) * ((1 + 1 / 10 ^ 9) * (1 + t))" using one by (intro mult_mono) linarith+
    then show ?thesis by (simp only: pos_divide_le_eq [OF pos] mult.assoc mult_1_right)
  qed
  finally show ?thesis .
qed

lemma rel_mult:
  assumes "rel m x a" "rel n y b" "small m" "small n"
  shows "rel (m + n + 1 / 10) (x * y) (a * b)"
proof -
  from assms(1,2) obtain s t where st: "0 < a" "x = a * (1 + s)" "\<bar>s\<bar> \<le> m * unit" "0 < b" "y = b * (1 + t)" "\<bar>t\<bar> \<le> n * unit"
    by (auto simp: rel_factor)
  have "n * unit / 10 ^ 10 \<le> 1 / 10 * unit"
    using assms(4) unit_pos by (simp add: small_def divide_le_eq mult_right_mono)
  with factor_mult [OF st(3,6) small_units [OF assms(3)]]
  have "\<bar>(1 + s) * (1 + t) - 1\<bar> \<le> (m + n + 1 / 10) * unit" by (simp add: algebra_simps)
  moreover have "x * y = a * b * (1 + ((1 + s) * (1 + t) - 1))" by (simp add: st(2,5))
  ultimately show ?thesis using st(1,4) unfolding rel_factor by (intro conjI exI) simp_all
qed

lemma rel_div:
  assumes "rel m x a" "rel n y b" "small m" "small n"
  shows "rel (m + n + 1 / 10) (x / y) (a / b)"
proof -
  from assms(1,2) obtain s t where st: "0 < a" "x = a * (1 + s)" "\<bar>s\<bar> \<le> m * unit" "0 < b" "y = b * (1 + t)" "\<bar>t\<bar> \<le> n * unit"
    by (auto simp: rel_factor)
  have "(m + n) / 10 ^ 9 * unit \<le> 1 / 10 * unit"
    using assms(3,4) unit_pos by (intro mult_right_mono) (simp_all add: small_def)
  with factor_div [OF st(3,6) small_units [OF assms(4)]]
  have "\<bar>(1 + s) / (1 + t) - 1\<bar> \<le> (m + n + 1 / 10) * unit" by (simp add: algebra_simps)
  moreover have "x / y = a / b * (1 + ((1 + s) / (1 + t) - 1))" by (simp add: st(2,5))
  ultimately show ?thesis using st(1,4) unfolding rel_factor by (intro conjI exI) simp_all
qed

lemma rel_add: "rel n x a \<Longrightarrow> rel n y b \<Longrightarrow> rel n (x + y) (a + b)"
  by (simp add: rel_def algebra_simps abs_le_iff)

text \<open>A difference loses what the cancelled part carries: \<open>n * b\<close> of the units of the larger operand are
  \<open>N * (a - b)\<close> of the result.\<close>

lemma rel_diff:
  assumes "rel m x a" "rel n y b" "b < a" "m * a + n * b \<le> N * (a - b)"
  shows "rel N (x - y) (a - b)"
proof -
  have "\<bar>(x - y) - (a - b)\<bar> \<le> m * unit * a + n * unit * b" using assms(1,2) by (auto simp: rel_def abs_le_iff)
  also have "\<dots> = (m * a + n * b) * unit" by (simp add: algebra_simps)
  also have "\<dots> \<le> N * (a - b) * unit" using assms(4) unit_pos by (intro mult_right_mono) simp_all
  finally show ?thesis using assms(3) by (simp add: rel_def algebra_simps)
qed

text \<open>From units to an absolute error.\<close>

lemma rel_abs:
  assumes "rel n x y" "0 \<le> n" "n * y \<le> 10 ^ 15 * eps"
  shows "\<bar>x - y\<bar> \<le> eps"
proof -
  have "\<bar>x - y\<bar> \<le> n * y * unit" using assms(1) by (simp add: rel_def algebra_simps)
  also have "\<dots> \<le> n * y * (1 / 10 ^ 15)" using assms unit_pos by (intro mult_left_mono) (simp_all add: rel_def)
  also have "\<dots> \<le> eps" using assms(3) by simp
  finally show ?thesis .
qed

section \<open>Rounding a double\<close>

lemma exponent2_less:
  assumes "0 < q"
  shows "q < 2 powi (exponent2 q + 1)"
proof -
  obtain n d where q: "quotient_of q = (n, d)" by (cases "quotient_of q")
  have d: "0 < d" and r: "q = of_int n / of_int d" using q by (auto dest: quotient_of_denom_pos quotient_of_div)
  have n: "0 < n" using assms d r by (simp add: zero_less_divide_iff)
  have "of_int n / of_int d < 2 powi bitlen n / (2 powi (bitlen d - 1) :: rat)"
    using powi_bitlen(2) [OF n] powi_bitlen(1) [OF d] n d by (intro frac_less) simp_all
  also have "\<dots> = 2 powi (bitlen n - (bitlen d - 1))" by (rule power_int_diff [symmetric]) simp
  finally have "q < 2 powi (bitlen n - bitlen d + 1)" unfolding r by (simp add: algebra_simps)
  then show ?thesis by (simp add: exponent2_def q Let_def)
qed

lemma round_even_int [simp]: "round_even (of_int i) = i"
  by (simp add: round_even_def Let_def)

lemma fl_multiple:
  assumes "- 1074 \<le> e" "\<bar>m\<bar> \<le> 2 ^ 53"
  shows "fl (of_int m * 2 powi e) = of_int m * 2 powi e"
proof (cases "m = 0")
  case False
  let ?v = "of_int m * 2 powi e :: rat"
  define E where "E = exponent2 \<bar>?v\<bar>"
  define k where "k = max (E - 52) (- 1074)"
  have v: "0 < \<bar>?v\<bar>" using False by simp
  have "\<exists>i. ?v / 2 powi k = of_int i"
  proof (cases "k \<le> e")
    case True
    have "(2 powi e :: rat) / 2 powi k = 2 powi (e - k)" by (simp add: power_int_diff)
    also have "\<dots> = 2 ^ nat (e - k)" using True by (simp add: power_int_def)
    finally have "?v / 2 powi k = of_int (m * 2 ^ nat (e - k))" by (simp flip: times_divide_eq_right)
    then show ?thesis by blast
  next
    case False
    then have k: "k = E - 52" "e < E - 52" using assms(1) by (auto simp: k_def)
    have "2 powi E \<le> \<bar>of_int m\<bar> * (2 powi e :: rat)" using exponent2_le [OF v] by (simp add: E_def abs_mult)
    then have "2 powi E / 2 powi e \<le> (\<bar>of_int m\<bar> :: rat)" by (simp add: pos_divide_le_eq)
    then have "2 powi (E - e) \<le> (\<bar>of_int m\<bar> :: rat)" by (simp add: power_int_diff)
    moreover have "(2 powi (E - e) :: rat) = of_int (2 ^ nat (E - e))" using k by (simp add: power_int_def)
    ultimately have le: "2 ^ nat (E - e) \<le> \<bar>m\<bar>" by (simp only: of_int_abs [symmetric] of_int_le_iff)
    with assms(2) have "(2 :: int) ^ nat (E - e) \<le> 2 ^ 53" by linarith
    then have "nat (E - e) \<le> 53" by (rule power_le_imp_le_exp [rotated]) simp
    then have E: "E = e + 53" "k = e + 1" using k by simp_all
    with le assms(2) have "\<bar>m\<bar> = 2 ^ 53" by simp
    then have "m = 2 * 2 ^ 52 \<or> m = 2 * (- (2 ^ 52))" by (auto simp: abs_if split: if_splits)
    then obtain j where j: "m = 2 * j" by blast
    have "?v / 2 powi k = of_int j" unfolding E(2) j by (simp add: power_int_add)
    then show ?thesis by blast
  qed
  then obtain i where i: "?v / 2 powi k = of_int i" by blast
  have "fl ?v = of_int (round_even (?v / 2 powi k)) * 2 powi k" using v by (simp add: fl_def Let_def k_def E_def)
  also have "\<dots> = ?v" unfolding i round_even_int unfolding i [symmetric] by simp
  finally show ?thesis .
qed (simp add: fl_def)

lemma round_even_bound: "\<bar>q\<bar> \<le> of_int n \<Longrightarrow> \<bar>round_even q\<bar> \<le> n"
proof -
  assume "\<bar>q\<bar> \<le> of_int n"
  moreover from round_even_error [of q] have "\<bar>of_int (round_even q)\<bar> \<le> \<bar>q\<bar> + 1 / 2" by linarith
  ultimately have "of_int \<bar>round_even q\<bar> < (of_int (n + 1) :: rat)" by simp
  then show ?thesis by (simp only: of_int_less_iff)
qed

text \<open>Rounding is idempotent: what \<open>fl\<close> gives is a double.\<close>

lemma fl_double:
  assumes "x \<noteq> 0" "e = max (exponent2 \<bar>x\<bar> - 52) (- 1074)"
  shows "fl x = of_int (round_even (x / 2 powi e)) * 2 powi e" "\<bar>round_even (x / 2 powi e)\<bar> \<le> 2 ^ 53"
proof -
  show "fl x = of_int (round_even (x / 2 powi e)) * 2 powi e" using assms by (simp add: fl_def Let_def)
  have "\<bar>x\<bar> \<le> 2 powi (exponent2 \<bar>x\<bar> + 1)" using exponent2_less [of "\<bar>x\<bar>"] assms(1) by simp
  also have "\<dots> \<le> 2 powi (53 + e)" using assms(2) by (intro power_int_increasing) simp_all
  also have "\<dots> = 2 ^ 53 * 2 powi e" by (simp add: power_int_add)
  finally have "\<bar>x / 2 powi e\<bar> \<le> of_int (2 ^ 53)" by (simp add: pos_divide_le_eq)
  then show "\<bar>round_even (x / 2 powi e)\<bar> \<le> 2 ^ 53" by (rule round_even_bound)
qed

lemma fl_fl [simp]: "fl (fl x) = fl x"
proof (cases "x = 0")
  case False
  from fl_double [OF False refl] show ?thesis by (simp add: fl_multiple)
qed (simp add: fl_def)

section \<open>Floats as text\<close>

text \<open>The value of a double in full, with an exponent where it has a fraction. It stands for \<open>repr\<close>, which has
  the shortest text that reads as the same double.\<close>

definition exact_text :: "rat \<Rightarrow> string" where
  "exact_text x =
     (if x = 0 then ''0''
      else let e = max (exponent2 \<bar>x\<bar> - 52) (- 1074); m = round_even (x / 2 powi e) in
        if 0 \<le> e then str_int (m * 2 ^ nat e)
        else str_int (m * 5 ^ nat (- e)) @ ''e-'' @ str_nat (nat (- e)))"

lemma digit_text: "d < 10 \<Longrightarrow> lower (digit_char d # cs) = digit_char d # lower cs"
  "d < 10 \<Longrightarrow> digit_char d \<noteq> CHR ''e''" "d < 10 \<Longrightarrow> digit_char d \<noteq> CHR ''.''" "d < 10 \<Longrightarrow> digit_char d \<noteq> CHR ''n''"
  "d < 10 \<Longrightarrow> digit_char d \<noteq> CHR ''i''"
  using number_chars(2) [of "digit_char d" d] of_char_digit [of d] by auto

lemma lower_str_nat: "lower (str_nat n @ cs) = str_nat n @ lower cs"
proof -
  have "lower (w @ cs) = w @ lower cs" if "\<forall>c \<in> set w. \<exists>d < 10. c = digit_char d" for w
    using that by (induction w) (auto simp: digit_text)
  then show ?thesis using str_nat_digits by blast
qed

lemma str_nat_chars: "CHR ''e'' \<notin> set (str_nat n)" "CHR ''.'' \<notin> set (str_nat n)"
  using str_nat_digits digit_text by metis+

lemma parse_decimal_nat:
  "parse_decimal (str_nat n) = Some (of_nat n)"
  "parse_decimal (str_nat n @ ''e-'' @ str_nat k) = Some (of_nat n / 10 ^ k)"
  using str_nat_not_Nil [of n]
  by (simp_all add: parse_decimal_def partition_at_prefix partition_at_word str_nat_chars parse_part_def
      parse_exponent_def signed_def pow10_def)

lemma str_nat_first: "\<exists>d cs. d < 10 \<and> str_nat n = digit_char d # cs"
  using str_nat_not_Nil [of n] str_nat_digits [of _ n] by (cases "str_nat n") auto

lemma py_float_signed:
  assumes "strip s = s" "lower s = s" "s = (if neg then CHR ''-'' # str_nat n @ t else str_nat n @ t)"
    and "parse_decimal (str_nat n @ t) = Some q"
  shows "py_float s = Some (FNum (if neg then - q else q))"
proof -
  obtain d cs where d: "d < 10" "str_nat n = digit_char d # cs" using str_nat_first by blast
  have "signed s = (neg, str_nat n @ t)" using d digit_not_special(1,2) [OF d(1)] assms(3) by (simp add: signed_def)
  moreover have "str_nat n @ t \<noteq> ''nan''" "str_nat n @ t \<noteq> ''inf''" "str_nat n @ t \<noteq> ''infinity''"
    using d digit_text(4,5) [OF d(1)] by auto
  ultimately show ?thesis using assms(1,2,4) by (simp add: py_float_def)
qed

lemma py_float_int:
  "py_float (str_int i) = Some (FNum (of_int i))"
  "py_float (str_int i @ ''e-'' @ str_nat k) = Some (FNum (of_int i / 10 ^ k))"
proof -
  have low: "lower (str_int i @ ''e-'' @ str_nat k) = str_int i @ ''e-'' @ str_nat k" "lower (str_int i) = str_int i"
    using lower_str_nat [of _ "[]"] by (simp_all add: str_int_def lower_str_nat) (simp_all add: lower_def lower_str_nat)
  have sp: "\<not> is_space c" if "c \<in> set (str_int i @ ''e-'' @ str_nat k)" for c
    using that str_nat_digits digit_not_special(5)
    by (fastforce simp: str_int_def is_space_def split: if_splits)
  have st: "strip (str_int i @ ''e-'' @ str_nat k) = str_int i @ ''e-'' @ str_nat k" "strip (str_int i) = str_int i"
    by (rule strip_no_space, erule sp, rule strip_no_space, rule sp, simp)
  let ?n = "nat \<bar>i\<bar>"
  have shape: "str_int i @ t = (if i < 0 then CHR ''-'' # str_nat ?n @ t else str_nat ?n @ t)" for t
    by (simp add: str_int_def abs_if)
  have val: "(if i < 0 then - of_nat ?n else of_nat ?n) = (of_int i :: rat)" by (simp add: of_nat_nat)
  have whole: "parse_decimal (str_nat ?n @ []) = Some (of_nat ?n)" by (simp add: parse_decimal_nat)
  from py_float_signed [OF st(2) low(2) _ whole] shape [of "[]"]
  have "py_float (str_int i) = Some (FNum (if i < 0 then - of_nat ?n else of_nat ?n))" by (simp only: append_Nil2)
  then show "py_float (str_int i) = Some (FNum (of_int i))" by (simp only: val)
  from py_float_signed [OF st(1) low(1) shape parse_decimal_nat(2)]
  have "py_float (str_int i @ ''e-'' @ str_nat k) =
      Some (FNum ((if i < 0 then - of_nat ?n else of_nat ?n) / 10 ^ k))" by (cases "i < 0") (simp_all only: if_True if_False minus_divide_left)
  then show "py_float (str_int i @ ''e-'' @ str_nat k) = Some (FNum (of_int i / 10 ^ k))" by (simp only: val)
qed

lemma exact_text_reads: "py_float (exact_text x) = Some (FNum (fl x))"
proof (cases "x = 0")
  case True
  have "str_int 0 = ''0''" by code_simp
  with True py_float_int(1) [of 0] show ?thesis by (simp add: exact_text_def fl_def)
next
  case False
  define e where "e = max (exponent2 \<bar>x\<bar> - 52) (- 1074)"
  define m where "m = round_even (x / 2 powi e)"
  have v: "fl x = of_int m * 2 powi e" using fl_double(1) [OF False e_def] by (simp add: m_def)
  show ?thesis
  proof (cases "0 \<le> e")
    case True
    then have "exact_text x = str_int (m * 2 ^ nat e)" using False by (simp add: exact_text_def Let_def m_def flip: e_def)
    with True show ?thesis by (simp add: py_float_int v power_int_def)
  next
    case neg: False
    then have t: "exact_text x = str_int (m * 5 ^ nat (- e)) @ ''e-'' @ str_nat (nat (- e))"
      using False by (simp add: exact_text_def Let_def m_def flip: e_def)
    have "(10 :: rat) ^ nat (- e) = 5 ^ nat (- e) * 2 ^ nat (- e)" using power_mult_distrib [of "5 :: rat" 2 "nat (- e)"] by simp
    then have "of_int (m * 5 ^ nat (- e)) / 10 ^ nat (- e) = (of_int m / 2 ^ nat (- e) :: rat)" by simp
    also have "\<dots> = of_int m * inverse (2 ^ nat (- e))" by (rule divide_inverse)
    also have "inverse (2 ^ nat (- e)) = (2 powi e :: rat)"
      using neg power_int_minus [of "2 :: rat" "int (nat (- e))"] by (simp only: power_int_of_nat) simp
    also have "of_int m * 2 powi e = fl x" by (rule v [symmetric])
    finally show ?thesis unfolding t py_float_int by simp
  qed
qed

end
