(* ===== verification/Compare.thy ===== *)
theory Compare
  imports Analysis Doubles "HOL-Library.Sublist"
begin

text \<open>
  \<open>src/scripts/compare.py\<close>: the comparison of a results directory with the published numbers. A
  directory is what decoding its files gives: None where a file is missing or (for JSON) not readable,
  the rows of \<open>csv.DictReader\<close>, the text of a transcript. A number of a file is kept as the decimal it is
  written as; \<open>close_to\<close> rounds it to a double, and rounds the difference, as Python does (\<open>Doubles\<close>).
  \<open>shw\<close> is \<open>str\<close> of a float, a list or a dictionary.
\<close>

record check =
  ck_name :: string
  ck_expected :: string
  ck_actual :: string
  ck_result :: string
  ck_note :: string

definition CALIBRATION_NOTE :: string where
  "CALIBRATION_NOTE = ''not reproduced; see docs/model-calibration.md''"

definition fmt :: "(json \<Rightarrow> string) \<Rightarrow> json \<Rightarrow> string" where
  "fmt shw v = (case v of JNull \<Rightarrow> ''null'' | JFloat q \<Rightarrow> fmt_g6 q | _ \<Rightarrow> py_str shw v)"

definition plain_check :: "string \<Rightarrow> string \<Rightarrow> string \<Rightarrow> bool \<Rightarrow> string \<Rightarrow> check" where
  "plain_check name expected actual ok note =
     \<lparr> ck_name = name, ck_expected = expected, ck_actual = actual,
       ck_result = (if ok then ''PASS'' else ''FAIL''), ck_note = (if ok then [] else note) \<rparr>"

definition check_of :: "(json \<Rightarrow> string) \<Rightarrow> string \<Rightarrow> json \<Rightarrow> json \<Rightarrow> bool \<Rightarrow> string \<Rightarrow> check" where
  "check_of shw name expected actual ok note = plain_check name (fmt shw expected) (fmt shw actual) ok note"

text \<open>\<open>abs(expected - actual)\<close>: exact between two integers, and otherwise a difference of doubles.\<close>

definition is_int :: "json \<Rightarrow> bool" where
  "is_int j \<longleftrightarrow> (case j of JInt i \<Rightarrow> True | JBool b \<Rightarrow> True | _ \<Rightarrow> False)"

definition to_double :: "json \<Rightarrow> rat py" where
  "to_double j =
     bind_py (as_num j) (\<lambda>q. if is_int j \<and> of_int FLOAT_END \<le> \<bar>q\<bar> then Inl OverflowError else Inr (fl q))"

definition abs_difference :: "json \<Rightarrow> json \<Rightarrow> rat py" where
  "abs_difference a b =
     bind_py (as_num a) (\<lambda>x. bind_py (as_num b) (\<lambda>y.
       if is_int a \<and> is_int b then Inr \<bar>x - y\<bar>
       else bind_py (to_double a) (\<lambda>x. bind_py (to_double b) (\<lambda>y. Inr \<bar>fl (x - y)\<bar>))))"

definition close_to :: "json \<Rightarrow> json \<Rightarrow> rat \<Rightarrow> bool py" where
  "close_to expected actual tol =
     (if expected = JNull \<or> actual = JNull then Inr (expected = JNull \<and> actual = JNull)
      else bind_py (abs_difference expected actual) (\<lambda>d. Inr (d \<le> fl tol)))"

definition passed :: "check \<Rightarrow> bool" where
  "passed c \<longleftrightarrow> ck_result c = ''PASS''"

lemma passed_plain [simp]: "passed (plain_check n e a ok note) \<longleftrightarrow> ok"
  by (simp add: passed_def plain_check_def)

lemma passed_check_of [simp]: "passed (check_of shw n e a ok note) \<longleftrightarrow> ok"
  by (simp add: check_of_def)

section \<open>The two directories\<close>

type_synonym csv_row = "(string \<times> string option) list"

record results_dir =
  r_name :: string
  r_report :: "json option"
  r_table9 :: "csv_row list option"
  r_scalars :: "json option"
  r_transcript :: "string \<Rightarrow> string option"

record expected_dir =
  x_paper :: json
  x_events :: "string \<Rightarrow> string option"

definition FileNotFoundError :: py_error where
  "FileNotFoundError = OtherError ''FileNotFoundError''"

definition missing_path :: "results_dir \<Rightarrow> string \<Rightarrow> string" where
  "missing_path res path = ''missing '' @ r_name res @ CHR ''/'' # path"

section \<open>The lifecycle model\<close>

definition detected_rows :: "json list \<Rightarrow> string \<Rightarrow> int py" where
  "detected_rows rows kind =
     bind_py (map_py (\<lambda>r.
         bind_py (obj_item r ''kind'') (\<lambda>k.
           if py_eq k (JStr kind) then
             bind_py (obj_item r ''expected_check'') (\<lambda>c.
             bind_py (obj_item r ''detected_by'') (\<lambda>d. py_contains c d))
           else Inr False)) rows)
       (\<lambda>bs. Inr (int (length (filter id bs))))"

definition equal_check ::
  "(json \<Rightarrow> string) \<Rightarrow> json \<Rightarrow> string \<Rightarrow> string \<Rightarrow> json \<Rightarrow> string \<Rightarrow> check py" where
  "equal_check shw paper name key actual note =
     bind_py (obj_item paper key) (\<lambda>e. Inr (check_of shw name e actual (py_eq actual e) note))"

definition model_checks :: "(json \<Rightarrow> string) \<Rightarrow> results_dir \<Rightarrow> json \<Rightarrow> check list py" where
  "model_checks shw res paper =
     (case r_report res of
        None \<Rightarrow> Inr [plain_check ''model.report'' ''readable json''
                       (missing_path res ''model/report.json'') False ''run `make model`'']
      | Some report \<Rightarrow>
          bind_py (py_get report ''seeded'' (JObj [])) (\<lambda>seeded.
          bind_py (py_get seeded ''rows'' (JList [])) (\<lambda>seeded_rows.
          bind_py (py_get report ''states'' JNull) (\<lambda>states.
          bind_py (equal_check shw paper ''model.states'' ''states'' states CALIBRATION_NOTE) (\<lambda>c1.
          bind_py (py_get report ''transitions'' JNull) (\<lambda>transitions.
          bind_py (equal_check shw paper ''model.transitions'' ''transitions'' transitions CALIBRATION_NOTE) (\<lambda>c2.
          bind_py (py_get report ''max_depth'' JNull) (\<lambda>depth1.
          bind_py (equal_check shw paper ''model.max_depth'' ''max_depth'' depth1 CALIBRATION_NOTE) (\<lambda>c3.
          bind_py (bind_py (py_get report ''invariants'' (JList [])) py_len) (\<lambda>ninv.
          bind_py (equal_check shw paper ''model.invariants'' ''invariants'' (JInt ninv) []) (\<lambda>c4.
          bind_py (bind_py (py_get report ''guards'' (JList [])) py_len) (\<lambda>ngrd.
          bind_py (equal_check shw paper ''model.guards'' ''guards'' (JInt ngrd) []) (\<lambda>c5.
          bind_py (py_iter seeded_rows) (\<lambda>rows.
          bind_py (detected_rows rows ''state'') (\<lambda>nstate.
          bind_py (equal_check shw paper ''model.seeded_states_detected'' ''seeded_states'' (JInt nstate)
                     ''run `qkd-ekm-model all`'') (\<lambda>c6.
          bind_py (detected_rows rows ''transition'') (\<lambda>ntrans.
          bind_py (equal_check shw paper ''model.seeded_transitions_detected'' ''seeded_transitions''
                     (JInt ntrans) ''run `qkd-ekm-model all`'') (\<lambda>c7.
          Inr [c1, c2, c3, c4, c5, c6, c7]))))))))))))))))))"

section \<open>Table 9 and the scalars\<close>

definition TABLE9_TOL :: "(string \<times> rat) list" where
  "TABLE9_TOL = [(''demand'', 1 / 1000), (''headroom'', 1 / 1000), (''endurance_h'', 1 / 100),
     (''refill_min'', 1 / 100)]"

definition row_text :: "csv_row \<Rightarrow> string \<Rightarrow> string option" where
  "row_text row k = (case map_of (rev row) k of None \<Rightarrow> None | Some v \<Rightarrow> v)"

text \<open>\<open>_as_float\<close>: None for a missing, blank or NaN field.\<close>

definition as_float :: "string option \<Rightarrow> float_text option py" where
  "as_float text =
     (case text of
        None \<Rightarrow> Inr None
      | Some t \<Rightarrow>
          if strip t = [] then Inr None
          else (case py_float t of
              None \<Rightarrow> Inl ValueError
            | Some v \<Rightarrow> Inr (if v = FNan then None else Some v)))"

definition fmt_cell :: "float_text option \<Rightarrow> string" where
  "fmt_cell c =
     (case c of
        None \<Rightarrow> ''null''
      | Some (FNum q) \<Rightarrow> fmt_g6 q
      | Some FNan \<Rightarrow> ''nan''
      | Some (FInf neg) \<Rightarrow> if neg then ''-inf'' else ''inf'')"

definition close_cell :: "json \<Rightarrow> float_text option \<Rightarrow> rat \<Rightarrow> bool py" where
  "close_cell expected c tol =
     (case c of
        Some (FNum q) \<Rightarrow> close_to expected (JFloat q) tol
      | Some (FInf neg) \<Rightarrow>
          if expected = JNull then Inr False else bind_py (to_double expected) (\<lambda>x. Inr False)
      | _ \<Rightarrow> Inr (expected = JNull))"

text \<open>\<open>int(float(row["pairs"]))\<close>\<close>

definition row_pairs :: "csv_row \<Rightarrow> int py" where
  "row_pairs row =
     (case map_of (rev row) ''pairs'' of
        None \<Rightarrow> Inl KeyError
      | Some None \<Rightarrow> Inl TypeError
      | Some (Some t) \<Rightarrow>
          (case py_float t of
             Some (FNum q) \<Rightarrow> Inr (if q < 0 then - \<lfloor>- q\<rfloor> else \<lfloor>q\<rfloor>)
           | Some (FInf neg) \<Rightarrow> Inl OverflowError
           | _ \<Rightarrow> Inl ValueError))"

text \<open>\<open>actual.get(pairs)\<close> in the dictionary of the rows, where a later row replaces an earlier one.\<close>

definition row_for :: "(int \<times> csv_row) list \<Rightarrow> json \<Rightarrow> csv_row option py" where
  "row_for actual pairs =
     (case pairs of
        JList xs \<Rightarrow> Inl TypeError
      | JObj kvs \<Rightarrow> Inl TypeError
      | _ \<Rightarrow> Inr (map_option snd (find (\<lambda>e. py_eq (JInt (fst e)) pairs) (rev actual))))"

definition cell_check :: "json \<Rightarrow> csv_row \<Rightarrow> string \<Rightarrow> (json \<Rightarrow> string) \<Rightarrow> string \<times> rat \<Rightarrow> check py" where
  "cell_check row got label shw ft =
     (case ft of (field, tol) \<Rightarrow>
       bind_py (as_float (row_text got field)) (\<lambda>value.
       bind_py (obj_item row field) (\<lambda>e.
       bind_py (close_cell e value tol) (\<lambda>ok.
       Inr (plain_check (label @ CHR ''.'' # field) (fmt shw e) (fmt_cell value) ok
              (''absolute tolerance '' @ shw (JFloat tol)))))))"

definition table9_row_checks :: "(json \<Rightarrow> string) \<Rightarrow> (int \<times> csv_row) list \<Rightarrow> json \<Rightarrow> check list py" where
  "table9_row_checks shw actual row =
     bind_py (obj_item row ''pairs'') (\<lambda>pairs.
     bind_py (row_for actual pairs) (\<lambda>found.
     let label = ''table9['' @ py_str shw pairs @ '']'' in
     case found of
       None \<Rightarrow> Inr [plain_check label ''row present'' ''missing'' False
                      ''no row for this concurrent-pair count'']
     | Some got \<Rightarrow> map_py (cell_check row got label shw) TABLE9_TOL))"

definition table9_checks :: "(json \<Rightarrow> string) \<Rightarrow> results_dir \<Rightarrow> json \<Rightarrow> check list py" where
  "table9_checks shw res paper =
     (case r_table9 res of
        None \<Rightarrow> Inr [plain_check ''table9'' ''readable csv'' (missing_path res ''analysis/table9.csv'')
                       False ''run `make analysis`'']
      | Some csv \<Rightarrow>
          bind_py (map_py row_pairs csv) (\<lambda>ks.
          bind_py (obj_item paper ''table9'') (\<lambda>tab.
          bind_py (py_iter tab) (\<lambda>rows.
          bind_py (map_py (table9_row_checks shw (zip ks csv)) rows) (\<lambda>css. Inr (concat css))))))"

definition SCALARS :: "(string \<times> string \<times> rat) list" where
  "SCALARS =
     [(''D'', ''demand_units_per_s'', 1 / 1000000), (''mQ'', ''ceiling_pairs'', 1 / 100),
      (''reserve_24h_1000_pct'', ''reserve_24h_1000_pct'', 5 / 100),
      (''reserve_24h_10000_pct'', ''reserve_24h_10000_pct'', 5 / 100),
      (''depletion_50000_h'', ''depletion_50000_h'', 5 / 100),
      (''refill_1h_1000_min'', ''refill_1h_1000_min'', 5 / 100),
      (''refill_1h_10000_min'', ''refill_1h_10000_min'', 5 / 100),
      (''refill_1h_50000_h'', ''refill_1h_50000_h'', 5 / 100)]"

definition scalar_check :: "(json \<Rightarrow> string) \<Rightarrow> json \<Rightarrow> json \<Rightarrow> string \<times> string \<times> rat \<Rightarrow> check py" where
  "scalar_check shw paper scalars skt =
     (case skt of (key, paper_key, tol) \<Rightarrow>
       bind_py (obj_item paper paper_key) (\<lambda>e.
       bind_py (py_get scalars key JNull) (\<lambda>a.
       bind_py (close_to e a tol) (\<lambda>ok.
       Inr (check_of shw (''scalars.'' @ key) e a ok (''absolute tolerance '' @ shw (JFloat tol)))))))"

definition scalar_checks :: "(json \<Rightarrow> string) \<Rightarrow> results_dir \<Rightarrow> json \<Rightarrow> check list py" where
  "scalar_checks shw res paper =
     (case r_scalars res of
        None \<Rightarrow> Inr [plain_check ''scalars'' ''readable json'' (missing_path res ''analysis/scalars.json'')
                       False ''run `make analysis`'']
      | Some scalars \<Rightarrow> map_py (scalar_check shw paper scalars) SCALARS)"

section \<open>Transcripts\<close>

fun match_each :: "(char \<Rightarrow> bool) list \<Rightarrow> string \<Rightarrow> string option" where
  "match_each [] s = Some s"
| "match_each (p # ps) [] = None"
| "match_each (p # ps) (c # cs) = (if p c then match_each ps cs else None)"

definition is_digit :: "char \<Rightarrow> bool" where
  "is_digit c \<longleftrightarrow> digit_val c \<noteq> None"

definition is_letter :: "char \<Rightarrow> bool" where
  "is_letter c \<longleftrightarrow> (let n = of_char c :: nat in (65 \<le> n \<and> n \<le> 90) \<or> (97 \<le> n \<and> n \<le> 122))"

definition TIMESTAMP :: "(char \<Rightarrow> bool) list" where
  "TIMESTAMP = map (\<lambda>c. if c = CHR ''d'' then is_digit else (=) c) ''dddd-dd-dd dd:dd:dd.ddd''"

definition without_timestamp :: "string \<Rightarrow> string" where
  "without_timestamp line =
     (case match_each TIMESTAMP line of None \<Rightarrow> line | Some r \<Rightarrow> dropWhile is_space r)"

definition events_in :: "string \<Rightarrow> string list" where
  "events_in content =
     map (\<lambda>line. strip (without_timestamp line)) (filter (\<lambda>line. strip line \<noteq> []) (splitlines content))"

definition component_of :: "string \<Rightarrow> string option" where
  "component_of event =
     (let w = takeWhile is_letter event
      in if w \<noteq> [] \<and> startswith (drop (length w) event) '': '' then Some w else None)"

fun dict_append :: "'k \<Rightarrow> 'v \<Rightarrow> ('k \<times> 'v list) list \<Rightarrow> ('k \<times> 'v list) list" where
  "dict_append k v [] = [(k, [v])]"
| "dict_append k v ((j, vs) # d) = (if j = k then (j, vs @ [v]) # d else (j, vs) # dict_append k v d)"

definition by_component :: "string list \<Rightarrow> (string \<times> string list) list" where
  "by_component events =
     foldl (\<lambda>grouped event.
         case component_of event of None \<Rightarrow> grouped | Some c \<Rightarrow> dict_append c event grouped) [] events"

definition matched_prefix :: "'a list \<Rightarrow> 'a list \<Rightarrow> nat" where
  "matched_prefix expected actual =
     foldl (\<lambda>matched event.
         if matched < length expected \<and> event = expected ! matched then matched + 1 else matched) 0 actual"

definition get_list :: "('k \<times> 'v list) list \<Rightarrow> 'k \<Rightarrow> 'v list" where
  "get_list d k = (case map_of d k of None \<Rightarrow> [] | Some vs \<Rightarrow> vs)"

definition component_check :: "string \<Rightarrow> (string \<times> string list) list \<Rightarrow> string \<times> string list \<Rightarrow> check" where
  "component_check name actual ce =
     (case ce of (component, events) \<Rightarrow>
       let matched = matched_prefix events (get_list actual component)
       in plain_check (name @ CHR ''.'' # component)
            (str_nat (length events) @ '' events in order'')
            (str_nat matched @ '' of '' @ str_nat (length events) @ '' matched'')
            (matched = length events)
            (''first missing event: '' @ events ! matched))"

definition sequence_checks :: "string \<Rightarrow> results_dir \<Rightarrow> expected_dir \<Rightarrow> check list py" where
  "sequence_checks name res exp1 =
     (case x_events exp1 name of
        None \<Rightarrow> Inl FileNotFoundError
      | Some text1 \<Rightarrow>
          let expected = by_component (events_in text1);
              total = sum_list (map (\<lambda>ce. length (snd ce)) expected)
          in case r_transcript res name of
               None \<Rightarrow> Inr [plain_check (name @ ''.sequence'') (str_nat total @ '' events in order'')
                   (missing_path res (''transcripts/'' @ name @ ''.txt'')) False
                   ''capture and redact the scenario transcript'']
             | Some text2 \<Rightarrow>
                 let actual = by_component (events_in text2);
                     matched_total = sum_list (map (\<lambda>ce. matched_prefix (snd ce) (get_list actual (fst ce))) expected)
                 in Inr (map (component_check name actual) expected @
                     [plain_check (name @ ''.sequence'') (str_nat total @ '' events in order'')
                        (str_nat matched_total @ '' of '' @ str_nat total @ '' matched'')
                        (matched_total = total) ''see the per-component rows above'']))"

section \<open>Assembly\<close>

definition GROUPS :: "string list" where
  "GROUPS = [''model'', ''analysis'', ''transcripts'']"

text \<open>\<open>only or GROUPS\<close>: an empty selection is every group.\<close>

definition compare_all ::
  "(json \<Rightarrow> string) \<Rightarrow> results_dir \<Rightarrow> expected_dir \<Rightarrow> string list option \<Rightarrow> check list py" where
  "compare_all shw res exp1 only =
     (let groups = set (case only of Some (g # gs) \<Rightarrow> g # gs | _ \<Rightarrow> GROUPS) in
      bind_py (if ''model'' \<in> groups then model_checks shw res (x_paper exp1) else Inr []) (\<lambda>a.
      bind_py (if ''analysis'' \<in> groups then table9_checks shw res (x_paper exp1) else Inr []) (\<lambda>b.
      bind_py (if ''analysis'' \<in> groups then scalar_checks shw res (x_paper exp1) else Inr []) (\<lambda>c.
      bind_py (if ''transcripts'' \<in> groups then sequence_checks ''s1'' res exp1 else Inr []) (\<lambda>d.
      bind_py (if ''transcripts'' \<in> groups then sequence_checks ''s2'' res exp1 else Inr []) (\<lambda>e.
      Inr (a @ b @ c @ d @ e)))))))"

definition newline :: char where
  "newline = CHR 0x0A"

definition compare_markdown :: "check list \<Rightarrow> string" where
  "compare_markdown checks =
     concat (map (\<lambda>l. l @ [newline])
       ([''# Comparison against the published numbers'', [],
         str_nat (length (filter (\<lambda>c. ck_result c \<noteq> ''FAIL'') checks)) @ '' of '' @ str_nat (length checks) @
           '' checks pass.'', [],
         ''| check | expected | actual | result | note |'', ''| --- | ---: | ---: | --- | --- |''] @
        map (\<lambda>c. ''| '' @ ck_name c @ '' | '' @ ck_expected c @ '' | '' @ ck_actual c @ '' | '' @ ck_result c @
               '' | '' @ ck_note c @ '' |'') checks))"

definition parse_only :: "string option \<Rightarrow> string list option" where
  "parse_only arg =
     (case arg of Some (c # cs) \<Rightarrow> Some (map strip (split_on CHR '','' (c # cs))) | _ \<Rightarrow> None)"

definition unknown_groups :: "string list option \<Rightarrow> string list" where
  "unknown_groups only =
     sort (remdups (filter (\<lambda>g. g \<notin> set GROUPS) (case only of None \<Rightarrow> [] | Some gs \<Rightarrow> gs)))"

text \<open>\<open>main\<close>: the exit status (2 is argparse's) and the checks it writes.\<close>

definition compare_main ::
  "(json \<Rightarrow> string) \<Rightarrow> string option \<Rightarrow> results_dir \<Rightarrow> expected_dir \<Rightarrow> (int \<times> check list) py" where
  "compare_main shw arg res exp1 =
     (let only = parse_only arg in
      if unknown_groups only \<noteq> [] then Inr (2, [])
      else bind_py (compare_all shw res exp1 only) (\<lambda>checks.
        Inr (if filter (\<lambda>c. ck_result c = ''FAIL'') checks \<noteq> [] then 1 else 0, checks)))"

end
