(* ===== verification/CompareProperties.thy ===== *)
theory CompareProperties
  imports Compare
begin

text \<open>
  What the comparison decides: a transcript passes exactly when each component's expected events are a
  subsequence of that component's log, exit status 0 means that every selected number was reproduced, cell by cell,
  and the numbers of \<open>analysis\<close> pass against \<open>expected/paper_numbers.json\<close>.
\<close>

section \<open>Subsequences\<close>

text \<open>The counter of \<open>_matched_prefix\<close> as a recursion over both lists.\<close>

fun matched_rec :: "'a list \<Rightarrow> 'a list \<Rightarrow> nat" where
  "matched_rec [] ys = 0"
| "matched_rec (x # xs) [] = 0"
| "matched_rec (x # xs) (y # ys) = (if x = y then Suc (matched_rec xs ys) else matched_rec (x # xs) ys)"

lemma matched_fold:
  "m \<le> length e \<Longrightarrow>
   foldl (\<lambda>matched event. if matched < length e \<and> event = e ! matched then matched + 1 else matched) m a =
     m + matched_rec (drop m e) a"
proof (induction a arbitrary: m)
  case Nil
  show ?case by (cases "drop m e") auto
next
  case (Cons y ys)
  show ?case
  proof (cases "m < length e")
    case True
    then have "drop m e = e ! m # drop (Suc m) e" by (simp add: Cons_nth_drop_Suc)
    then show ?thesis using Cons.IH [of m] Cons.IH [of "Suc m"] True by auto
  next
    case False
    then show ?thesis using Cons.IH [of m] Cons.prems by simp
  qed
qed

lemma matched_prefix_rec: "matched_prefix e a = matched_rec e a"
  using matched_fold [of 0 e a] by (simp add: matched_prefix_def)

lemma matched_rec_iff: "n \<le> matched_rec xs ys \<longleftrightarrow> n \<le> length xs \<and> subseq (take n xs) ys"
proof (induction xs ys arbitrary: n rule: matched_rec.induct)
  case (1 ys)
  then show ?case by auto
next
  case (2 x xs)
  then show ?case by (cases n) auto
next
  case (3 x xs y ys)
  show ?case
  proof (cases n)
    case 0
    then show ?thesis by simp
  next
    case (Suc k)
    then show ?thesis using 3(1) [of k] 3(2) [of n] by auto
  qed
qed

text \<open>What \<open>_matched_prefix\<close> counts is the longest prefix of the expected events that is a
  subsequence of the log.\<close>

theorem matched_prefix_longest:
  "n \<le> matched_prefix expected actual \<longleftrightarrow> n \<le> length expected \<and> subseq (take n expected) actual"
  by (simp add: matched_prefix_rec matched_rec_iff)

lemma matched_prefix_le: "matched_prefix e a \<le> length e"
  using matched_rec_iff [of "matched_rec e a" e a] by (simp add: matched_prefix_rec)

lemma matched_prefix_all: "matched_prefix e a = length e \<longleftrightarrow> subseq e a"
  using matched_rec_iff [of "length e" e a] matched_prefix_le [of e a]
  by (auto simp: matched_prefix_rec)

section \<open>Components\<close>

definition component_events :: "string \<Rightarrow> string \<Rightarrow> string list" where
  "component_events c content = filter (\<lambda>e. component_of e = Some c) (events_in content)"

lemma map_of_dict_append:
  "map_of (dict_append k v d) j = (if j = k then Some (get_list d k @ [v]) else map_of d j)"
  by (induction k v d rule: dict_append.induct) (auto simp: get_list_def)

lemma keys_dict_append: "distinct (map fst d) \<Longrightarrow> distinct (map fst (dict_append k v d)) \<and>
    set (map fst (dict_append k v d)) = insert k (set (map fst d))"
  by (induction k v d rule: dict_append.induct) auto

lemma by_component_append:
  "by_component (es @ [e]) =
     (case component_of e of None \<Rightarrow> by_component es | Some c \<Rightarrow> dict_append c e (by_component es))"
  by (cases "component_of e") (simp_all add: by_component_def)

lemma map_of_by_component:
  "map_of (by_component es) c =
     (case filter (\<lambda>e. component_of e = Some c) es of [] \<Rightarrow> None | x # xs \<Rightarrow> Some (x # xs))"
proof (induction es rule: rev_induct)
  case Nil
  show ?case by (simp add: by_component_def)
next
  case (snoc e es)
  show ?case
  proof (cases "component_of e")
    case None
    with snoc show ?thesis by (simp add: by_component_append)
  next
    case (Some k)
    with snoc show ?thesis
      by (auto simp: by_component_append map_of_dict_append get_list_def split: list.splits)
  qed
qed

lemma get_by_component: "get_list (by_component es) c = filter (\<lambda>e. component_of e = Some c) es"
  by (simp add: get_list_def map_of_by_component split: list.splits)

lemma distinct_by_component: "distinct (map fst (by_component es))"
proof (induction es rule: rev_induct)
  case Nil
  show ?case by (simp add: by_component_def)
next
  case (snoc e es)
  then show ?case
    using keys_dict_append [of "by_component es"] by (simp add: by_component_append split: option.split)
qed

lemma by_component_entry:
  "(c, vs) \<in> set (by_component es) \<longleftrightarrow> vs = filter (\<lambda>e. component_of e = Some c) es \<and> vs \<noteq> []"
proof -
  have "(c, vs) \<in> set (by_component es) \<longleftrightarrow> map_of (by_component es) c = Some vs"
    by (rule map_of_eq_Some_iff [OF distinct_by_component, symmetric])
  then show ?thesis by (auto simp: map_of_by_component split: list.splits)
qed

lemma component_check_passes:
  "passed (component_check name (by_component as) (c, vs)) \<longleftrightarrow>
     subseq vs (filter (\<lambda>e. component_of e = Some c) as)"
  by (simp add: component_check_def Let_def get_by_component matched_prefix_all)

lemma sum_list_le_eq:
  fixes f g :: "'a \<Rightarrow> nat"
  assumes "\<And>x. x \<in> set xs \<Longrightarrow> f x \<le> g x"
  shows "sum_list (map f xs) = sum_list (map g xs) \<longleftrightarrow> (\<forall>x \<in> set xs. f x = g x)"
  using assms
proof (induction xs)
  case Nil
  show ?case by simp
next
  case (Cons x xs)
  then have "f x \<le> g x" "sum_list (map f xs) \<le> sum_list (map g xs)"
    by (auto intro: sum_list_mono)
  then have "f x + sum_list (map f xs) = g x + sum_list (map g xs) \<longleftrightarrow>
      f x = g x \<and> sum_list (map f xs) = sum_list (map g xs)" by linarith
  with Cons show ?case by auto
qed

text \<open>Property C40. A captured transcript passes, in every row and in the summary row alike, exactly when for each
  component its expected events appear in its own log in order; how the logs of different components
  interleave does not matter.\<close>

theorem transcript_checks_exact:
  assumes "x_events exp1 name = Some text1" and "r_transcript res name = Some text2"
  shows "\<exists>rows summary1. sequence_checks name res exp1 = Inr (rows @ [summary1]) \<and>
      ((\<forall>c \<in> set rows. passed c) \<longleftrightarrow>
        (\<forall>c. subseq (component_events c text1) (component_events c text2))) \<and>
      (passed summary1 \<longleftrightarrow> (\<forall>c \<in> set rows. passed c))"
proof -
  let ?e = "by_component (events_in text1)" and ?a = "by_component (events_in text2)"
  let ?rows = "map (component_check name ?a) ?e"
  let ?m = "sum_list (map (\<lambda>ce. matched_prefix (snd ce) (get_list ?a (fst ce))) ?e)"
  let ?t = "sum_list (map (\<lambda>ce. length (snd ce)) ?e)"
  have row: "passed (component_check name ?a ce) \<longleftrightarrow> matched_prefix (snd ce) (get_list ?a (fst ce)) = length (snd ce)"
    for ce by (cases ce) (simp add: component_check_def Let_def)
  have "(\<forall>c \<in> set ?rows. passed c) \<longleftrightarrow> (\<forall>(c, vs) \<in> set ?e. subseq vs (component_events c text2))"
    by (auto simp: component_check_passes component_events_def)
  also have "\<dots> \<longleftrightarrow> (\<forall>c. subseq (component_events c text1) (component_events c text2))"
  proof (intro iffI allI ballI)
    fix c assume all: "\<forall>(c, vs) \<in> set ?e. subseq vs (component_events c text2)"
    show "subseq (component_events c text1) (component_events c text2)"
    proof (cases "component_events c text1")
      case (Cons x xs)
      then have "(c, component_events c text1) \<in> set ?e"
        by (simp add: by_component_entry component_events_def)
      with all show ?thesis by blast
    qed simp
  qed (auto simp: by_component_entry component_events_def)
  finally have rows: "(\<forall>c \<in> set ?rows. passed c) \<longleftrightarrow>
      (\<forall>c. subseq (component_events c text1) (component_events c text2))" .
  have "?m = ?t \<longleftrightarrow> (\<forall>ce \<in> set ?e. matched_prefix (snd ce) (get_list ?a (fst ce)) = length (snd ce))"
    by (rule sum_list_le_eq) (rule matched_prefix_le)
  then have total: "?m = ?t \<longleftrightarrow> (\<forall>c \<in> set ?rows. passed c)" by (simp add: row)
  show ?thesis using assms rows total
    by (intro exI [of _ ?rows] exI conjI) (auto simp: sequence_checks_def Let_def)
qed

definition demo_expected :: expected_dir where
  "demo_expected = \<lparr> x_paper = JObj [], x_events = (\<lambda>n. Some (''A: x'' @ [newline] @ ''B: y'')) \<rparr>"

definition demo_results :: results_dir where
  "demo_results = \<lparr> r_name = ''results'', r_report = None, r_table9 = None, r_scalars = None,
     r_transcript = (\<lambda>n. Some (''B: y'' @ [newline] @ ''A: x'')) \<rparr>"

theorem transcript_checks_exact_witness:
  "\<exists>rows summary1. sequence_checks ''s1'' demo_results demo_expected = Inr (rows @ [summary1]) \<and>
     (passed summary1 \<longleftrightarrow> (\<forall>c \<in> set rows. passed c)) \<and> length rows = 2"
proof -
  have e: "x_events demo_expected ''s1'' = Some (''A: x'' @ [newline] @ ''B: y'')"
    and r: "r_transcript demo_results ''s1'' =
      Some (''B: y'' @ [newline] @ ''A: x'')"
    by (simp_all add: demo_expected_def demo_results_def)
  have "map_sum (\<lambda>_. ()) length (sequence_checks ''s1'' demo_results demo_expected) = Inr 3"
    by code_simp
  with transcript_checks_exact [OF e r] show ?thesis by fastforce
qed

section \<open>The exit status\<close>

text \<open>Every check says PASS or FAIL.\<close>

definition judged :: "check \<Rightarrow> bool" where
  "judged c \<longleftrightarrow> passed c \<or> ck_result c = ''FAIL''"

lemma judged_plain [simp]: "judged (plain_check n e a ok note)" "judged (check_of shw n x y ok note)"
  by (simp_all add: judged_def check_of_def passed_def plain_check_def)

lemma judged_component [simp]: "judged (component_check name actual ce)"
  by (cases ce) (simp add: component_check_def Let_def)

lemma judged_equal: "equal_check shw paper n k a note = Inr c \<Longrightarrow> judged c"
  by (auto simp: equal_check_def bind_py_eq_Inr)

lemma judged_model: "model_checks shw res paper = Inr cs \<Longrightarrow> c \<in> set cs \<Longrightarrow> judged c"
  by (auto simp: model_checks_def bind_py_eq_Inr split: option.splits dest!: judged_equal)

lemma judged_scalar: "scalar_checks shw res paper = Inr cs \<Longrightarrow> c \<in> set cs \<Longrightarrow> judged c"
  by (auto simp: scalar_checks_def scalar_check_def bind_py_eq_Inr split: option.splits prod.splits
      dest!: map_py_origin)

lemma judged_cell: "cell_check row got label shw ft = Inr c \<Longrightarrow> judged c"
proof -
  assume c: "cell_check row got label shw ft = Inr c"
  obtain field tol where ft: "ft = (field, tol)" by (cases ft)
  show "judged c" using c by (auto simp: cell_check_def ft bind_py_eq_Inr simp del: append.simps)
qed

lemma judged_row:
  assumes "table9_row_checks shw actual row = Inr cs" "c \<in> set cs"
  shows "judged c"
proof -
  obtain pairs found where f: "obj_item row ''pairs'' = Inr pairs" "row_for actual pairs = Inr found"
    using assms(1) by (auto simp: table9_row_checks_def bind_py_eq_Inr)
  show ?thesis
  proof (cases found)
    case None
    with assms f show ?thesis by (auto simp: table9_row_checks_def)
  next
    case (Some got)
    with assms(1) f have "map_py (cell_check row got (''table9['' @ py_str shw pairs @ '']'') shw) TABLE9_TOL = Inr cs"
      by (simp add: table9_row_checks_def)
    from map_py_origin [OF this assms(2)] judged_cell show ?thesis by blast
  qed
qed

lemma judged_table9:
  assumes "table9_checks shw res paper = Inr cs" "c \<in> set cs"
  shows "judged c"
proof (cases "r_table9 res")
  case None
  with assms show ?thesis by (auto simp: table9_checks_def)
next
  case (Some csv)
  with assms(1) obtain ks rows css where m: "map_py (table9_row_checks shw (zip ks csv)) rows = Inr css"
    and cs: "cs = concat css" by (auto simp: table9_checks_def bind_py_eq_Inr)
  from assms(2) cs obtain row where "row \<in> set css" "c \<in> set row" by auto
  with map_py_origin [OF m] judged_row show ?thesis by blast
qed

lemma judged_sequence: "sequence_checks name res exp1 = Inr cs \<Longrightarrow> c \<in> set cs \<Longrightarrow> judged c"
  by (auto simp: sequence_checks_def Let_def split: option.splits)

lemma judged_all: "compare_all shw res exp1 only = Inr cs \<Longrightarrow> c \<in> set cs \<Longrightarrow> judged c"
  by (auto simp: compare_all_def Let_def bind_py_eq_Inr split: if_splits
      intro: judged_model judged_table9 judged_scalar judged_sequence)

text \<open>The groups that a command line selects.\<close>

definition selected :: "string option \<Rightarrow> string set" where
  "selected arg = (case parse_only arg of Some (g # gs) \<Rightarrow> set (g # gs) | _ \<Rightarrow> set GROUPS)"

lemma compare_main_zero:
  assumes "compare_main shw arg res exp1 = Inr (0, cks)"
  shows "unknown_groups (parse_only arg) = []" "compare_all shw res exp1 (parse_only arg) = Inr cks"
    "\<forall>c \<in> set cks. passed c"
  using assms judged_all [of shw res exp1 "parse_only arg" cks]
  by (auto simp: compare_main_def Let_def bind_py_eq_Inr filter_empty_conv judged_def split: if_splits)

lemma compare_all_groups:
  assumes "compare_all shw res exp1 (parse_only arg) = Inr cks"
  shows "''model'' \<in> selected arg \<Longrightarrow> \<exists>cs. model_checks shw res (x_paper exp1) = Inr cs \<and> set cs \<subseteq> set cks"
    "''analysis'' \<in> selected arg \<Longrightarrow> \<exists>cs. table9_checks shw res (x_paper exp1) = Inr cs \<and> set cs \<subseteq> set cks"
    "''analysis'' \<in> selected arg \<Longrightarrow> \<exists>cs. scalar_checks shw res (x_paper exp1) = Inr cs \<and> set cs \<subseteq> set cks"
    "''transcripts'' \<in> selected arg \<Longrightarrow> n \<in> {''s1'', ''s2''} \<Longrightarrow>
      \<exists>cs. sequence_checks n res exp1 = Inr cs \<and> set cs \<subseteq> set cks"
proof -
  have sel: "set (case parse_only arg of Some (g # gs) \<Rightarrow> g # gs | _ \<Rightarrow> GROUPS) = selected arg"
    by (simp add: selected_def split: option.split list.split)
  have c: "bind_py (if ''model'' \<in> selected arg then model_checks shw res (x_paper exp1) else Inr []) (\<lambda>a.
      bind_py (if ''analysis'' \<in> selected arg then table9_checks shw res (x_paper exp1) else Inr []) (\<lambda>b.
      bind_py (if ''analysis'' \<in> selected arg then scalar_checks shw res (x_paper exp1) else Inr []) (\<lambda>c.
      bind_py (if ''transcripts'' \<in> selected arg then sequence_checks ''s1'' res exp1 else Inr []) (\<lambda>d.
      bind_py (if ''transcripts'' \<in> selected arg then sequence_checks ''s2'' res exp1 else Inr []) (\<lambda>e.
      Inr (a @ b @ c @ d @ e)))))) = Inr cks"
    using assms by (simp only: compare_all_def Let_def sel)
  show "''model'' \<in> selected arg \<Longrightarrow> \<exists>cs. model_checks shw res (x_paper exp1) = Inr cs \<and> set cs \<subseteq> set cks"
    "''analysis'' \<in> selected arg \<Longrightarrow> \<exists>cs. table9_checks shw res (x_paper exp1) = Inr cs \<and> set cs \<subseteq> set cks"
    "''analysis'' \<in> selected arg \<Longrightarrow> \<exists>cs. scalar_checks shw res (x_paper exp1) = Inr cs \<and> set cs \<subseteq> set cks"
    "''transcripts'' \<in> selected arg \<Longrightarrow> n \<in> {''s1'', ''s2''} \<Longrightarrow>
      \<exists>cs. sequence_checks n res exp1 = Inr cs \<and> set cs \<subseteq> set cks"
    using c by (auto simp: bind_py_eq_Inr)
qed

text \<open>What a clean run of the model's checks says of a number of the report, and of one that it counts.\<close>

definition reproduces :: "json \<Rightarrow> json \<Rightarrow> string \<Rightarrow> bool" where
  "reproduces report paper k \<longleftrightarrow>
     (\<exists>v e. py_get report k JNull = Inr v \<and> obj_item paper k = Inr e \<and> py_eq v e)"

definition count_agrees :: "int py \<Rightarrow> json \<Rightarrow> string \<Rightarrow> bool" where
  "count_agrees n paper k \<longleftrightarrow> (\<exists>m e. n = Inr m \<and> obj_item paper k = Inr e \<and> py_eq (JInt m) e)"

definition listed :: "json \<Rightarrow> string \<Rightarrow> int py" where
  "listed report k = bind_py (py_get report k (JList [])) py_len"

definition seeded_detected :: "json \<Rightarrow> string \<Rightarrow> int py" where
  "seeded_detected report kind =
     bind_py (py_get report ''seeded'' (JObj [])) (\<lambda>seeded.
     bind_py (py_get seeded ''rows'' (JList [])) (\<lambda>rows.
     bind_py (py_iter rows) (\<lambda>rows. detected_rows rows kind)))"

definition model_agrees :: "json \<Rightarrow> json \<Rightarrow> bool" where
  "model_agrees report paper \<longleftrightarrow>
     reproduces report paper ''states'' \<and> reproduces report paper ''transitions'' \<and>
     reproduces report paper ''max_depth'' \<and>
     count_agrees (listed report ''invariants'') paper ''invariants'' \<and>
     count_agrees (listed report ''guards'') paper ''guards'' \<and>
     count_agrees (seeded_detected report ''state'') paper ''seeded_states'' \<and>
     count_agrees (seeded_detected report ''transition'') paper ''seeded_transitions''"

text \<open>Every row of the published table has a row of the file for its number of pairs, and each of the four cells is
  close.\<close>

definition table9_agrees :: "csv_row list \<Rightarrow> json \<Rightarrow> bool" where
  "table9_agrees csv paper \<longleftrightarrow>
     (\<exists>ks tab rows. map_py row_pairs csv = Inr ks \<and> obj_item paper ''table9'' = Inr tab \<and> py_iter tab = Inr rows \<and>
       (\<forall>row \<in> set rows. \<exists>pairs got. obj_item row ''pairs'' = Inr pairs \<and> row_for (zip ks csv) pairs = Inr (Some got) \<and>
         (\<forall>(field, tol) \<in> set TABLE9_TOL. \<exists>e v. obj_item row field = Inr e \<and>
            as_float (row_text got field) = Inr v \<and> close_cell e v tol = Inr True)))"

lemma equal_check_passed:
  "equal_check shw paper n k a note = Inr c \<Longrightarrow> passed c \<Longrightarrow> \<exists>e. obj_item paper k = Inr e \<and> py_eq a e"
  by (auto simp: equal_check_def bind_py_eq_Inr)

lemma model_checks_passed:
  assumes "model_checks shw res paper = Inr cs" "\<forall>c \<in> set cs. passed c"
  shows "\<exists>report. r_report res = Some report \<and> model_agrees report paper"
proof (cases "r_report res")
  case None
  with assms show ?thesis by (auto simp: model_checks_def)
next
  case (Some report)
  with assms(1) obtain seeded rows0 rows v1 v2 v3 n4 n5 n6 n7 c1 c2 c3 c4 c5 c6 c7 where
    v: "py_get report ''states'' JNull = Inr v1" "py_get report ''transitions'' JNull = Inr v2"
      "py_get report ''max_depth'' JNull = Inr v3" "listed report ''invariants'' = Inr n4"
      "listed report ''guards'' = Inr n5"
      "py_get report ''seeded'' (JObj []) = Inr seeded" "py_get seeded ''rows'' (JList []) = Inr rows0"
      "py_iter rows0 = Inr rows" "detected_rows rows ''state'' = Inr n6" "detected_rows rows ''transition'' = Inr n7"
    and c: "equal_check shw paper ''model.states'' ''states'' v1 CALIBRATION_NOTE = Inr c1"
      "equal_check shw paper ''model.transitions'' ''transitions'' v2 CALIBRATION_NOTE = Inr c2"
      "equal_check shw paper ''model.max_depth'' ''max_depth'' v3 CALIBRATION_NOTE = Inr c3"
      "equal_check shw paper ''model.invariants'' ''invariants'' (JInt n4) [] = Inr c4"
      "equal_check shw paper ''model.guards'' ''guards'' (JInt n5) [] = Inr c5"
      "equal_check shw paper ''model.seeded_states_detected'' ''seeded_states'' (JInt n6) ''run `qkd-ekm-model all`'' = Inr c6"
      "equal_check shw paper ''model.seeded_transitions_detected'' ''seeded_transitions'' (JInt n7) ''run `qkd-ekm-model all`'' = Inr c7"
    and cs: "cs = [c1, c2, c3, c4, c5, c6, c7]"
    unfolding model_checks_def listed_def by (fastforce simp only: bind_py_eq_Inr option.simps sum.inject)
  from cs assms(2) have "passed c1" "passed c2" "passed c3" "passed c4" "passed c5" "passed c6" "passed c7" by auto
  note e = c(1) [THEN equal_check_passed, OF this(1)] c(2) [THEN equal_check_passed, OF this(2)]
    c(3) [THEN equal_check_passed, OF this(3)] c(4) [THEN equal_check_passed, OF this(4)]
    c(5) [THEN equal_check_passed, OF this(5)] c(6) [THEN equal_check_passed, OF this(6)]
    c(7) [THEN equal_check_passed, OF this(7)]
  have "seeded_detected report ''state'' = Inr n6" "seeded_detected report ''transition'' = Inr n7"
    using v(6-10) by (simp_all add: seeded_detected_def)
  with v(1-5) e have "model_agrees report paper"
    unfolding model_agrees_def reproduces_def count_agrees_def by (intro conjI) blast+
  with Some show ?thesis by blast
qed

lemma table9_checks_passed:
  assumes "table9_checks shw res paper = Inr cs" "\<forall>c \<in> set cs. passed c"
  shows "\<exists>csv. r_table9 res = Some csv \<and> table9_agrees csv paper"
proof (cases "r_table9 res")
  case None
  with assms show ?thesis by (auto simp: table9_checks_def)
next
  case (Some csv)
  with assms(1) obtain ks tab rows css where
    t: "map_py row_pairs csv = Inr ks" "obj_item paper ''table9'' = Inr tab" "py_iter tab = Inr rows"
    and m: "map_py (table9_row_checks shw (zip ks csv)) rows = Inr css" and cs: "cs = concat css"
    by (auto simp: table9_checks_def bind_py_eq_Inr)
  have "\<exists>pairs got. obj_item row ''pairs'' = Inr pairs \<and> row_for (zip ks csv) pairs = Inr (Some got) \<and>
      (\<forall>(field, tol) \<in> set TABLE9_TOL. \<exists>e v. obj_item row field = Inr e \<and>
         as_float (row_text got field) = Inr v \<and> close_cell e v tol = Inr True)"
    if "row \<in> set rows" for row
  proof -
    from map_py_elem [OF m that] cs assms(2) obtain rcs where
      r: "table9_row_checks shw (zip ks csv) row = Inr rcs" "\<forall>c \<in> set rcs. passed c" by auto
    then obtain pairs found where f: "obj_item row ''pairs'' = Inr pairs" "row_for (zip ks csv) pairs = Inr found"
      by (auto simp: table9_row_checks_def bind_py_eq_Inr)
    with r obtain got where g: "found = Some got"
      by (cases found) (auto simp: table9_row_checks_def)
    with r(1) f have cells: "map_py (cell_check row got (''table9['' @ py_str shw pairs @ '']'') shw) TABLE9_TOL = Inr rcs"
      by (simp add: table9_row_checks_def)
    have "\<exists>e v. obj_item row field = Inr e \<and> as_float (row_text got field) = Inr v \<and> close_cell e v tol = Inr True"
      if "(field, tol) \<in> set TABLE9_TOL" for field tol
      using map_py_elem [OF cells that] r(2) by (auto simp: cell_check_def bind_py_eq_Inr simp del: append.simps)
    with f g show ?thesis by blast
  qed
  with t Some show ?thesis unfolding table9_agrees_def by blast
qed

lemma scalar_checks_passed:
  assumes "scalar_checks shw res paper = Inr cs" "\<forall>c \<in> set cs. passed c"
  shows "\<exists>scalars. r_scalars res = Some scalars \<and> (\<forall>(key, paper_key, tol) \<in> set SCALARS.
    \<exists>e a. obj_item paper paper_key = Inr e \<and> py_get scalars key JNull = Inr a \<and> close_to e a tol = Inr True)"
proof (cases "r_scalars res")
  case None
  with assms show ?thesis by (auto simp: scalar_checks_def)
next
  case (Some scalars)
  with assms have m: "map_py (scalar_check shw paper scalars) SCALARS = Inr cs"
    by (simp add: scalar_checks_def)
  have "\<exists>e a. obj_item paper paper_key = Inr e \<and> py_get scalars key JNull = Inr a \<and> close_to e a tol = Inr True"
    if kt: "(key, paper_key, tol) \<in> set SCALARS" for key paper_key tol
    using map_py_elem [OF m kt] assms(2) by (auto simp: scalar_check_def bind_py_eq_Inr)
  with Some show ?thesis by blast
qed

lemma sequence_checks_passed:
  assumes "sequence_checks n res exp1 = Inr cs" "\<forall>c \<in> set cs. passed c"
  shows "\<exists>text1 text2. x_events exp1 n = Some text1 \<and> r_transcript res n = Some text2 \<and>
    (\<forall>c. subseq (component_events c text1) (component_events c text2))"
proof -
  obtain text1 where t1: "x_events exp1 n = Some text1"
    using assms(1) by (auto simp: sequence_checks_def split: option.splits)
  obtain text2 where t2: "r_transcript res n = Some text2"
    using assms t1 by (auto simp: sequence_checks_def Let_def split: option.splits)
  have "subseq (component_events c text1) (component_events c text2)" for c
  proof (cases "component_events c text1")
    case (Cons x xs)
    then have "(c, component_events c text1) \<in> set (by_component (events_in text1))"
      by (simp add: by_component_entry component_events_def)
    then have "passed (component_check n (by_component (events_in text2)) (c, component_events c text1))"
      using assms t1 t2 by (auto simp: sequence_checks_def Let_def)
    then show ?thesis by (simp add: component_check_passes component_events_def)
  qed simp
  with t1 t2 show ?thesis by blast
qed

text \<open>Property C17. Exit status 0 is never vacuous: the command line named known groups only, every check passed, and
  for each selected group the results exist and agree: the three sizes of the model, the numbers of its
  invariants and guards and of the seeded faults that were detected equal the published ones, every row of
  the published Table 9 is in the file with all four cells within their tolerances, every scalar is within
  its tolerance, and both transcripts contain their expected events.\<close>

theorem exit_zero_reproduces:
  assumes "compare_main shw arg res exp1 = Inr (0, cks)"
  shows "selected arg \<subseteq> set GROUPS \<and> selected arg \<noteq> {} \<and> (\<forall>c \<in> set cks. passed c) \<and>
    (''model'' \<in> selected arg \<longrightarrow> (\<exists>report. r_report res = Some report \<and>
      model_agrees report (x_paper exp1))) \<and>
    (''analysis'' \<in> selected arg \<longrightarrow> (\<exists>csv. r_table9 res = Some csv \<and> table9_agrees csv (x_paper exp1)) \<and> (\<exists>scalars. r_scalars res = Some scalars \<and>
      (\<forall>(key, paper_key, tol) \<in> set SCALARS. \<exists>e a. obj_item (x_paper exp1) paper_key = Inr e \<and>
        py_get scalars key JNull = Inr a \<and> close_to e a tol = Inr True))) \<and>
    (''transcripts'' \<in> selected arg \<longrightarrow> (\<forall>n \<in> {''s1'', ''s2''}. \<exists>text1 text2.
      x_events exp1 n = Some text1 \<and> r_transcript res n = Some text2 \<and>
      (\<forall>c. subseq (component_events c text1) (component_events c text2))))"
proof -
  note z = compare_main_zero [OF assms]
  have known: "selected arg \<subseteq> set GROUPS" "selected arg \<noteq> {}"
  proof -
    have "set (unknown_groups (parse_only arg)) = {}" using z(1) by simp
    then have "filter (\<lambda>g. g \<notin> set GROUPS) (case parse_only arg of None \<Rightarrow> [] | Some gs \<Rightarrow> gs) = []"
      unfolding unknown_groups_def set_sort set_remdups by (simp only: set_empty)
    then show "selected arg \<subseteq> set GROUPS"
      by (auto simp: selected_def filter_empty_conv split: option.splits list.splits)
    show "selected arg \<noteq> {}"
      by (auto simp: selected_def GROUPS_def split: option.splits list.splits)
  qed
  have all: "\<forall>c \<in> set cs. passed c" if "set cs \<subseteq> set cks" for cs using that z(3) by blast
  have tab: "\<exists>csv. r_table9 res = Some csv \<and> table9_agrees csv (x_paper exp1)" if an: "''analysis'' \<in> selected arg"
  proof -
    obtain cs where "table9_checks shw res (x_paper exp1) = Inr cs" "set cs \<subseteq> set cks"
      using compare_all_groups(2) [OF z(2) an] by blast
    then show ?thesis using all [of cs] by (intro table9_checks_passed)
  qed
  have mod: "\<exists>report. r_report res = Some report \<and> model_agrees report (x_paper exp1)"
    if m: "''model'' \<in> selected arg"
  proof -
    obtain cs where "model_checks shw res (x_paper exp1) = Inr cs" "set cs \<subseteq> set cks"
      using compare_all_groups(1) [OF z(2) m] by blast
    then show ?thesis using all [of cs] by (intro model_checks_passed)
  qed
  have sca: "\<exists>scalars. r_scalars res = Some scalars \<and> (\<forall>(key, paper_key, tol) \<in> set SCALARS.
      \<exists>e a. obj_item (x_paper exp1) paper_key = Inr e \<and> py_get scalars key JNull = Inr a \<and> close_to e a tol = Inr True)"
    if an: "''analysis'' \<in> selected arg"
  proof -
    obtain cs where "scalar_checks shw res (x_paper exp1) = Inr cs" "set cs \<subseteq> set cks"
      using compare_all_groups(3) [OF z(2) an] by blast
    then show ?thesis using all [of cs] by (intro scalar_checks_passed)
  qed
  have seq: "\<exists>text1 text2. x_events exp1 n = Some text1 \<and> r_transcript res n = Some text2 \<and>
      (\<forall>c. subseq (component_events c text1) (component_events c text2))"
    if t: "''transcripts'' \<in> selected arg" and n: "n \<in> {''s1'', ''s2''}" for n
  proof -
    obtain cs where "sequence_checks n res exp1 = Inr cs" "set cs \<subseteq> set cks"
      using compare_all_groups(4) [OF z(2) t n] by blast
    then show ?thesis using all [of cs] by (intro sequence_checks_passed)
  qed
  show ?thesis by (intro conjI impI ballI known z(3) tab mod sca seq)
qed

theorem exit_zero_reproduces_witness:
  "\<exists>cks. compare_main (\<lambda>_. []) (Some ''transcripts'') demo_results demo_expected = Inr (0, cks) \<and>
     (\<forall>n \<in> {''s1'', ''s2''}. \<exists>text1 text2. x_events demo_expected n = Some text1 \<and>
        r_transcript demo_results n = Some text2 \<and>
        (\<forall>c. subseq (component_events c text1) (component_events c text2)))"
proof -
  have sel: "''transcripts'' \<in> selected (Some ''transcripts'')" by code_simp
  have "map_sum (\<lambda>_. ()) fst (compare_main (\<lambda>_. []) (Some ''transcripts'') demo_results demo_expected) = Inr 0"
    by code_simp
  then obtain cks where
    c: "compare_main (\<lambda>_. []) (Some ''transcripts'') demo_results demo_expected = Inr (0, cks)"
    by (cases "compare_main (\<lambda>_. []) (Some ''transcripts'') demo_results demo_expected") auto
  show ?thesis using exit_zero_reproduces [OF c] sel c by blast
qed

section \<open>The published numbers\<close>

text \<open>\<open>src/expected/paper_numbers.json\<close>.\<close>

definition PAPER_TABLE9 :: "json list" where
  "PAPER_TABLE9 =
    [JObj [(''pairs'', JInt 1), (''demand'', JFloat (1389 / 1000000)),
        (''headroom'', JFloat (5968125 / 100)), (''endurance_h'', JFloat (6551942 / 10)),
        (''refill_min'', JFloat (1 / 1000))],
     JObj [(''pairs'', JInt 1000), (''demand'', JFloat (1388889 / 1000000)),
        (''headroom'', JFloat (59681 / 1000)), (''endurance_h'', JFloat (655194 / 1000)),
        (''refill_min'', JFloat (1022 / 1000))],
     JObj [(''pairs'', JInt 10000), (''demand'', JFloat (13888889 / 1000000)),
        (''headroom'', JFloat (5968 / 1000)), (''endurance_h'', JFloat (65519 / 1000)),
        (''refill_min'', JFloat (12078 / 1000))],
     JObj [(''pairs'', JInt 50000), (''demand'', JFloat (69444444 / 1000000)),
        (''headroom'', JFloat (1194 / 1000)), (''endurance_h'', JFloat (13104 / 1000)),
        (''refill_min'', JFloat (30988 / 100))],
     JObj [(''pairs'', JInt 60000), (''demand'', JFloat (83333333 / 1000000)),
        (''headroom'', JFloat (995 / 1000)), (''endurance_h'', JFloat (10920 / 1000)),
        (''refill_min'', JNull)]]"

definition PAPER_NUMBERS :: json where
  "PAPER_NUMBERS = JObj
    [(''states'', JInt 45824), (''transitions'', JInt 307680), (''max_depth'', JInt 16),
     (''invariants'', JInt 9), (''guards'', JInt 4), (''seeded_states'', JInt 9),
     (''seeded_transitions'', JInt 4), (''demand_units_per_s'', JFloat (1388889 / 1000000000)),
     (''source_rate_units_per_s'', JFloat (82890625 / 1000000)),
     (''inventory_units'', JInt 3275971), (''ceiling_pairs'', JFloat (5968125 / 100)),
     (''table9'', JList PAPER_TABLE9), (''reserve_24h_1000_pct'', JFloat (963 / 10)),
     (''reserve_24h_10000_pct'', JFloat (634 / 10)), (''depletion_50000_h'', JFloat (131 / 10)),
     (''refill_1h_1000_min'', JFloat (102 / 100)), (''refill_1h_10000_min'', JFloat (121 / 10)),
     (''refill_1h_50000_h'', JFloat (516 / 100)),
     (''source_label_secure_key_rate'', JStr ''Secure Key Rate (256bps)''),
     (''secure_bit_rate'', JInt 21220), (''secure_key_rate_256'', JInt 82)]"

text \<open>What the files of the analysis may be: the numbers of \<open>run_scalars\<close> and of Table 9 up to an error of
  at most a ten-millionth and a twenty-thousandth, which leaves room for the rounding of floats.\<close>

definition reads_scalars :: "json \<Rightarrow> (string \<times> json) list \<Rightarrow> bool" where
  "reads_scalars scalars vals \<longleftrightarrow>
     (\<forall>(k, v) \<in> set vals.
        case (bind_py (py_get scalars k JNull) as_num, as_num v) of
          (Inr x, Inr y) \<Rightarrow> \<bar>x - y\<bar> \<le> 1 / 10000000
        | _ \<Rightarrow> False)"

lemma reads_scalarsD:
  assumes "reads_scalars scalars vals" "(k, v) \<in> set vals"
  obtains a x y where "py_get scalars k JNull = Inr a" "a \<noteq> JNull" "as_num a = Inr x" "as_num v = Inr y"
    "\<bar>x - y\<bar> \<le> 1 / 10000000"
proof -
  from assms have "case (bind_py (py_get scalars k JNull) as_num, as_num v) of
      (Inr x, Inr y) \<Rightarrow> \<bar>x - y\<bar> \<le> 1 / 10000000 | _ \<Rightarrow> False" by (auto simp: reads_scalars_def)
  then obtain x y where "bind_py (py_get scalars k JNull) as_num = Inr x" "as_num v = Inr y"
    "\<bar>x - y\<bar> \<le> 1 / 10000000" by (auto split: sum.splits)
  moreover have "as_num JNull \<noteq> Inr x" by (simp add: as_num_def)
  ultimately show thesis using that by (auto simp: bind_py_eq_Inr)
qed

definition reads_cell :: "string option \<Rightarrow> rat option \<Rightarrow> bool" where
  "reads_cell content v =
     (case (as_float content, v) of
        (Inr None, None) \<Rightarrow> True
      | (Inr (Some (FNum x)), Some q) \<Rightarrow> \<bar>x - q\<bar> \<le> 1 / 20000
      | _ \<Rightarrow> False)"

definition reads_row :: "csv_row \<Rightarrow> table_row \<Rightarrow> bool" where
  "reads_row row tr \<longleftrightarrow>
     row_pairs row = Inr (tr_pairs tr) \<and>
     reads_cell (row_text row ''demand'') (Some (tr_demand tr)) \<and>
     reads_cell (row_text row ''headroom'') (Some (tr_headroom tr)) \<and>
     reads_cell (row_text row ''endurance_h'') (Some (tr_endurance_h tr)) \<and>
     reads_cell (row_text row ''refill_min'') (tr_refill_min tr)"

text \<open>A published number that leaves room for the error.\<close>

definition fits :: "json \<Rightarrow> rat option \<Rightarrow> rat \<Rightarrow> bool" where
  "fits e v tol =
     (case v of None \<Rightarrow> e = JNull | Some q \<Rightarrow> (\<exists>x. e \<noteq> JNull \<and> as_num e = Inr x \<and> \<bar>x\<bar> \<le> 1000000 \<and> \<bar>x - q\<bar> \<le> tol - 1 / 10000))"

lemma fits_simps [simp]:
  "fits (JFloat x) (Some q) tol \<longleftrightarrow> \<bar>x\<bar> \<le> 1000000 \<and> \<bar>x - q\<bar> \<le> tol - 1 / 10000"
  "fits JNull None tol"
  by (simp_all add: fits_def as_num_def)

text \<open>Rounding the two numbers, their difference and the tolerance leaves a difference that is below the tolerance by
  a ten-millionth.\<close>

lemma fl_small:
  assumes "\<bar>x\<bar> \<le> 2 * 10 ^ 6"
  shows "\<bar>fl x - x\<bar> \<le> 1 / 10 ^ 9"
proof -
  have "\<bar>fl x - x\<bar> \<le> \<bar>x\<bar> / 2 ^ 53 + 1 / 2 ^ 100" by (rule fl_near)
  also have "\<dots> \<le> 2 * 10 ^ 6 / 2 ^ 53 + 1 / 2 ^ 100" using assms by (intro add_mono divide_right_mono) simp_all
  also have "\<dots> \<le> (1 / 10 ^ 9 :: rat)" by simp
  finally show ?thesis .
qed

lemma close_doubles:
  assumes "\<bar>x\<bar> \<le> 10 ^ 6" "\<bar>x - y\<bar> \<le> tol - 1 / 10 ^ 7" "tol \<le> 1"
  shows "\<bar>fl (fl x - fl y)\<bar> \<le> fl tol" "\<bar>x - y\<bar> \<le> fl tol" "\<bar>y\<bar> \<le> 2 * 10 ^ 6"
proof -
  have b: "\<bar>x\<bar> \<le> 1000000" "\<bar>x - y\<bar> \<le> tol - 1 / 10000000" "1 / 10 ^ 9 = (1 / 1000000000 :: rat)" using assms by simp_all
  have y: "\<bar>y\<bar> \<le> 1000002" using b(1,2) assms(3) by linarith
  then show "\<bar>y\<bar> \<le> 2 * 10 ^ 6" by simp
  then have e: "\<bar>fl x - x\<bar> \<le> 1 / 1000000000" "\<bar>fl y - y\<bar> \<le> 1 / 1000000000"
    using fl_small [of x] fl_small [of y] b(1) by simp_all
  have t: "\<bar>fl tol - tol\<bar> \<le> 1 / 1000000000" using fl_small [of tol] assms(3) b(2) by (simp add: abs_le_iff)
  have "\<bar>fl x - fl y\<bar> \<le> 2000000" using b(2) assms(3) e by linarith
  then have d: "\<bar>fl (fl x - fl y) - (fl x - fl y)\<bar> \<le> 1 / 1000000000" using fl_small [of "fl x - fl y"] by simp
  show "\<bar>fl (fl x - fl y)\<bar> \<le> fl tol" using d e t b(2) by linarith
  show "\<bar>x - y\<bar> \<le> fl tol" using t b(2) by linarith
qed

lemma close_to_passes:
  assumes "e \<noteq> JNull" "a \<noteq> JNull" "as_num e = Inr x" "as_num a = Inr y"
    and "\<bar>x\<bar> \<le> 1000000" "\<bar>x - y\<bar> \<le> tol - 1 / 10000000" "tol \<le> 1"
  shows "close_to e a tol = Inr True"
proof -
  have c: "\<bar>fl (fl x - fl y)\<bar> \<le> fl tol" "\<bar>x - y\<bar> \<le> fl tol" "\<bar>y\<bar> \<le> 2000000"
    using close_doubles [of x y tol] assms(5-7) by simp_all
  have "(2000000 :: int) < FLOAT_END" by (simp add: FLOAT_END_def)
  then have "(2000000 :: rat) < of_int FLOAT_END" by (metis of_int_less_iff of_int_numeral)
  then have "\<not> of_int FLOAT_END \<le> \<bar>x\<bar>" "\<not> of_int FLOAT_END \<le> \<bar>y\<bar>" using c(3) assms(5) by linarith+
  then have "to_double e = Inr (fl x)" "to_double a = Inr (fl y)" using assms(3,4) by (simp_all add: to_double_def)
  then show ?thesis using assms(1-4) c(1,2) by (simp add: close_to_def abs_difference_def)
qed

lemma cell_passes:
  assumes "obj_item row field = Inr e" "fits e v tol" "tol \<le> 1" "reads_cell (row_text got field) v"
  shows "\<exists>c. cell_check row got label shw (field, tol) = Inr c \<and> passed c"
proof (cases v)
  case None
  with assms(4) have "as_float (row_text got field) = Inr None"
    by (auto simp: reads_cell_def split: sum.splits option.splits float_text.splits)
  with None assms(1,2) show ?thesis by (simp add: fits_def cell_check_def close_cell_def del: append.simps)
next
  case (Some q)
  with assms obtain x y where e: "e \<noteq> JNull" "as_num e = Inr x" "\<bar>x - q\<bar> \<le> tol - 1 / 10000" "\<bar>x\<bar> \<le> 1000000"
    and c: "as_float (row_text got field) = Inr (Some (FNum y))" "\<bar>y - q\<bar> \<le> 1 / 20000"
    by (auto simp: fits_def reads_cell_def split: sum.splits option.splits float_text.splits)
  then have "\<bar>x - y\<bar> \<le> tol - 1 / 10000000" by linarith
  with e assms(3) have "close_cell e (Some (FNum y)) tol = Inr True"
    using close_to_passes [of e "JFloat y" x y tol] by (simp add: close_cell_def as_num_def)
  with assms(1) c(1) show ?thesis by (simp add: cell_check_def del: append.simps)
qed

lemma map_py_passes:
  "(\<And>x. x \<in> set xs \<Longrightarrow> \<exists>c. f x = Inr c \<and> P c) \<Longrightarrow> \<exists>cs. map_py f xs = Inr cs \<and> (\<forall>c \<in> set cs. P c)"
proof (induction xs)
  case (Cons x xs)
  then obtain c cs where "f x = Inr c" "P c" "map_py f xs = Inr cs" "\<forall>c \<in> set cs. P c"
    by (metis list.set_intros)
  then show ?case by simp
qed simp

text \<open>One row of the published table against the row that was read.\<close>

lemma table9_row_passes:
  assumes "obj_item row ''pairs'' = Inr (JInt p)" "row_for actual (JInt p) = Inr (Some got)"
    and "reads_row got tr"
    and "obj_item row ''demand'' = Inr d" "fits d (Some (tr_demand tr)) (1 / 1000)"
    and "obj_item row ''headroom'' = Inr h" "fits h (Some (tr_headroom tr)) (1 / 1000)"
    and "obj_item row ''endurance_h'' = Inr e" "fits e (Some (tr_endurance_h tr)) (1 / 100)"
    and "obj_item row ''refill_min'' = Inr f" "fits f (tr_refill_min tr) (1 / 100)"
  shows "\<exists>cs. table9_row_checks shw actual row = Inr cs \<and> (\<forall>c \<in> set cs. passed c)"
proof -
  have "\<exists>c. cell_check row got label shw ft = Inr c \<and> passed c" if "ft \<in> set TABLE9_TOL" for ft label
    using that assms by (auto simp: TABLE9_TOL_def reads_row_def intro: cell_passes)
  from map_py_passes [OF this] assms(1,2) show ?thesis
    by (simp add: table9_row_checks_def Let_def del: append.simps)
qed

lemma table9_value:
  "table9 SOURCE_RATE INVENTORY TABLE9_PAIRS = Inr
    [\<lparr> tr_pairs = 1, tr_demand = 1 / 720, tr_headroom = 238725 / 4, tr_endurance_h = 3275971 / 5,
       tr_refill_min = Some (240 / 238721) \<rparr>,
     \<lparr> tr_pairs = 1000, tr_demand = 25 / 18, tr_headroom = 9549 / 160, tr_endurance_h = 3275971 / 5000,
       tr_refill_min = Some (9600 / 9389) \<rparr>,
     \<lparr> tr_pairs = 10000, tr_demand = 125 / 9, tr_headroom = 9549 / 1600, tr_endurance_h = 3275971 / 50000,
       tr_refill_min = Some (96000 / 7949) \<rparr>,
     \<lparr> tr_pairs = 50000, tr_demand = 625 / 9, tr_headroom = 9549 / 8000, tr_endurance_h = 3275971 / 250000,
       tr_refill_min = Some (480000 / 1549) \<rparr>,
     \<lparr> tr_pairs = 60000, tr_demand = 250 / 3, tr_headroom = 3183 / 3200, tr_endurance_h = 3275971 / 300000,
       tr_refill_min = None \<rparr>]"
  by (simp add: table9_def TABLE9_PAIRS_def table9_row_def endurance_s_def refill_s_def Let_def
      SOURCE_RATE_def INVENTORY_def py_div_def)

lemma run_scalars_value:
  "run_scalars = Inr
    [(''D'', JFloat (1 / 720)), (''mQ'', JFloat (238725 / 4)),
     (''reserve_24h_1000_pct'', JFloat (100 * (1 - 120000 / 3275971))),
     (''reserve_24h_10000_pct'', JFloat (100 * (1 - 1200000 / 3275971))),
     (''depletion_50000_h'', JFloat (3275971 / 250000)), (''refill_1h_1000_min'', JFloat (9600 / 9389)),
     (''refill_1h_10000_min'', JFloat (96000 / 7949)), (''refill_1h_50000_h'', JFloat (8000 / 1549))]"
  by (simp add: run_scalars_def ceiling_pairs_def reserve_pct_def depletion_s_def refill_s_def opt_div_def
      Let_def SOURCE_RATE_def INVENTORY_def py_div_def)

lemma paper_items:
  "obj_item PAPER_NUMBERS ''table9'' = Inr (JList PAPER_TABLE9)"
  "obj_item PAPER_NUMBERS ''demand_units_per_s'' = Inr (JFloat (1388889 / 1000000000))"
  "obj_item PAPER_NUMBERS ''ceiling_pairs'' = Inr (JFloat (5968125 / 100))"
  "obj_item PAPER_NUMBERS ''reserve_24h_1000_pct'' = Inr (JFloat (963 / 10))"
  "obj_item PAPER_NUMBERS ''reserve_24h_10000_pct'' = Inr (JFloat (634 / 10))"
  "obj_item PAPER_NUMBERS ''depletion_50000_h'' = Inr (JFloat (131 / 10))"
  "obj_item PAPER_NUMBERS ''refill_1h_1000_min'' = Inr (JFloat (102 / 100))"
  "obj_item PAPER_NUMBERS ''refill_1h_10000_min'' = Inr (JFloat (121 / 10))"
  "obj_item PAPER_NUMBERS ''refill_1h_50000_h'' = Inr (JFloat (516 / 100))"
  by (simp_all add: obj_item_def PAPER_NUMBERS_def)

definition near :: "json \<Rightarrow> json \<Rightarrow> rat \<Rightarrow> bool" where
  "near e v tol \<longleftrightarrow> e \<noteq> JNull \<and> (\<exists>x y. as_num e = Inr x \<and> as_num v = Inr y \<and>
     tol \<le> 1 \<and> \<bar>x\<bar> \<le> 1000000 \<and> \<bar>x - y\<bar> \<le> tol - 2 / 10000000)"

lemma near_JFloat [simp]: "near (JFloat x) (JFloat y) tol \<longleftrightarrow> tol \<le> 1 \<and> \<bar>x\<bar> \<le> 1000000 \<and> \<bar>x - y\<bar> \<le> tol - 2 / 10000000"
  by (simp add: near_def as_num_def)

lemma scalar_passes:
  assumes "obj_item paper pk = Inr e" "reads_scalars scalars vals" "(k, v) \<in> set vals" "near e v tol"
  shows "\<exists>c. scalar_check shw paper scalars (k, pk, tol) = Inr c \<and> passed c"
proof -
  from assms(2,3) obtain a y z where a: "py_get scalars k JNull = Inr a" "a \<noteq> JNull" "as_num a = Inr z"
    and v: "as_num v = Inr y" "\<bar>z - y\<bar> \<le> 1 / 10000000" by (rule reads_scalarsD)
  from assms(4) v obtain x where x: "e \<noteq> JNull" "as_num e = Inr x" "\<bar>x - y\<bar> \<le> tol - 2 / 10000000"
      "\<bar>x\<bar> \<le> 1000000" "tol \<le> 1"
    by (auto simp: near_def)
  with v have "\<bar>x - z\<bar> \<le> tol - 1 / 10000000" by linarith
  with a x assms(1) close_to_passes [of e a x z tol] show ?thesis by (simp add: scalar_check_def del: append.simps)
qed

lemma published_scalars_near:
  assumes "run_scalars = Inr vals"
  shows "\<forall>(k, pk, tol) \<in> set SCALARS. \<exists>e v. obj_item PAPER_NUMBERS pk = Inr e \<and> (k, v) \<in> set vals \<and> near e v tol"
proof -
  have "\<forall>(k, pk, tol) \<in> set SCALARS. \<exists>e v. obj_item PAPER_NUMBERS pk = Inr e \<and> map_of vals k = Some v \<and> near e v tol"
    using assms unfolding run_scalars_value by (auto simp: SCALARS_def paper_items)
  then show ?thesis by (fast dest: map_of_SomeD)
qed

lemma published_scalars_pass:
  assumes "reads_scalars scalars vals" "run_scalars = Inr vals" "r_scalars res = Some scalars"
  shows "\<exists>cs. scalar_checks shw res PAPER_NUMBERS = Inr cs \<and> (\<forall>c \<in> set cs. passed c)"
proof -
  have "\<exists>c. scalar_check shw PAPER_NUMBERS scalars skt = Inr c \<and> passed c" if "skt \<in> set SCALARS" for skt
  proof -
    obtain k pk tol where skt: "skt = (k, pk, tol)" by (cases skt)
    with that published_scalars_near [OF assms(2)] obtain e v where
      "obj_item PAPER_NUMBERS pk = Inr e" "(k, v) \<in> set vals" "near e v tol" by fast
    then show ?thesis unfolding skt by (rule scalar_passes [OF _ assms(1)])
  qed
  from map_py_passes [OF this] assms(3) show ?thesis by (simp add: scalar_checks_def)
qed

lemma published_table_passes:
  assumes "table9 SOURCE_RATE INVENTORY TABLE9_PAIRS = Inr rows" "r_table9 res = Some csv"
    and "list_all2 reads_row csv rows"
  shows "\<exists>cs. table9_checks shw res PAPER_NUMBERS = Inr cs \<and> (\<forall>c \<in> set cs. passed c)"
proof -
  from assms(1,3) obtain r1 r2 r3 r4 r5 where csv: "csv = [r1, r2, r3, r4, r5]"
    unfolding table9_value by (auto simp: list_all2_Cons2)
  note rr = assms(3) [unfolded csv assms(1) [unfolded table9_value, THEN sum.inject(2) [THEN iffD1], symmetric]]
  have ks: "map_py row_pairs csv = Inr [1, 1000, 10000, 50000, 60000]"
    using rr by (simp add: csv reads_row_def)
  let ?actual = "zip [1, 1000, 10000, 50000, 60000] csv"
  have "\<exists>cs. table9_row_checks shw ?actual row = Inr cs \<and> (\<forall>c \<in> set cs. passed c)"
    if "row \<in> set PAPER_TABLE9" for row
    using that rr unfolding PAPER_TABLE9_def
    by (auto intro!: table9_row_passes simp: obj_item_def row_for_def csv)
  then obtain css where "map_py (table9_row_checks shw ?actual) PAPER_TABLE9 = Inr css"
    "\<forall>cs \<in> set css. \<forall>c \<in> set cs. passed c"
    using map_py_passes [of PAPER_TABLE9 "table9_row_checks shw ?actual" "\<lambda>cs. \<forall>c \<in> set cs. passed c"] by blast
  then show ?thesis using assms(2) ks by (simp add: table9_checks_def paper_items py_iter_def)
qed

text \<open>With files that hold what \<open>run_all\<close> computes, up to the error above, \<open>compare.py --only analysis\<close> exits
  with status 0 against the published numbers: Table 9 and the eight scalars are all reproduced.\<close>

theorem published_analysis_reproduced:
  assumes "table9 SOURCE_RATE INVENTORY TABLE9_PAIRS = Inr rows" and "run_scalars = Inr vals"
    and "r_table9 res = Some csv" and "list_all2 reads_row csv rows"
    and "r_scalars res = Some scalars" and "reads_scalars scalars vals"
    and "x_paper exp1 = PAPER_NUMBERS"
  shows "\<exists>cks. compare_main shw (Some ''analysis'') res exp1 = Inr (0, cks) \<and> (\<forall>c \<in> set cks. passed c)"
proof -
  obtain b c where b: "table9_checks shw res PAPER_NUMBERS = Inr b" "\<forall>x \<in> set b. passed x"
    and c: "scalar_checks shw res PAPER_NUMBERS = Inr c" "\<forall>x \<in> set c. passed x"
    using published_table_passes [OF assms(1,3,4)] published_scalars_pass [OF assms(6,2,5)] by blast
  have only: "parse_only (Some ''analysis'') = Some [''analysis'']" "unknown_groups (Some [''analysis'']) = []"
    by code_simp+
  have all: "compare_all shw res exp1 (Some [''analysis'']) = Inr (b @ c)"
    using b(1) c(1) assms(7) by (simp add: compare_all_def Let_def)
  have "filter (\<lambda>x. ck_result x = ''FAIL'') (b @ c) = []"
    using b(2) c(2) by (auto simp: filter_empty_conv passed_def)
  then show ?thesis using b(2) c(2) all by (auto simp: compare_main_def only Let_def)
qed

definition demo_csv :: "csv_row list" where
  "demo_csv = map (\<lambda>vs. zip [''pairs'', ''demand'', ''headroom'', ''endurance_h'', ''refill_min''] (map Some vs))
     [[''1'', ''0.001389'', ''59681.25'', ''655194.2'', ''0.0010053''],
      [''1000'', ''1.3888888'', ''59.68125'', ''655.1942'', ''1.0224731''],
      [''10000'', ''13.888888'', ''5.968125'', ''65.51942'', ''12.076991''],
      [''50000'', ''69.444444'', ''1.193625'', ''13.103884'', ''309.87734''],
      [''60000'', ''83.333333'', ''0.9946875'', ''10.919903'', '''']]"

lemma demo_csv_reads:
  "table9 SOURCE_RATE INVENTORY TABLE9_PAIRS = Inr rows \<Longrightarrow> list_all2 reads_row demo_csv rows"
  unfolding table9_value sum.inject
  by (erule subst) (simp add: demo_csv_def reads_row_def reads_cell_def row_text_def row_pairs_def as_float_def
      py_float_simps)

theorem published_analysis_reproduced_witness:
  "\<exists>scalars rows cks. list_all2 reads_row demo_csv rows \<and>
     compare_main (\<lambda>_. []) (Some ''analysis'')
       (demo_results\<lparr>r_table9 := Some demo_csv, r_scalars := Some scalars\<rparr>)
       (demo_expected\<lparr>x_paper := PAPER_NUMBERS\<rparr>) = Inr (0, cks)"
proof -
  obtain rows where rows: "table9 SOURCE_RATE INVENTORY TABLE9_PAIRS = Inr rows" unfolding table9_value by blast
  obtain vals where vals: "run_scalars = Inr vals" unfolding run_scalars_value by blast
  have reads: "reads_scalars (JObj vals) vals"
    using vals unfolding run_scalars_value sum.inject
    by (elim subst) (simp add: reads_scalars_def py_get_def as_num_def)
  have csv: "list_all2 reads_row demo_csv rows" by (rule demo_csv_reads [OF rows])
  show ?thesis
    using published_analysis_reproduced [OF rows vals _ csv _ reads,
        of "demo_results\<lparr>r_table9 := Some demo_csv, r_scalars := Some (JObj vals)\<rparr>"
          "demo_expected\<lparr>x_paper := PAPER_NUMBERS\<rparr>" "\<lambda>_. []"] csv by force
qed

end
