(* ===== verification/Regex.thy ===== *)
theory Regex
  imports QkdPrelude "HOL-Library.Sublist"
begin

text \<open>
  The part of Python's \<open>re\<close> that the redaction uses: character classes, greedy repetition, alternatives in
  order, negative lookaround on one character and word boundaries. \<open>ends\<close> lists the ends of the matches at
  a position in the order in which backtracking finds them; a position is the character before it and the
  text after it. \<open>sub_all\<close> is \<open>pattern.sub\<close> with a constant replacement and \<open>found\<close> is \<open>pattern.search\<close>.
\<close>

datatype regex =
    Chr "char \<Rightarrow> bool"
  | Cat regex regex
  | Or regex regex
  | Opt regex
  | AtLeast nat "char \<Rightarrow> bool"
  | Between nat nat "char \<Rightarrow> bool"
  | NotBehind "char \<Rightarrow> bool"
  | NotAhead "char \<Rightarrow> bool"
  | Boundary
  | Empty

type_synonym pos = "char option \<times> string"

definition advance :: "pos \<Rightarrow> nat \<Rightarrow> pos" where
  "advance p k = ((if k = 0 then fst p else Some (snd p ! (k - 1))), drop k (snd p))"

text \<open>\<open>\w\<close> as Python has it below 256: letters, digits and other numerals, the underscore.\<close>

definition word_char :: "char \<Rightarrow> bool" where
  "word_char c \<longleftrightarrow>
     (let n = of_char c :: nat
      in (48 \<le> n \<and> n \<le> 57) \<or> (65 \<le> n \<and> n \<le> 90) \<or> n = 95 \<or> (97 \<le> n \<and> n \<le> 122) \<or>
         n \<in> {170, 178, 179, 181, 185, 186, 188, 189, 190} \<or>
         (192 \<le> n \<and> n \<noteq> 215 \<and> n \<noteq> 247))"

definition head_is :: "(char \<Rightarrow> bool) \<Rightarrow> string \<Rightarrow> bool" where
  "head_is P s = (case s of [] \<Rightarrow> False | c # cs \<Rightarrow> P c)"

fun ends :: "regex \<Rightarrow> pos \<Rightarrow> pos list" where
  "ends (Chr P) p = (if head_is P (snd p) then [advance p 1] else [])"
| "ends (Cat r s) p = concat (map (ends s) (ends r p))"
| "ends (Or r s) p = ends r p @ ends s p"
| "ends (Opt r) p = ends r p @ [p]"
| "ends (AtLeast n P) p = map (advance p) (rev [n..<Suc (length (takeWhile P (snd p)))])"
| "ends (Between n m P) p = map (advance p) (rev [n..<Suc (min m (length (takeWhile P (snd p))))])"
| "ends (NotBehind P) p = (case fst p of Some c \<Rightarrow> if P c then [] else [p] | None \<Rightarrow> [p])"
| "ends (NotAhead P) p = (if head_is P (snd p) then [] else [p])"
| "ends Boundary p =
     (if (case fst p of Some c \<Rightarrow> word_char c | None \<Rightarrow> False) \<noteq> head_is word_char (snd p) then [p] else [])"
| "ends Empty p = [p]"

text \<open>A literal text.\<close>

definition literal :: "string \<Rightarrow> regex" where
  "literal w = foldr (\<lambda>c r. Cat (Chr ((=) c)) r) w Empty"

text \<open>One scan from the left; a match that is empty would be passed over, and no pattern has one.\<close>

function sub_at :: "regex \<Rightarrow> string \<Rightarrow> pos \<Rightarrow> string" where
  "sub_at r rep p =
     (case ends r p of
        q # qs \<Rightarrow>
          if length (snd q) < length (snd p) then rep @ sub_at r rep q
          else (case snd p of [] \<Rightarrow> [] | c # cs \<Rightarrow> c # sub_at r rep (Some c, cs))
      | [] \<Rightarrow> (case snd p of [] \<Rightarrow> [] | c # cs \<Rightarrow> c # sub_at r rep (Some c, cs)))"
  by pat_completeness auto
termination by (relation "measure (\<lambda>(r, rep, p). length (snd p))") auto

declare sub_at.simps [simp del]

definition sub_all :: "regex \<Rightarrow> string \<Rightarrow> string \<Rightarrow> string" where
  "sub_all r rep s = sub_at r rep (None, s)"

fun found_at :: "regex \<Rightarrow> char option \<Rightarrow> string \<Rightarrow> bool" where
  "found_at r b [] \<longleftrightarrow> ends r (b, []) \<noteq> []"
| "found_at r b (c # cs) \<longleftrightarrow> ends r (b, c # cs) \<noteq> [] \<or> found_at r (Some c) cs"

definition found :: "regex \<Rightarrow> string \<Rightarrow> bool" where
  "found r s = found_at r None s"

section \<open>Patterns without lookaround\<close>

fun plain :: "regex \<Rightarrow> bool" where
  "plain (Cat r s) \<longleftrightarrow> plain r \<and> plain s"
| "plain (Or r s) \<longleftrightarrow> plain r \<and> plain s"
| "plain (Opt r) \<longleftrightarrow> plain r"
| "plain (NotBehind P) \<longleftrightarrow> False"
| "plain (NotAhead P) \<longleftrightarrow> False"
| "plain Boundary \<longleftrightarrow> False"
| "plain r \<longleftrightarrow> True"

fun lang :: "regex \<Rightarrow> string set" where
  "lang (Chr P) = {w. \<exists>c. w = [c] \<and> P c}"
| "lang (Cat r s) = {w. \<exists>u \<in> lang r. \<exists>v \<in> lang s. w = u @ v}"
| "lang (Or r s) = lang r \<union> lang s"
| "lang (Opt r) = insert [] (lang r)"
| "lang (AtLeast n P) = {w. n \<le> length w \<and> (\<forall>c \<in> set w. P c)}"
| "lang (Between n m P) = {w. n \<le> length w \<and> length w \<le> m \<and> (\<forall>c \<in> set w. P c)}"
| "lang _ = {[]}"

text \<open>Every end lies behind a word of the language (the lookarounds constrain, they add nothing).\<close>

lemma take_takeWhile: "k \<le> length (takeWhile P s) \<Longrightarrow> \<forall>c \<in> set (take k s). P c"
  by (metis nth_mem length_take min.absorb2 in_set_conv_nth nth_take takeWhile_nth set_takeWhileD
      length_takeWhile_le order_trans less_le_trans)

lemma ends_sound: "q \<in> set (ends r p) \<Longrightarrow> \<exists>w \<in> lang r. snd p = w @ snd q"
proof (induction r p arbitrary: q rule: ends.induct)
  case (1 P p)
  then show ?case by (auto simp: head_is_def advance_def split: if_splits list.splits)
next
  case (2 r s p)
  then obtain m where m: "m \<in> set (ends r p)" "q \<in> set (ends s m)" by auto
  with 2 obtain u v where "u \<in> lang r" "snd p = u @ snd m" "v \<in> lang s" "snd m = v @ snd q" by blast
  then show ?case by (auto intro!: exI [of _ "u @ v"])
next
  case (3 r s p)
  then have "q \<in> set (ends r p) \<or> q \<in> set (ends s p)" by simp
  with 3 show ?case by fastforce
next
  case (5 n P p)
  then obtain k where k: "n \<le> k" "k \<le> length (takeWhile P (snd p))" "q = advance p k"
    by (auto simp del: upt_Suc)
  moreover have "length (take k (snd p)) = k" using k(2) length_takeWhile_le [of P "snd p"] by simp
  ultimately show ?case using take_takeWhile [OF k(2)]
    by (auto simp: advance_def intro!: exI [of _ "take k (snd p)"])
next
  case (6 n m P p)
  then obtain k where k: "n \<le> k" "k \<le> m" "k \<le> length (takeWhile P (snd p))" "q = advance p k"
    by (auto simp del: upt_Suc)
  moreover have "length (take k (snd p)) = k" using k(3) length_takeWhile_le [of P "snd p"] by simp
  ultimately show ?case using take_takeWhile [OF k(3)]
    by (auto simp: advance_def intro!: exI [of _ "take k (snd p)"])
qed (auto split: option.splits if_splits)

text \<open>Without lookaround, every word of the language in front is a match.\<close>

lemma advance_word: "snd p = w @ t \<Longrightarrow> snd (advance p (length w)) = t"
  by (simp add: advance_def)

lemma takeWhile_word: "\<forall>c \<in> set w. P c \<Longrightarrow> length w \<le> length (takeWhile P (w @ t))"
  by (simp add: takeWhile_append2)

lemma ends_complete: "plain r \<Longrightarrow> w \<in> lang r \<Longrightarrow> snd p = w @ t \<Longrightarrow> \<exists>q \<in> set (ends r p). snd q = t"
proof (induction r p arbitrary: w t rule: ends.induct)
  case (1 P p)
  then show ?case by (auto simp: head_is_def advance_def)
next
  case (2 r s p)
  from 2(4) obtain u v where w: "u \<in> lang r" "v \<in> lang s" "w = u @ v" by auto
  with 2(1) [of u "v @ t"] 2(3,5) obtain m where m: "m \<in> set (ends r p)" "snd m = v @ t" by auto
  with 2(2) [of m v t] 2(3) w obtain q where "q \<in> set (ends s m)" "snd q = t" by auto
  with m show ?case by auto
next
  case (3 r s p)
  then have "w \<in> lang r \<or> w \<in> lang s" by simp
  with 3 show ?case by fastforce
next
  case (5 n P p)
  then have "length w \<in> set [n..<Suc (length (takeWhile P (snd p)))]"
    using takeWhile_word [of w P t] by auto
  then have "advance p (length w) \<in> set (ends (AtLeast n P) p)" by (simp del: upt_Suc)
  with advance_word [OF 5(3)] show ?case by blast
next
  case (6 n m P p)
  then have "length w \<in> set [n..<Suc (min m (length (takeWhile P (snd p))))]"
    using takeWhile_word [of w P t] by auto
  then have "advance p (length w) \<in> set (ends (Between n m P) p)" by (simp del: upt_Suc)
  with advance_word [OF 6(3)] show ?case by blast
qed auto

lemma ends_lang: "plain r \<Longrightarrow> ends r (b, s) \<noteq> [] \<longleftrightarrow> (\<exists>w \<in> lang r. prefix w s)"
proof
  assume "ends r (b, s) \<noteq> []"
  then obtain q where "q \<in> set (ends r (b, s))" by (cases "ends r (b, s)") auto
  from ends_sound [OF this] show "\<exists>w \<in> lang r. prefix w s" by (auto simp: prefix_def)
next
  assume r: "plain r" and "\<exists>w \<in> lang r. prefix w s"
  then obtain w t where "w \<in> lang r" "s = w @ t" by (auto simp: prefix_def)
  with ends_complete [OF r, of w "(b, s)" t] show "ends r (b, s) \<noteq> []" by auto
qed

lemma found_at_lang: "plain r \<Longrightarrow> found_at r b s \<longleftrightarrow> (\<exists>w \<in> lang r. sublist w s)"
  by (induction s arbitrary: b) (auto simp: ends_lang sublist_Cons_right)

lemma found_lang: "plain r \<Longrightarrow> found r s \<longleftrightarrow> (\<exists>w \<in> lang r. sublist w s)"
  by (simp add: found_def found_at_lang)

section \<open>What a substitution leaves\<close>

text \<open>\<open>sub_step\<close>: the two ways a scan goes on.\<close>

lemma sub_at_cases [case_names stop skip replace]:
  obtains "snd p = []" "sub_at r rep p = []"
  | c cs where "snd p = c # cs" "sub_at r rep p = c # sub_at r rep (Some c, cs)"
      "[] \<in> lang r \<or> ends r p = []"
  | q m where "q \<in> set (ends r p)" "m \<in> lang r" "m \<noteq> []" "snd p = m @ snd q" "sub_at r rep p = rep @ sub_at r rep q"
proof (cases "ends r p")
  case Nil
  then show thesis using that(1,2) by (cases "snd p") (auto simp: sub_at.simps [of r rep p])
next
  case (Cons q qs)
  obtain m where m: "m \<in> lang r" "snd p = m @ snd q" using ends_sound [of q r p] Cons by auto
  show thesis
  proof (cases "m = []")
    case True
    with m have "snd p = snd q" "[] \<in> lang r" by auto
    with Cons have step: "sub_at r rep p = (case snd p of [] \<Rightarrow> [] | c # cs \<Rightarrow> c # sub_at r rep (Some c, cs))"
      by (simp add: sub_at.simps [of r rep p])
    show thesis
    proof (cases "snd p")
      case Nil
      with step show thesis by (intro that(1)) simp_all
    next
      case (Cons c cs)
      with step \<open>[] \<in> lang r\<close> show thesis by (intro that(2) [of c cs]) simp_all
    qed
  next
    case False
    with m Cons have "sub_at r rep p = rep @ sub_at r rep q" by (simp add: sub_at.simps [of r rep p])
    with m False Cons show thesis by (intro that(3) [of q m]) simp_all
  qed
qed

text \<open>\<open>delimited Q mid\<close>: the replacement text begins and ends with a character outside \<open>Q\<close>, so no word over
  \<open>Q\<close> reaches across its ends.\<close>

definition delimited :: "(char \<Rightarrow> bool) \<Rightarrow> string \<Rightarrow> bool" where
  "delimited Q mid \<longleftrightarrow> mid \<noteq> [] \<and> \<not> Q (hd mid) \<and> \<not> Q (last mid)"

definition over :: "(char \<Rightarrow> bool) \<Rightarrow> string \<Rightarrow> bool" where
  "over Q w \<longleftrightarrow> (\<forall>c \<in> set w. Q c)"

lemma over_append [simp]: "over Q (u @ v) \<longleftrightarrow> over Q u \<and> over Q v"
  by (auto simp: over_def)

lemma over_simps [simp]: "over Q []" "over Q (c # w) \<longleftrightarrow> Q c \<and> over Q w"
  by (auto simp: over_def)

lemma no_prefix_over: "delimited Q mid \<Longrightarrow> over Q w \<Longrightarrow> prefix w (mid @ t) \<Longrightarrow> w = []"
  by (cases w; cases mid) (auto simp: delimited_def)

lemma no_suffix_over: "delimited Q mid \<Longrightarrow> over Q w \<Longrightarrow> suffix w mid \<Longrightarrow> w = []"
  by (cases w rule: rev_cases; cases mid rule: rev_cases) (auto simp: delimited_def)

lemma prefix_over: "delimited Q mid \<Longrightarrow> over Q w \<Longrightarrow> prefix w (pre @ mid @ t) \<Longrightarrow> prefix w pre"
  using no_prefix_over [of Q mid _ t] unfolding prefix_append [of w pre] by fastforce

text \<open>A rule that keeps the first part \<open>pre\<close> and the last part \<open>post\<close> of what it matches.\<close>

definition keeps :: "regex \<Rightarrow> string \<Rightarrow> string \<Rightarrow> bool" where
  "keeps r pre post \<longleftrightarrow> (\<forall>m \<in> lang r. \<exists>x. m = pre @ x @ post)"

lemma sub_prefix:
  assumes "keeps r pre post" "delimited Q mid"
  shows "over Q w \<Longrightarrow> prefix w (sub_at r (pre @ mid @ post) p) \<Longrightarrow> prefix w (snd p)"
proof (induction "length (snd p)" arbitrary: p w rule: less_induct)
  case less
  let ?rep = "pre @ mid @ post"
  show ?case
  proof (cases rule: sub_at_cases [of p r ?rep])
    case stop
    with less.prems show ?thesis by simp
  next
    case (skip c cs)
    show ?thesis
    proof (cases w)
      case (Cons d v)
      with skip(2) less.prems have "d = c" "over Q v" "prefix v (sub_at r ?rep (Some c, cs))" by auto
      with less.hyps [of "(Some c, cs)" v] skip(1) Cons show ?thesis by simp
    qed simp
  next
    case (replace q m)
    from replace(2) assms(1) obtain x where "m = pre @ x @ post" by (auto simp: keeps_def)
    moreover have "prefix w pre"
      using prefix_over [OF assms(2) less.prems(1), of pre "post @ sub_at r ?rep q"] less.prems(2) replace(5) by simp
    ultimately show ?thesis using replace(4) by (auto simp: prefix_def)
  qed
qed

lemma factor_over:
  assumes "delimited Q mid" "over Q w" "sublist w (pre @ mid @ t)"
  shows "sublist w pre \<or> sublist w mid \<or> sublist w t"
proof -
  from assms(3) consider "sublist w pre" | "sublist w (mid @ t)"
    | u v where "w = u @ v" "suffix u pre" "prefix v (mid @ t)" by (auto simp: sublist_append)
  then show ?thesis
  proof cases
    case 1
    then show ?thesis by simp
  next
    case 2
    then consider "sublist w mid" | "sublist w t" | u v where "w = u @ v" "suffix u mid" "prefix v t"
      by (auto simp: sublist_append)
    then show ?thesis
    proof cases
      case (3 u v)
      with assms have "u = []" by (auto intro: no_suffix_over)
      with 3 show ?thesis by auto
    qed auto
  next
    case (3 u v)
    with assms have "v = []" by (auto intro: no_prefix_over)
    with 3 show ?thesis by auto
  qed
qed

text \<open>A word over \<open>Q\<close> in the result was in the text before, or is part of the replacement.\<close>

lemma sub_factor:
  assumes "keeps r pre post" "delimited Q mid"
  shows "over Q w \<Longrightarrow> sublist w (sub_at r (pre @ mid @ post) p) \<Longrightarrow> sublist w (snd p) \<or> sublist w mid"
proof (induction "length (snd p)" arbitrary: p rule: less_induct)
  case less
  let ?rep = "pre @ mid @ post"
  show ?case
  proof (cases rule: sub_at_cases [of p r ?rep])
    case stop
    with less.prems show ?thesis by simp
  next
    case (skip c cs)
    with less.prems(2) consider "prefix w (sub_at r ?rep p)" | "sublist w (sub_at r ?rep (Some c, cs))"
      by (auto simp: sublist_Cons_right)
    then show ?thesis
    proof cases
      case 1
      with sub_prefix [OF assms less.prems(1)] show ?thesis by blast
    next
      case 2
      with less.hyps [of "(Some c, cs)"] less.prems(1) skip(1) show ?thesis by (auto simp: sublist_Cons_right)
    qed
  next
    case (replace q m)
    from replace(2) assms(1) obtain x where m: "m = pre @ x @ post" by (auto simp: keeps_def)
    have len: "length (snd q) < length (snd p)" using replace(3,4) by simp
    from less.prems replace(5) have "sublist w (pre @ mid @ (post @ sub_at r ?rep q))" by simp
    from factor_over [OF assms(2) less.prems(1) this]
    consider "sublist w pre" | "sublist w mid" | "sublist w post" | "sublist w (sub_at r ?rep q)"
      | u v where "w = u @ v" "suffix u post" "prefix v (sub_at r ?rep q)" by (auto simp: sublist_append)
    then show ?thesis
    proof cases
      case 1
      then show ?thesis unfolding replace(4) m by (auto simp: sublist_append)
    next
      case 2
      then show ?thesis by simp
    next
      case 3
      then show ?thesis unfolding replace(4) m by (auto simp: sublist_append)
    next
      case 4
      with less.hyps [OF len less.prems(1)] replace(4) show ?thesis by (auto simp: sublist_append)
    next
      case (5 u v)
      with less.prems(1) sub_prefix [OF assms, of v q] have "prefix v (snd q)" by simp
      then have "sublist w (post @ snd q)" using 5 by (auto simp: sublist_append)
      then show ?thesis unfolding replace(4) m by (metis append_assoc sublist_append)
    qed
  qed
qed

text \<open>A rule for a pattern over \<open>Q\<close> leaves no match of its own.\<close>

lemma sub_clears:
  assumes "plain r" "[] \<notin> lang r" "\<And>w. w \<in> lang r \<Longrightarrow> over Q w" "delimited Q rep"
    and "\<And>w. w \<in> lang r \<Longrightarrow> \<not> sublist w rep"
  shows "w \<in> lang r \<Longrightarrow> \<not> sublist w (sub_at r rep p)"
proof (induction "length (snd p)" arbitrary: p rule: less_induct)
  case less
  have k: "keeps r [] []" by (simp add: keeps_def)
  show ?case
  proof (cases rule: sub_at_cases [of p r rep])
    case stop
    with less.prems assms(2) show ?thesis by auto
  next
    case (skip c cs)
    show ?thesis
    proof
      assume "sublist w (sub_at r rep p)"
      with skip(2) consider "prefix w (sub_at r rep p)" | "sublist w (sub_at r rep (Some c, cs))"
        by (auto simp: sublist_Cons_right)
      then show False
      proof cases
        case 1
        with sub_prefix [OF k assms(4) assms(3) [OF less.prems], of p] have "prefix w (snd p)" by simp
        with less.prems ends_lang [OF assms(1), of "fst p" "snd p"] skip(3) assms(2) show False by auto
      next
        case 2
        with less.hyps [of "(Some c, cs)"] less.prems skip(1) show False by simp
      qed
    qed
  next
    case (replace q m)
    have len: "length (snd q) < length (snd p)" using replace(3,4) by simp
    show ?thesis
    proof
      assume "sublist w (sub_at r rep p)"
      with replace(5) have "sublist w ([] @ rep @ sub_at r rep q)" by simp
      from factor_over [OF assms(4) assms(3) [OF less.prems] this]
      have "sublist w [] \<or> sublist w rep \<or> sublist w (sub_at r rep q)" .
      with assms(2,5) less.prems less.hyps [OF len less.prems] show False by auto
    qed
  qed
qed

end
