(* ===== verification/Redact.thy ===== *)
theory Redact
  imports Regex Compare
begin

text \<open>
  \<open>src/scripts/redact.py\<close>: merging, sorting and redacting log files, and the check for what survives. A
  pattern is a \<open>regex\<close> of the theory \<open>Regex\<close>; the files are their texts.
\<close>

section \<open>Patterns\<close>

definition hex_char :: "char \<Rightarrow> bool" where
  "hex_char c \<longleftrightarrow> c \<in> set ''0123456789abcdefABCDEF''"

definition alnum :: "char \<Rightarrow> bool" where
  "alnum c \<longleftrightarrow> is_digit c \<or> is_letter c"

definition UUID :: regex where
  "UUID = Cat (Between 8 8 hex_char) (Cat (literal ''-'') (Cat (Between 4 4 hex_char) (Cat (literal ''-'')
     (Cat (Between 4 4 hex_char) (Cat (literal ''-'') (Cat (Between 4 4 hex_char) (Cat (literal ''-'')
       (Between 12 12 hex_char))))))))"

definition local_char :: "char \<Rightarrow> bool" where
  "local_char c \<longleftrightarrow> alnum c \<or> c \<in> set ''._%+-''"

definition domain_char :: "char \<Rightarrow> bool" where
  "domain_char c \<longleftrightarrow> alnum c \<or> c \<in> set ''.-''"

definition EMAIL :: regex where
  "EMAIL = Cat (AtLeast 1 local_char) (Cat (literal ''@'')
     (Cat (AtLeast 1 domain_char) (Cat (literal ''.'') (AtLeast 2 is_letter))))"

definition IPV4 :: regex where
  "IPV4 =
     (let octet = Cat (literal ''.'') (Between 1 3 is_digit); side = (\<lambda>c. word_char c \<or> c = CHR ''.'')
      in Cat (NotBehind side) (Cat (Between 1 3 is_digit) (Cat octet (Cat octet (Cat octet
           (Cat (Opt (Cat (literal ''/'') (Between 1 2 is_digit))) (NotAhead side)))))))"

definition WG_KEY :: regex where
  "WG_KEY =
     (let body = (\<lambda>c. alnum c \<or> c \<in> set ''+/''); side = (\<lambda>c. body c \<or> c = CHR ''='')
      in Cat (NotBehind side) (Cat (Between 43 43 body) (Cat (literal ''='') (NotAhead side))))"

definition not_space :: "char \<Rightarrow> bool" where
  "not_space c \<longleftrightarrow> \<not> is_space c"

definition KEK_LINE :: regex where
  "KEK_LINE = Cat (literal ''KEKId: '') (AtLeast 1 not_space)"

definition GS_URI :: regex where
  "GS_URI = Cat (literal ''gs://'') (Cat (AtLeast 1 (\<lambda>c. c \<noteq> CHR ''/'' \<and> not_space c)) (Cat (literal ''/'')
     (Cat (Or (literal ''<KEY_ID>'') (AtLeast 1 (\<lambda>c. c \<noteq> CHR ''_'' \<and> not_space c))) (literal ''_''))))"

definition KMS_NAME :: regex where
  "KMS_NAME = Cat (literal ''projects/'') (Cat (AtLeast 1 not_space) (Cat (literal ''/cryptoKeys/'')
     (AtLeast 1 not_space)))"

definition word_of :: "string \<Rightarrow> regex" where
  "word_of w = Cat Boundary (Cat (literal w) Boundary)"

definition RULES :: "(regex \<times> string) list" where
  "RULES =
     [(UUID, ''<KEY_ID>''), (KEK_LINE, ''KEKId: <KEK_ID>''), (GS_URI, ''gs://<BUCKET>/<OBJECT_ID>_''),
      (KMS_NAME, ''<EKM_KEY_NAME>''), (EMAIL, ''<CLIENT>''), (IPV4, ''<PRIVATE_IP>''), (WG_KEY, ''<PUBKEY>''),
      (word_of ''QKD1'', ''<PEER_A>''), (word_of ''QKD2'', ''<PEER_B>'')]"

definition RESIDUAL :: "(string \<times> regex) list" where
  "RESIDUAL =
     [(''uuid'', UUID), (''email'', EMAIL), (''ipv4'', IPV4), (''wireguard key'', WG_KEY),
      (''kms resource path'', Cat (literal ''projects/'') (Cat (AtLeast 0 not_space) (literal ''/cryptoKeys/'')))]"

section \<open>Redaction\<close>

definition redact_line :: "string \<Rightarrow> string" where
  "redact_line line = foldl (\<lambda>line (pattern, replacement). sub_all pattern replacement line) line RULES"

definition line_timestamp :: "string \<Rightarrow> string" where
  "line_timestamp line =
     (case match_each TIMESTAMP line of None \<Rightarrow> [] | Some r \<Rightarrow> take (length TIMESTAMP) line)"

definition redact_files :: "string list \<Rightarrow> string list" where
  "redact_files contents = map redact_line (sort_key line_timestamp (concat (map splitlines contents)))"

text \<open>\<open>"\\n".join(lines)\<close>\<close>

fun joined_lines :: "string list \<Rightarrow> string" where
  "joined_lines [] = []"
| "joined_lines [w] = w"
| "joined_lines (w # v # vs) = w @ newline # joined_lines (v # vs)"

definition residuals :: "string list \<Rightarrow> string list" where
  "residuals lines1 =
     (let content = joined_lines lines1 in map fst (filter (\<lambda>(name, pattern). found pattern content) RESIDUAL))"

text \<open>\<open>main\<close>: the exit status and the lines written.\<close>

definition redact_main :: "bool \<Rightarrow> string list \<Rightarrow> int \<times> string list" where
  "redact_main check contents =
     (let lines1 = redact_files contents
      in (if check \<and> residuals lines1 \<noteq> [] then 1 else 0, lines1))"

section \<open>No identifier and no address survives\<close>

lemma lang_literal [simp]: "lang (literal w) = {w}"
  by (induction w) (auto simp: literal_def)

lemma plain_literal [simp]: "plain (literal w)"
  by (induction w) (auto simp: literal_def)

text \<open>The characters of a UUID and of an e-mail address; the angle brackets are neither.\<close>

definition uuid_char :: "char \<Rightarrow> bool" where
  "uuid_char c \<longleftrightarrow> hex_char c \<or> c = CHR ''-''"

definition email_char :: "char \<Rightarrow> bool" where
  "email_char c \<longleftrightarrow> alnum c \<or> c \<in> set ''._%+-@''"

lemma brackets [simp]: "\<not> uuid_char CHR ''<''" "\<not> uuid_char CHR ''>''" "\<not> email_char CHR ''<''" "\<not> email_char CHR ''>''"
    "\<not> uuid_char newline" "\<not> email_char newline"
  by (simp_all add: uuid_char_def hex_char_def email_char_def alnum_def is_digit_def digit_val_def is_letter_def
      newline_def)

lemma uuid_word: "w \<in> lang UUID \<Longrightarrow> over uuid_char w \<and> length w = 36"
  by (auto simp: UUID_def over_def uuid_char_def)

lemma email_chars:
  "local_char c \<Longrightarrow> email_char c" "domain_char c \<Longrightarrow> email_char c" "is_letter c \<Longrightarrow> email_char c"
  "email_char CHR ''@''" "email_char CHR ''.''"
  by (auto simp: local_char_def domain_char_def email_char_def alnum_def)

lemma email_word: "w \<in> lang EMAIL \<Longrightarrow> over email_char w \<and> CHR ''@'' \<in> set w"
  by (auto simp: EMAIL_def over_def email_chars)

lemma plain_uuid: "plain UUID" and plain_email: "plain EMAIL"
  by (simp_all add: UUID_def EMAIL_def)

text \<open>Every rule keeps the ends of what it matches and puts a bracketed text between them.\<close>

definition bracketed :: "string \<Rightarrow> bool" where
  "bracketed mid \<longleftrightarrow> mid \<noteq> [] \<and> hd mid = CHR ''<'' \<and> last mid = CHR ''>'' \<and> length mid < 36 \<and> CHR ''@'' \<notin> set mid"

definition rule_ok :: "regex \<times> string \<Rightarrow> bool" where
  "rule_ok rr \<longleftrightarrow> (\<exists>pre mid post. snd rr = pre @ mid @ post \<and> keeps (fst rr) pre post \<and> bracketed mid)"

lemma rule_okI: "keeps r pre post \<Longrightarrow> bracketed mid \<Longrightarrow> rep = pre @ mid @ post \<Longrightarrow> rule_ok (r, rep)"
  by (auto simp: rule_ok_def)

lemma keeps_nothing [simp]: "keeps r [] []"
  by (simp add: keeps_def)

lemma keeps_first: "keeps (Cat (literal pre) r) pre []"
  by (auto simp: keeps_def)

lemma keeps_both: "keeps (Cat (literal pre) (Cat r (Cat s (Cat t (literal post))))) pre post"
  unfolding keeps_def
proof
  fix m assume "m \<in> lang (Cat (literal pre) (Cat r (Cat s (Cat t (literal post)))))"
  then obtain u v w where "m = pre @ u @ v @ w @ post" by auto
  then have "m = pre @ (u @ v @ w) @ post" by simp
  then show "\<exists>x. m = pre @ x @ post" by blast
qed

lemma rules_ok: "\<forall>rr \<in> set RULES. rule_ok rr"
proof -
  have kek: "rule_ok (KEK_LINE, ''KEKId: <KEK_ID>'')"
    unfolding KEK_LINE_def
    by (rule rule_okI [OF keeps_first, of "''<KEK_ID>''"]) (simp_all add: bracketed_def)
  have gs: "rule_ok (GS_URI, ''gs://<BUCKET>/<OBJECT_ID>_'')"
    unfolding GS_URI_def
    by (rule rule_okI [OF keeps_both, of "''<BUCKET>/<OBJECT_ID>''"]) (simp_all add: bracketed_def)
  have "rule_ok (r, mid)" if "bracketed mid" for r mid
    using that by (intro rule_okI [of r "[]" "[]" mid]) simp_all
  with kek gs show ?thesis by (simp add: RULES_def bracketed_def)
qed

lemma bracketed_delimited: "bracketed mid \<Longrightarrow> \<not> Q CHR ''<'' \<Longrightarrow> \<not> Q CHR ''>'' \<Longrightarrow> delimited Q mid"
  by (auto simp: bracketed_def delimited_def)

lemma bracketed_free:
  assumes "bracketed mid"
  shows "w \<in> lang UUID \<Longrightarrow> \<not> sublist w mid" "w \<in> lang EMAIL \<Longrightarrow> \<not> sublist w mid"
proof -
  show "w \<in> lang UUID \<Longrightarrow> \<not> sublist w mid"
    using assms uuid_word [of w] sublist_length_le [of w mid] by (auto simp: bracketed_def)
  show "w \<in> lang EMAIL \<Longrightarrow> \<not> sublist w mid"
    using assms email_word [of w] set_mono_sublist [of w mid] by (auto simp: bracketed_def)
qed

text \<open>\<open>free r s\<close>: no word of the pattern occurs in the text.\<close>

definition free :: "regex \<Rightarrow> string \<Rightarrow> bool" where
  "free r s \<longleftrightarrow> (\<forall>w \<in> lang r. \<not> sublist w s)"

lemma rule_keeps_free:
  assumes "rule_ok rr"
  shows "free UUID s \<Longrightarrow> free UUID (sub_all (fst rr) (snd rr) s)"
    "free EMAIL s \<Longrightarrow> free EMAIL (sub_all (fst rr) (snd rr) s)"
proof -
  from assms obtain pre mid post where r: "snd rr = pre @ mid @ post" "keeps (fst rr) pre post" "bracketed mid"
    by (auto simp: rule_ok_def)
  have u: "delimited uuid_char mid" and e: "delimited email_char mid"
    using r(3) by (simp_all add: bracketed_delimited)
  have pass: "free r s \<Longrightarrow> free r (sub_all (fst rr) (snd rr) s)"
    if d: "delimited Q mid" and over: "\<And>w. w \<in> lang r \<Longrightarrow> over Q w" and no: "\<And>w. w \<in> lang r \<Longrightarrow> \<not> sublist w mid"
    for r Q
    unfolding free_def sub_all_def r(1)
  proof (intro ballI notI)
    fix w assume s: "\<forall>w \<in> lang r. \<not> sublist w s" and w: "w \<in> lang r"
      and sub: "sublist w (sub_at (fst rr) (pre @ mid @ post) (None, s))"
    from sub_factor [OF r(2) d over [OF w] sub] s w no [OF w] show False by simp
  qed
  show "free UUID s \<Longrightarrow> free UUID (sub_all (fst rr) (snd rr) s)"
    by (rule pass [OF u]) (use uuid_word bracketed_free(1) [OF r(3)] in blast)+
  show "free EMAIL s \<Longrightarrow> free EMAIL (sub_all (fst rr) (snd rr) s)"
    by (rule pass [OF e]) (use email_word bracketed_free(2) [OF r(3)] in blast)+
qed

lemma uuid_rule_clears: "free UUID (sub_all UUID ''<KEY_ID>'' s)"
proof -
  have b: "bracketed ''<KEY_ID>''" by (simp add: bracketed_def)
  have "\<not> sublist w (sub_at UUID ''<KEY_ID>'' (None, s))" if "w \<in> lang UUID" for w
    using sub_clears [OF plain_uuid _ _ bracketed_delimited [OF b, of uuid_char] bracketed_free(1) [OF b] that]
      uuid_word by fastforce
  then show ?thesis by (simp add: free_def sub_all_def)
qed

lemma email_rule_clears: "free EMAIL (sub_all EMAIL ''<CLIENT>'' s)"
proof -
  have b: "bracketed ''<CLIENT>''" by (simp add: bracketed_def)
  have "\<not> sublist w (sub_at EMAIL ''<CLIENT>'' (None, s))" if "w \<in> lang EMAIL" for w
    using sub_clears [OF plain_email _ _ bracketed_delimited [OF b, of email_char] bracketed_free(2) [OF b] that]
      email_word by fastforce
  then show ?thesis by (simp add: free_def sub_all_def)
qed

lemma rules_keep_free:
  "\<forall>rr \<in> set rs. rule_ok rr \<Longrightarrow> free UUID s \<Longrightarrow> free UUID (foldl (\<lambda>l (p, rep). sub_all p rep l) s rs)"
  "\<forall>rr \<in> set rs. rule_ok rr \<Longrightarrow> free EMAIL s \<Longrightarrow> free EMAIL (foldl (\<lambda>l (p, rep). sub_all p rep l) s rs)"
  using rule_keeps_free by (induction rs arbitrary: s) (fastforce split: prod.splits)+

lemma redact_line_free: "free UUID (redact_line s)" "free EMAIL (redact_line s)"
proof -
  have split: "RULES = [(UUID, ''<KEY_ID>'')] @ tl RULES"
    "RULES = take 4 RULES @ [(EMAIL, ''<CLIENT>'')] @ drop 5 RULES" by (simp_all add: RULES_def)
  have ok: "\<forall>rr \<in> set (tl RULES). rule_ok rr" "\<forall>rr \<in> set (drop 5 RULES). rule_ok rr"
    using rules_ok by (auto dest: list.set_sel(2) in_set_dropD simp: RULES_def)
  show "free UUID (redact_line s)"
    unfolding redact_line_def by (subst split(1)) (simp add: rules_keep_free(1) [OF ok(1)] uuid_rule_clears)
  show "free EMAIL (redact_line s)"
    unfolding redact_line_def by (subst split(2)) (simp add: rules_keep_free(2) [OF ok(2)] email_rule_clears del: drop_Cons_numeral)
qed


text \<open>A word over characters other than the newline lies within one line.\<close>

lemma joined_sublist:
  assumes "over Q w" "\<not> Q newline" "w \<noteq> []"
  shows "sublist w (joined_lines lines1) \<Longrightarrow> \<exists>l \<in> set lines1. sublist w l"
proof (induction lines1 rule: joined_lines.induct)
  case 1
  with assms(3) show ?case by simp
next
  case (2 l)
  then show ?case by simp
next
  case (3 l v vs)
  have "sublist w (l @ [newline] @ joined_lines (v # vs))" using 3(2) by simp
  from factor_over [OF _ assms(1) this] assms(2)
  have "sublist w l \<or> sublist w [newline] \<or> sublist w (joined_lines (v # vs))"
    by (simp add: delimited_def)
  moreover have "\<not> sublist w [newline]"
    using assms by (cases w) (auto simp: sublist_Cons_right prefix_Cons)
  ultimately show ?case using 3(1) by auto
qed

lemma found_free:
  assumes "plain r" "\<And>w. w \<in> lang r \<Longrightarrow> over Q w \<and> w \<noteq> []" "\<not> Q newline" "\<forall>l \<in> set lines1. free r l"
  shows "\<not> found r (joined_lines lines1)"
  using assms joined_sublist [of Q _ lines1] by (fastforce simp: found_lang free_def)

text \<open>Property C19. 
  Whatever the raw logs hold, no UUID and no e-mail address is left in the transcript: neither the rule's
  own replacement nor a later rule can put one together out of the text around a replacement, and joining the
  lines cannot either, so \<open>--check\<close> never reports them.
\<close>

theorem redaction_removes_ids:
  "''uuid'' \<notin> set (residuals (redact_files contents)) \<and> ''email'' \<notin> set (residuals (redact_files contents))"
proof -
  have w: "over uuid_char w \<and> w \<noteq> []" if "w \<in> lang UUID" for w
    using uuid_word [OF that] by (cases w) simp_all
  have v: "over email_char w \<and> w \<noteq> []" if "w \<in> lang EMAIL" for w
    using email_word [OF that] by (cases w) simp_all
  have lines: "\<forall>l \<in> set (redact_files contents). free UUID l \<and> free EMAIL l"
    by (auto simp: redact_files_def redact_line_free)
  have u: "\<not> found UUID (joined_lines (redact_files contents))"
    by (rule found_free [OF plain_uuid, of uuid_char]) (use w lines brackets in blast)+
  have e: "\<not> found EMAIL (joined_lines (redact_files contents))"
    by (rule found_free [OF plain_email, of email_char]) (use v lines brackets in blast)+
  show ?thesis using u e by (simp add: residuals_def RESIDUAL_def Let_def)
qed

section \<open>Merging keeps each file's order\<close>

lemma subseq_insort: "subseq ys (insort_key f a ys)"
  by (induction ys) auto

lemma subseq_insort_first:
  "subseq zs ys \<Longrightarrow> \<forall>z \<in> set zs. f a \<le> f z \<Longrightarrow> subseq (a # zs) (insort_key f a ys)"
proof (induction ys arbitrary: zs)
  case Nil
  then show ?case by simp
next
  case (Cons y ys)
  show ?case
  proof (cases "f a \<le> f y")
    case True
    with Cons.prems show ?thesis by simp
  next
    case False
    with Cons.prems have "subseq zs ys" by (cases zs) (auto split: if_splits)
    with Cons False show ?thesis by (auto intro: subseq_Cons2')
  qed
qed

lemma subseq_sort_key: "subseq xs ys \<Longrightarrow> sorted (map f xs) \<Longrightarrow> subseq xs (sort_key f ys)"
proof (induction ys arbitrary: xs)
  case Nil
  then show ?case by simp
next
  case (Cons y ys)
  show ?case
  proof (cases "subseq xs ys")
    case True
    with Cons have "subseq xs (sort_key f ys)" by simp
    with subseq_insort [of "sort_key f ys" f y] show ?thesis by (simp add: subseq_order.order_trans)
  next
    case False
    with Cons.prems(1) obtain zs where x: "xs = y # zs" "subseq zs ys"
      by (cases xs) (auto split: if_splits)
    with Cons have "subseq zs (sort_key f ys)" "\<forall>z \<in> set zs. f y \<le> f z" by simp_all
    with subseq_insort_first [of zs "sort_key f ys" f y] x(1) show ?thesis by simp
  qed
qed

lemma sublist_concat: "x \<in> set xs \<Longrightarrow> subseq x (concat xs)"
  by (induction xs) (auto simp: list_emb_append2 intro: subseq_order.order_trans subseq_rev_drop_many)

text \<open>The lines of a log file whose time stamps do not go back are found in the transcript in their own order,
  every one of them redacted, however the other files are interleaved (the sort is stable).\<close>

lemma merged_lines_in_order:
  assumes "content \<in> set contents" "sorted (map line_timestamp (splitlines content))"
  shows "subseq (map redact_line (splitlines content)) (redact_files contents)"
proof -
  have "subseq (splitlines content) (concat (map splitlines contents))"
    using assms(1) by (simp add: sublist_concat)
  from subseq_sort_key [OF this assms(2)] show ?thesis
    unfolding redact_files_def by (rule subseq_map)
qed

text \<open>
  An address that ends a sentence is neither redacted nor reported: the pattern refuses a match with a full
  stop behind it, and the check uses the same pattern.
\<close>

theorem address_before_full_stop_survives:
  "redact_main True [''at 10.0.0.1.''] = (0, [''at 10.0.0.1.''])"
  by code_simp

end
