(* ===== verification/LogLines.thy ===== *)
theory LogLines
  imports Redact
begin

text \<open>
  \<open>src/qkd_ekm/common/log.py\<close>: the line that the formatter makes of a log record, and that the scripts read it
  back. \<open>log_time\<close> is the local time of the record as \<open>datetime\<close> and \<open>record.msecs\<close> give it; handlers, files and
  the standard output are not modelled.
\<close>

section \<open>Formatting\<close>

record log_time =
  year :: nat
  month :: nat
  day :: nat
  hour :: nat
  minute :: nat
  second :: nat
  msecs :: nat

text \<open>A number in a field of a fixed width, as \<open>%m\<close> and \<open>:03d\<close> write one that fits.\<close>

fun digits :: "nat \<Rightarrow> nat \<Rightarrow> string" where
  "digits 0 n = []"
| "digits (Suc w) n = digits w (n div 10) @ [digit_char (n mod 10)]"

definition format_time :: "log_time \<Rightarrow> string" where
  "format_time d =
     digits 4 (year d) @ ''-'' @ digits 2 (month d) @ ''-'' @ digits 2 (day d) @ '' '' @
     digits 2 (hour d) @ '':'' @ digits 2 (minute d) @ '':'' @ digits 2 (second d) @ ''.'' @ digits 3 (msecs d)"

definition log_line :: "log_time \<times> string \<times> string \<Rightarrow> string" where
  "log_line = (\<lambda>(d, name, message). format_time d @ '' '' @ name @ '': '' @ message)"

definition log_output :: "(log_time \<times> string \<times> string) list \<Rightarrow> string" where
  "log_output records = concat (map (\<lambda>r. log_line r @ [newline]) records)"

section \<open>Reading back\<close>

text \<open>The ranges of \<open>datetime\<close> (its years from 1000), and of a record the scripts can read: a name of letters, a
  message on one line without white space at its ends.\<close>

definition log_time_ok :: "log_time \<Rightarrow> bool" where
  "log_time_ok d \<longleftrightarrow> 1000 \<le> year d \<and> year d < 10000 \<and> month d < 100 \<and> day d < 100 \<and> hour d < 100 \<and> minute d < 100 \<and>
     second d < 100 \<and> msecs d < 1000"

definition record_ok :: "log_time \<times> string \<times> string \<Rightarrow> bool" where
  "record_ok = (\<lambda>(d, name, message). log_time_ok d \<and> name \<noteq> [] \<and> (\<forall>c \<in> set name. is_letter c) \<and>
     message \<noteq> [] \<and> \<not> is_space (last message) \<and> (\<forall>c \<in> set message. \<not> line_break c))"

lemma length_digits [simp]: "length (digits w n) = w"
  by (induction w arbitrary: n) auto

lemma digits_chars: "c \<in> set (digits w n) \<Longrightarrow> \<exists>d<10. c = digit_char d"
  by (induction w arbitrary: n) (auto intro: exI [of _ "_ mod 10"])

lemma match_each_append:
  "match_each (ps @ qs) s = (case match_each ps s of None \<Rightarrow> None | Some t \<Rightarrow> match_each qs t)"
  by (induction ps s rule: match_each.induct) (auto split: list.split)

lemma digit_is_digit [simp]: "d < 10 \<Longrightarrow> is_digit (digit_char d)"
  by (simp add: is_digit_def)

lemma match_digits [simp]: "match_each (replicate w is_digit) (digits w n @ s) = Some s"
proof (induction w arbitrary: n s)
  case 0
  show ?case by simp
next
  case (Suc w)
  have "replicate (Suc w) is_digit = replicate w is_digit @ [is_digit]" by (simp add: replicate_append_same)
  then have "match_each (replicate (Suc w) is_digit) (digits (Suc w) n @ s) =
      match_each (replicate w is_digit @ [is_digit]) (digits w (n div 10) @ digit_char (n mod 10) # s)" by simp
  then show ?case using Suc by (simp add: match_each_append del: replicate.simps)
qed

lemma TIMESTAMP_fields:
  "TIMESTAMP = replicate 4 is_digit @ (=) CHR ''-'' # replicate 2 is_digit @ (=) CHR ''-'' # replicate 2 is_digit @
     (=) CHR '' '' # replicate 2 is_digit @ (=) CHR '':'' # replicate 2 is_digit @ (=) CHR '':'' #
     replicate 2 is_digit @ (=) CHR ''.'' # replicate 3 is_digit"
  by (simp add: TIMESTAMP_def numeral_eq_Suc)

lemma match_timestamp: "match_each TIMESTAMP (format_time d @ s) = Some s"
proof -
  have m: "match_each (replicate w is_digit @ qs) (digits w n @ t) = match_each qs t" for w n t qs
    by (simp add: match_each_append)
  show ?thesis using match_digits [of 3 "msecs d" s] by (simp add: TIMESTAMP_fields format_time_def m)
qed

lemma length_format_time: "length (format_time d) = length TIMESTAMP"
  by (simp add: format_time_def TIMESTAMP_def)

lemma line_timestamp_log_line: "line_timestamp (log_line (d, name, message)) = format_time d"
  using match_timestamp [of d "'' '' @ name @ '': '' @ message"] length_format_time [of d]
  by (simp add: line_timestamp_def log_line_def)

lemma letter_facts: "is_letter c \<Longrightarrow> \<not> is_space c \<and> \<not> line_break c"
  by (auto simp: is_letter_def is_space_def line_break_def Let_def)

lemma dropWhile_hd: "s \<noteq> [] \<Longrightarrow> \<not> P (hd s) \<Longrightarrow> dropWhile P s = s"
  by (cases s) auto

lemma strip_ends: "s \<noteq> [] \<Longrightarrow> \<not> is_space (hd s) \<Longrightarrow> \<not> is_space (last s) \<Longrightarrow> strip s = s"
  using dropWhile_hd [of s is_space] dropWhile_hd [of "rev s" is_space] by (simp add: strip_def hd_rev)

lemma strip_Nil: "strip s = [] \<Longrightarrow> c \<in> set s \<Longrightarrow> is_space c"
proof (rule ccontr)
  assume s: "strip s = []" and c: "c \<in> set s" "\<not> is_space c"
  then have n: "dropWhile is_space s \<noteq> []" by (auto simp: dropWhile_eq_Nil_conv)
  from s have "\<forall>x \<in> set (dropWhile is_space s). is_space x" by (simp add: strip_def dropWhile_eq_Nil_conv)
  with n hd_dropWhile [OF n] show False by simp
qed

definition event_of :: "log_time \<times> string \<times> string \<Rightarrow> string" where
  "event_of = (\<lambda>(d, name, message). name @ '': '' @ message)"

lemma event_log_line:
  assumes "record_ok r"
  shows "strip (without_timestamp (log_line r)) = event_of r"
proof -
  obtain d name message where r: "r = (d, name, message)" by (cases r)
  with assms have ok: "name \<noteq> []" "\<forall>c \<in> set name. is_letter c" "message \<noteq> []" "\<not> is_space (last message)"
    by (simp_all add: record_ok_def)
  have e: "hd (event_of r) = hd name" "event_of r \<noteq> []" "last (event_of r) = last message"
    using ok by (simp_all add: event_of_def r)
  have n: "\<not> is_space (hd name)" using ok letter_facts by simp
  have sp: "is_space CHR '' ''" by (simp add: is_space_def)
  have "without_timestamp (log_line r) = dropWhile is_space ('' '' @ event_of r)"
    using match_timestamp [of d "'' '' @ event_of r"] by (simp add: without_timestamp_def log_line_def event_of_def r)
  also have "\<dots> = event_of r" using sp n e by (cases "event_of r") simp_all
  finally show ?thesis using strip_ends [of "event_of r"] e n ok(4) by simp
qed

lemma component_event:
  assumes "record_ok r"
  shows "component_of (event_of r) = Some (fst (snd r))"
proof -
  obtain d name message where r: "r = (d, name, message)" by (cases r)
  with assms have ok: "name \<noteq> []" "\<forall>c \<in> set name. is_letter c" by (simp_all add: record_ok_def)
  have "\<not> is_letter CHR '':''" by (simp add: is_letter_def)
  then have "takeWhile is_letter (name @ '': '' @ message) = name"
    using ok(2) by (simp add: takeWhile_append2)
  then show ?thesis using ok(1) by (simp add: component_of_def event_of_def r startswith_def)
qed

lemma digit_no_break: "d < 10 \<Longrightarrow> \<not> line_break (digit_char d)"
  by (auto simp: line_break_def of_char_digit)

lemma log_line_unbroken:
  assumes "record_ok r"
  shows "\<forall>c \<in> set (log_line r). \<not> line_break c"
proof -
  have dig: "\<forall>c \<in> set (digits w n). \<not> line_break c" for w n using digits_chars digit_no_break by blast
  have "\<not> line_break CHR ''-''" "\<not> line_break CHR '' ''" "\<not> line_break CHR '':''" "\<not> line_break CHR ''.''"
    by (simp_all add: line_break_def)
  then show ?thesis using assms dig letter_facts
    by (auto simp: log_line_def format_time_def record_ok_def split: prod.splits)
qed

lemma splitlines_log:
  assumes "\<forall>r \<in> set records. record_ok r"
  shows "splitlines (log_output records) = map log_line records"
proof -
  have "\<forall>w \<in> set (map log_line records). \<forall>c \<in> set w. \<not> line_break c"
    using assms log_line_unbroken by (metis (no_types) imageE set_map)
  from splitlines_joined [OF this] show ?thesis by (simp add: log_output_def newline_def o_def)
qed

text \<open>What the services log is read back by the scripts: every record gives one event of its component, with
  its message, in order, and its time stamp is the one the merge sorts by.\<close>

theorem logged_events_recovered:
  assumes "\<forall>r \<in> set records. record_ok r"
  shows "events_in (log_output records) = map event_of records \<and>
    map component_of (events_in (log_output records)) = map (\<lambda>(d, name, message). Some name) records \<and>
    map line_timestamp (splitlines (log_output records)) = map (\<lambda>(d, name, message). format_time d) records"
proof -
  have nonblank: "strip (log_line r) \<noteq> []" if "record_ok r" for r
  proof -
    obtain d name message where r: "r = (d, name, message)" by (cases r)
    with that have ok: "message \<noteq> []" "\<not> is_space (last message)" by (simp_all add: record_ok_def)
    have "last (log_line r) = last message" using ok by (simp add: log_line_def r)
    then have "\<exists>c \<in> set (log_line r). \<not> is_space c"
      using ok last_in_set [of "log_line r"] by (auto simp: log_line_def r)
    then show ?thesis using strip_Nil by blast
  qed
  have e: "events_in (log_output records) = map event_of records"
    using assms nonblank by (simp add: events_in_def splitlines_log filter_map o_def event_log_line)
  then show ?thesis using assms component_event line_timestamp_log_line
    by (auto simp: splitlines_log split: prod.splits)
qed

definition demo_record :: "log_time \<times> string \<times> string" where
  "demo_record = (\<lparr> year = 2025, month = 11, day = 3, hour = 9, minute = 5, second = 7, msecs = 42 \<rparr>, ''EKM'', ''Key bound'')"

theorem logged_events_recovered_witness:
  "record_ok demo_record \<and> events_in (log_output [demo_record]) = [''EKM: Key bound''] \<and>
   map line_timestamp (splitlines (log_output [demo_record])) = [''2025-11-03 09:05:07.042'']"
proof -
  have ok: "record_ok demo_record" by code_simp
  have "event_of demo_record = ''EKM: Key bound''" "format_time (fst demo_record) = ''2025-11-03 09:05:07.042''"
    by code_simp+
  with logged_events_recovered [of "[demo_record]"] ok show ?thesis by (simp add: demo_record_def)
qed

section \<open>Time stamps sort as times\<close>

definition fields_of :: "log_time \<Rightarrow> nat list" where
  "fields_of d = [year d, month d, day d, hour d, minute d, second d, msecs d]"

text \<open>Two texts whose first parts have one length compare part by part.\<close>

lemma append_less:
  "length u = length v \<Longrightarrow> (u @ x < v @ y) = (u < v \<or> u = v \<and> x < y)" for u v x y :: "'a :: linorder list"
  by (induction u v rule: list_induct2) auto

lemma digit_char_less: "a < 10 \<Longrightarrow> b < 10 \<Longrightarrow> digit_char a < digit_char b \<longleftrightarrow> a < b"
  by (simp add: less_char_def of_char_digit)

lemma decimal_less:
  "b < 10 \<Longrightarrow> d < 10 \<Longrightarrow> a < c \<or> a = c \<and> b < d \<longleftrightarrow> 10 * a + b < 10 * c + (d :: nat)"
  by (cases a c rule: linorder_cases) auto

lemma digits_inj: "m < 10 ^ w \<Longrightarrow> n < 10 ^ w \<Longrightarrow> digits w m = digits w n \<longleftrightarrow> m = n"
proof (induction w arbitrary: m n)
  case (Suc w)
  have "digit_char (m mod 10) = digit_char (n mod 10) \<longleftrightarrow> m mod 10 = n mod 10"
    using digit_val_digit [of "m mod 10"] digit_val_digit [of "n mod 10"] by (metis mod_less_divisor option.inject zero_less_numeral)
  moreover have "m div 10 < 10 ^ w" "n div 10 < 10 ^ w" using Suc.prems by (simp_all add: less_mult_imp_div_less mult.commute)
  ultimately show ?case using Suc.IH [of "m div 10" "n div 10"] by (simp add: nat_eq_iff) (metis div_mult_mod_eq)
qed simp

lemma digits_less: "m < 10 ^ w \<Longrightarrow> n < 10 ^ w \<Longrightarrow> digits w m < digits w n \<longleftrightarrow> m < n"
proof (induction w arbitrary: m n)
  case (Suc w)
  have b: "m div 10 < 10 ^ w" "n div 10 < 10 ^ w" using Suc.prems by (simp_all add: less_mult_imp_div_less mult.commute)
  have "digits (Suc w) m < digits (Suc w) n \<longleftrightarrow>
      m div 10 < n div 10 \<or> m div 10 = n div 10 \<and> m mod 10 < n mod 10"
    using Suc.IH [OF b] digits_inj [OF b] by (simp add: append_less digit_char_less)
  also have "\<dots> \<longleftrightarrow> 10 * (m div 10) + m mod 10 < 10 * (n div 10) + n mod 10" by (rule decimal_less) simp_all
  also have "\<dots> \<longleftrightarrow> m < n" by simp
  finally show ?case .
qed simp

lemma format_time_less:
  assumes "log_time_ok d" "log_time_ok e"
  shows "format_time d < format_time e \<longleftrightarrow> fields_of d < fields_of e"
proof -
  have less: "(digits 4 (year d) < digits 4 (year e)) = (year d < year e)"
      "(digits 4 (year d) = digits 4 (year e)) = (year d = year e)"
    using assms by (auto simp: log_time_ok_def digits_less digits_inj)
  have two: "(digits 2 a < digits 2 b) = (a < b)" "(digits 2 a = digits 2 b) = (a = b)"
    if "a < 100" "b < 100" for a b using that by (simp_all add: digits_less digits_inj)
  have three: "(digits 3 (msecs d) < digits 3 (msecs e)) = (msecs d < msecs e)"
    using assms by (simp add: log_time_ok_def digits_less)
  show ?thesis using assms less two three
    by (simp add: format_time_def fields_of_def append_less log_time_ok_def del: digits.simps)
qed

lemma format_time_le:
  assumes "log_time_ok d" "log_time_ok e"
  shows "format_time d \<le> format_time e \<longleftrightarrow> fields_of d \<le> fields_of e"
  using format_time_less [OF assms(2,1)] by (simp add: not_less [symmetric])

text \<open>Property C20. A service whose clock does not go back keeps its events in order in the merged transcript.\<close>

theorem service_order_survives_merge:
  assumes "\<forall>r \<in> set records. record_ok r" and "sorted (map (\<lambda>r. fields_of (fst r)) records)"
    and "log_output records \<in> set contents"
  shows "subseq (map (\<lambda>r. redact_line (log_line r)) records) (redact_files contents)"
proof -
  have "line_timestamp (log_line r) = format_time (fst r)" for r
    using line_timestamp_log_line by (cases r) simp
  then have "map line_timestamp (splitlines (log_output records)) = map (\<lambda>r. format_time (fst r)) records"
    using assms(1) by (simp add: splitlines_log)
  moreover have "sorted (map (\<lambda>r. format_time (fst r)) records)"
    using assms(1,2)
  proof (induction records)
    case (Cons r rs)
    have ok: "log_time_ok (fst s)" if "s \<in> set (r # rs)" for s
      using Cons.prems(1) that by (auto simp: record_ok_def)
    show ?case using Cons ok format_time_le by simp
  qed simp
  ultimately have "sorted (map line_timestamp (splitlines (log_output records)))" by simp
  from merged_lines_in_order [OF assms(3) this] show ?thesis
    unfolding splitlines_log [OF assms(1)] by (simp add: o_def)
qed

theorem service_order_survives_merge_witness:
  "subseq [redact_line (log_line demo_record), redact_line (log_line demo_record)]
     (redact_files [log_output [demo_record, demo_record], ''x''])"
proof -
  have "\<forall>r \<in> set [demo_record, demo_record]. record_ok r" by code_simp
  moreover have "sorted (map (\<lambda>r. fields_of (fst r)) [demo_record, demo_record])" by simp
  moreover have "log_output [demo_record, demo_record] \<in> set [log_output [demo_record, demo_record], ''x'']" by simp
  ultimately show ?thesis using service_order_survives_merge [of "[demo_record, demo_record]"] by simp
qed

end
