(* ===== verification/VpnInterleaving.thy ===== *)
theory VpnInterleaving
  imports VpnProperties
begin

text \<open>
  The handlers of \<open>vpn/app.py\<close> as asyncio runs them: \<open>start_connection\<close> and \<open>refresh_connection\<close> give up
  control while a thread of the pool fetches the key, so other requests, timers and restarts run in
  between. A run of these pieces is a run of the atomic handlers of \<open>VpnApp\<close>, in the order in which the
  handlers finish; what is proved of those holds for every interleaving.
\<close>

section \<open>Handlers in two pieces\<close>

text \<open>A handler that waits for its key: what it keeps of the request. A refresh keeps the SAE of the record
  it looked up.\<close>

datatype vpn_call =
    WaitStart string string
  | WaitRefresh string string

fun call_peer :: "vpn_call \<Rightarrow> string" where
  "call_peer (WaitStart k q) = q"
| "call_peer (WaitRefresh k q) = q"

text \<open>Up to \<open>await new_key\<close>: an answer without a key, or a handler that waits.\<close>

definition admit :: "verifier \<Rightarrow> string \<Rightarrow> vpn_route \<Rightarrow> vpn \<Rightarrow> vpn_answer http + vpn_call" where
  "admit verify authorization r v =
     (if r = VpnHealthz then Inl (Inr Ok)
      else case bearer_dep verify authorization of
          Inl e \<Rightarrow> Inl (Inl e)
        | Inr c \<Rightarrow>
            (case r of
               Start j \<Rightarrow>
                 (case StartConnection j of
                    None \<Rightarrow> Inl (Inl Invalid)
                  | Some (k, q) \<Rightarrow> Inr (WaitStart k q))
             | Refresh j \<Rightarrow>
                 (case RefreshConnection j of
                    None \<Rightarrow> Inl (Inl Invalid)
                  | Some k \<Rightarrow>
                      (case map_of (peers_mem v) k of
                         None \<Rightarrow> Inl (http_fail 404 ''unknown peer'')
                       | Some rcd \<Rightarrow> Inr (WaitRefresh k (peer_qkd_id rcd))))
             | _ \<Rightarrow> Inl (Inr (Peers (vpn_status v)))))"

text \<open>From the key on; \<open>drawn\<close> is what \<open>new_key\<close> gave or raised.\<close>

definition finish_start ::
  "vpn_settings \<Rightarrow> vpn_io \<Rightarrow> string \<Rightarrow> string \<Rightarrow> (string \<times> bytes) http \<Rightarrow> vpn \<Rightarrow> start_reply http \<times> vpn" where
  "finish_start st io public_key qkd_id drawn v =
     (case drawn of
        Inl e \<Rightarrow> (Inl e, v)
      | Inr (key_id, key) \<Rightarrow>
          (case record_for st public_key qkd_id v of
             (Inl e, v1) \<Rightarrow> (Inl e, v1)
           | (Inr (record, new_record), v1) \<Rightarrow>
               (case apply_key st io public_key record key_id key new_record v1 of
                  (Inl (RuntimeError m), v2) \<Rightarrow>
                    (Inl (HTTPException 500 (Body (error_body 500 ''failed to configure WireGuard peer''
                       (Some ''INTERNAL'')))), v2)
                | (Inl e, v2) \<Rightarrow> (Inl (Unhandled e), v2)
                | (Inr _, v2) \<Rightarrow>
                    (map_sum Unhandled (\<lambda>pub.
                       \<lparr> sr_qkd_id = server_peer st, sr_server_public_key = pub,
                         sr_endpoint = public_endpoint st, sr_preshared_key_id = key_id,
                         sr_client_ip = client_ip record, sr_allowed_ips = allowed_ips st,
                         sr_effective_time = now_us io, sr_refresh_after_s = refresh_s st \<rparr>)
                       (wg_public_key io), v2))))"

definition finish_refresh ::
  "vpn_settings \<Rightarrow> vpn_io \<Rightarrow> string \<Rightarrow> (string \<times> bytes) http \<Rightarrow> vpn \<Rightarrow> refresh_reply http \<times> vpn" where
  "finish_refresh st io pubkey drawn v =
     (case drawn of
        Inl e \<Rightarrow> (Inl e, v)
      | Inr (key_id, key) \<Rightarrow>
          (case schedule (activation_delay_s st) (Activate pubkey key_id key) (now_us io)
                  (cancel_task (map_of (activations v) pubkey) v) of
             (i, v1) \<Rightarrow>
               (Inr \<lparr> rr_preshared_key_id = key_id,
                      rr_effective_time = now_us io + activation_delay_s st * 1000000 \<rparr>,
                v1\<lparr>activations := AList.update pubkey i (activations v1)\<rparr>)))"

fun finish ::
  "vpn_settings \<Rightarrow> vpn_io \<Rightarrow> vpn_call \<Rightarrow> (string \<times> bytes) http \<Rightarrow> vpn \<Rightarrow> vpn_answer http \<times> vpn" where
  "finish st io (WaitStart k q) drawn v = apfst (map_sum id Started) (finish_start st io k q drawn v)"
| "finish st io (WaitRefresh k q) drawn v = apfst (map_sum id Refreshing) (finish_refresh st io k drawn v)"

text \<open>The pieces put together are the handler.\<close>

lemma start_pieces:
  "start_connection st io send k q (w, v) =
     (case vpn_new_key send q w of (d, w') \<Rightarrow> (case finish_start st io k q d v of (a, v') \<Rightarrow> (a, w', v')))"
  by (simp add: start_connection_def finish_start_def split: sum.split prod.split py_error.split)

lemma refresh_pieces:
  "map_of (peers_mem v) k = Some rcd \<Longrightarrow>
   refresh_connection st io send k (w, v) =
     (case vpn_new_key send (peer_qkd_id rcd) w of (d, w') \<Rightarrow>
        (case finish_refresh st io k d v of (a, v') \<Rightarrow> (a, w', v')))"
  by (simp add: refresh_connection_def finish_refresh_def split: sum.split prod.split)

section \<open>The event loop\<close>

text \<open>\<open>calls\<close>: the handlers that wait, with the key once their thread has it.\<close>

record 'w loop =
  l_world :: 'w
  l_vpn :: vpn
  l_calls :: "(nat \<times> vpn_call \<times> (string \<times> bytes) http option) list"

text \<open>One piece of work between two points where control is given up, with the answer it sends.\<close>

inductive loop_step ::
  "vpn_settings \<Rightarrow> verifier \<Rightarrow> (request \<Rightarrow> 'w \<Rightarrow> reply \<times> 'w) \<Rightarrow> 'w loop \<Rightarrow> vpn_answer http option \<Rightarrow> 'w loop \<Rightarrow> bool"
  for st verify send where
  answered: "admit verify authorization r (l_vpn s) = Inl a \<Longrightarrow> loop_step st verify send s (Some a) s"
| admitted: "admit verify authorization r (l_vpn s) = Inr c \<Longrightarrow> i \<notin> fst ` set (l_calls s) \<Longrightarrow>
    loop_step st verify send s None (s\<lparr>l_calls := l_calls s @ [(i, c, None)]\<rparr>)"
| drawn: "map_of (l_calls s) i = Some (c, None) \<Longrightarrow> vpn_new_key send (call_peer c) (l_world s) = (d, w') \<Longrightarrow>
    loop_step st verify send s None (s\<lparr>l_world := w', l_calls := AList.update i (c, Some d) (l_calls s)\<rparr>)"
| finished: "map_of (l_calls s) i = Some (c, Some d) \<Longrightarrow> finish st io c d (l_vpn s) = (a, v') \<Longrightarrow>
    loop_step st verify send s (Some a) (s\<lparr>l_vpn := v', l_calls := AList.delete i (l_calls s)\<rparr>)"
| fired: "loop_step st verify send s None (s\<lparr>l_vpn := fire st io i (l_vpn s)\<rparr>)"
| restarted: "loop_step st verify send s None
    (s\<lparr>l_vpn := vpn_create_app (peers_disk (l_vpn s)) (installs (l_vpn s)), l_calls := []\<rparr>)"

inductive_cases loop_step_cases: "loop_step st verify send s out t"

text \<open>A run with the answers it sends, in order.\<close>

inductive loop_run ::
  "vpn_settings \<Rightarrow> verifier \<Rightarrow> (request \<Rightarrow> 'w \<Rightarrow> reply \<times> 'w) \<Rightarrow> 'w loop \<Rightarrow> vpn_answer http list \<Rightarrow> 'w loop \<Rightarrow> bool"
  for st verify send where
  stop: "loop_run st verify send s [] s"
| step: "loop_step st verify send s out t \<Longrightarrow> loop_run st verify send t answers u \<Longrightarrow>
    loop_run st verify send s (case out of None \<Rightarrow> answers | Some a \<Rightarrow> a # answers) u"

definition loop_start :: "'w \<Rightarrow> vpn \<Rightarrow> 'w loop" where
  "loop_start w v = \<lparr> l_world = w, l_vpn = v, l_calls = [] \<rparr>"

section \<open>What a handler that waits can rely on\<close>

text \<open>\<open>keeps_peers u v\<close>: no peer of \<open>u\<close> is gone in \<open>v\<close> or has another SAE.\<close>

definition keeps_peers :: "vpn \<Rightarrow> vpn \<Rightarrow> bool" where
  "keeps_peers u v \<longleftrightarrow>
     (\<forall>k rcd. map_of (peers_mem u) k = Some rcd \<longrightarrow>
        (\<exists>rcd'. map_of (peers_mem v) k = Some rcd' \<and> peer_qkd_id rcd' = peer_qkd_id rcd))"

lemma keeps_same: "peers_mem u = peers_mem v \<Longrightarrow> keeps_peers u v"
  by (simp add: keeps_peers_def)

lemma keeps_peersD:
  "keeps_peers u v \<Longrightarrow> map_of (peers_mem u) k = Some rcd \<Longrightarrow>
   \<exists>rcd'. map_of (peers_mem v) k = Some rcd' \<and> peer_qkd_id rcd' = peer_qkd_id rcd"
  by (simp add: keeps_peers_def)

lemma peers_save_mem [simp]: "peers_mem (snd (peers_save io v)) = peers_mem v"
  by (simp add: peers_save_def split: sum.split)

lemma arm_refresh_mem [simp]: "peers_mem (arm_refresh_timer st now k v) = peers_mem v"
  by (simp add: arm_replace)

lemma apply_key_mem:
  "peers_mem (snd (apply_key st io k rcd key_id key new v)) =
     (case wg_set io of
        Inl e \<Rightarrow> if new then AList.delete k (peers_mem v) else peers_mem v
      | Inr u \<Rightarrow> AList.update k (rcd\<lparr>preshared_key_id := Some key_id, refresh_due := False,
          next_refresh_at := Some (now_us io + refresh_s st * 1000000)\<rparr>) (peers_mem v))"
proof (cases "wg_set io")
  case (Inr u)
  obtain x v2 where p: "peers_save io (v\<lparr>installs := installs v @ [(k, key, client_ip rcd @ ''/32'')],
      peers_mem := AList.update k (rcd\<lparr>preshared_key_id := Some key_id, refresh_due := False,
        next_refresh_at := Some (now_us io + refresh_s st * 1000000)\<rparr>) (peers_mem v)\<rparr>) = (x, v2)"
    by fastforce
  with peers_save_mem [of io "v\<lparr>installs := installs v @ [(k, key, client_ip rcd @ ''/32'')],
      peers_mem := AList.update k (rcd\<lparr>preshared_key_id := Some key_id, refresh_due := False,
        next_refresh_at := Some (now_us io + refresh_s st * 1000000)\<rparr>) (peers_mem v)\<rparr>"]
  show ?thesis using Inr by (simp add: apply_key_def Let_def split: sum.split)
qed (simp add: apply_key_def)

lemma apply_known_keeps:
  "map_of (peers_mem v) k = Some rcd \<Longrightarrow> keeps_peers v (snd (apply_key st io k rcd key_id key False v))"
  by (auto simp: keeps_peers_def apply_key_mem update_conv' split: sum.split)

lemma apply_new_keeps:
  "k \<notin> fst ` set (peers_mem v) \<Longrightarrow>
   keeps_peers v (snd (apply_key st io k rcd key_id key True (v\<lparr>peers_mem := peers_mem v @ [(k, rcd)]\<rparr>)))"
  by (force simp: keeps_peers_def apply_key_mem update_conv' delete_new dest: map_of_SomeD split: sum.split)

lemma finish_keeps: "finish st io c d v = (a, v') \<Longrightarrow> keeps_peers v v'"
proof (cases c)
  case (WaitStart k q)
  assume f: "finish st io c d v = (a, v')"
  show ?thesis
  proof (cases d)
    case (Inl e)
    with f WaitStart show ?thesis by (simp add: finish_start_def keeps_same)
  next
    case (Inr kk)
    obtain key_id key where kk: "kk = (key_id, key)" by (cases kk)
    obtain rr v1 where rr: "record_for st k q v = (rr, v1)" by (cases "record_for st k q v")
    have "v' = (case rr of Inl e \<Rightarrow> v1 | Inr (rcd, new) \<Rightarrow> snd (apply_key st io k rcd key_id key new v1))"
      using f WaitStart Inr kk rr
      by (auto simp: finish_start_def split: sum.splits prod.splits py_error.splits)
    with rr show ?thesis
      by (cases rule: record_for_cases) (auto simp: keeps_same apply_known_keeps apply_new_keeps)
  qed
next
  case (WaitRefresh k q)
  assume "finish st io c d v = (a, v')"
  with WaitRefresh show ?thesis
    by (auto simp: finish_refresh_def schedule_def Let_def split: sum.splits intro!: keeps_same)
qed

lemma fire_keeps: "keeps_peers v (fire st io i v)"
proof -
  have due: "keeps_peers u (run_due io k u)" for u k
    by (auto simp: run_due_def keeps_peers_def map_of_map_entry)
  have act: "keeps_peers u (run_activate st io k key_id key u)" for u k key_id key
    by (auto simp: run_activate_def apply_known_keeps keeps_same split: option.split)
  have "keeps_peers v w" if "keeps_peers (cancel_task (Some i) v) w" for w
    using that by (simp add: keeps_peers_def)
  then show ?thesis using due act
    by (auto simp: fire_def Let_def keeps_same split: option.split work.split)
qed

text \<open>A handler that waits passed its checks, and its peer is still there.\<close>

fun call_ok :: "verifier \<Rightarrow> vpn \<Rightarrow> vpn_call \<Rightarrow> bool" where
  "call_ok verify v (WaitStart k q) \<longleftrightarrow>
     (\<exists>h cl j. bearer_dep verify h = Inr cl \<and> StartConnection j = Some (k, q))"
| "call_ok verify v (WaitRefresh k q) \<longleftrightarrow>
     (\<exists>h cl j rcd. bearer_dep verify h = Inr cl \<and> RefreshConnection j = Some k \<and>
        map_of (peers_mem v) k = Some rcd \<and> peer_qkd_id rcd = q)"

lemma call_ok_keeps: "call_ok verify u c \<Longrightarrow> keeps_peers u v \<Longrightarrow> call_ok verify v c"
  by (cases c) (auto dest: keeps_peersD)

lemma admit_ok: "admit verify h r v = Inr c \<Longrightarrow> call_ok verify v c"
  by (cases "bearer_dep verify h"; cases r)
    (fastforce simp: admit_def split: if_splits option.splits prod.splits)+

section \<open>Every interleaving is an atomic run\<close>

text \<open>An EKM that is a list of replies.\<close>

fun next_reply :: "request \<Rightarrow> reply list \<Rightarrow> reply \<times> reply list" where
  "next_reply req [] = (Reply 500 None, [])"
| "next_reply req (r # rs) = (r, rs)"

text \<open>\<open>draws q reply d\<close>: \<open>new_key\<close> makes \<open>d\<close> of the reply.\<close>

definition draws :: "string \<Rightarrow> reply \<Rightarrow> (string \<times> bytes) http \<Rightarrow> bool" where
  "draws q reply d \<longleftrightarrow> (\<forall>rest. vpn_new_key next_reply q (reply # rest) = (d, rest))"

lemma drawn_reply:
  assumes "vpn_new_key send q w = (d, w')"
  shows "\<exists>reply. draws q reply d"
proof -
  obtain reply w1 where "send (ekm_new_request q ''vpn'') w = (reply, w1)" by fastforce
  with assms have "draws q reply d" by (simp add: draws_def vpn_new_key_def ekm_new_def)
  then show ?thesis by blast
qed

definition loop_ok :: "verifier \<Rightarrow> 'w loop \<Rightarrow> bool" where
  "loop_ok verify s \<longleftrightarrow>
     (\<forall>(i, c, d) \<in> set (l_calls s). call_ok verify (l_vpn s) c \<and>
        (\<forall>x. d = Some x \<longrightarrow> (\<exists>reply. draws (call_peer c) reply x)))"

lemma admit_served: "admit verify h r v = Inl a \<Longrightarrow> vpn_serve st verify io send h r (w, v) = (a, w, v)"
  by (auto simp: admit_def vpn_serve_def refresh_connection_def http_fail_def
      split: if_splits sum.splits vpn_route.splits option.splits prod.splits)

lemma finish_served:
  assumes "call_ok verify v c" "draws (call_peer c) reply d" "finish st io c d v = (a, v')"
  shows "\<exists>h r. \<forall>rest. vpn_serve st verify io next_reply h r (reply # rest, v) = (a, rest, v')"
proof (cases c)
  case (WaitStart k q)
  with assms(1) obtain h cl j where "bearer_dep verify h = Inr cl" "StartConnection j = Some (k, q)" by auto
  with assms(2,3) WaitStart have "\<forall>rest. vpn_serve st verify io next_reply h (Start j) (reply # rest, v) = (a, rest, v')"
    by (auto simp: vpn_serve_def start_pieces draws_def split: prod.splits)
  then show ?thesis by blast
next
  case (WaitRefresh k q)
  with assms(1) obtain h cl j rcd where "bearer_dep verify h = Inr cl" "RefreshConnection j = Some k"
    "map_of (peers_mem v) k = Some rcd" "peer_qkd_id rcd = q" by auto
  with assms(2,3) WaitRefresh
  have "\<forall>rest. vpn_serve st verify io next_reply h (Refresh j) (reply # rest, v) = (a, rest, v')"
    by (auto simp: vpn_serve_def refresh_pieces draws_def split: prod.splits)
  then show ?thesis by blast
qed

lemma loop_okD:
  assumes "loop_ok verify s" "(i, c, d) \<in> set (l_calls s)"
  shows "call_ok verify (l_vpn s) c" "d = Some x \<Longrightarrow> \<exists>reply. draws (call_peer c) reply x"
  using assms by (auto simp: loop_ok_def)

lemma loop_okI:
  assumes "\<And>i c d. (i, c, d) \<in> set (l_calls s) \<Longrightarrow> call_ok verify (l_vpn s) c"
    and "\<And>i c x. (i, c, Some x) \<in> set (l_calls s) \<Longrightarrow> \<exists>reply. draws (call_peer c) reply x"
  shows "loop_ok verify s"
  using assms by (auto simp: loop_ok_def)

lemma loop_ok_vpn:
  assumes "loop_ok verify s" "keeps_peers (l_vpn s) v" "set cs \<subseteq> set (l_calls s)"
  shows "loop_ok verify (s\<lparr>l_vpn := v, l_calls := cs\<rparr>)"
proof (rule loop_okI)
  fix i c d assume "(i, c, d) \<in> set (l_calls (s\<lparr>l_vpn := v, l_calls := cs\<rparr>))"
  then have "(i, c, d) \<in> set (l_calls s)" using assms(3) by auto
  from call_ok_keeps [OF loop_okD(1) [OF assms(1) this] assms(2)]
  show "call_ok verify (l_vpn (s\<lparr>l_vpn := v, l_calls := cs\<rparr>)) c" by simp
next
  fix i c x assume "(i, c, Some x) \<in> set (l_calls (s\<lparr>l_vpn := v, l_calls := cs\<rparr>))"
  then have "(i, c, Some x) \<in> set (l_calls s)" using assms(3) by auto
  from loop_okD(2) [OF assms(1) this] show "\<exists>reply. draws (call_peer c) reply x" by simp
qed

lemma set_delete_subset: "set (AList.delete i xs) \<subseteq> set xs"
  by (induction xs) auto

lemma set_update_subset: "set (AList.update i x xs) \<subseteq> insert (i, x) (set xs)"
  by (induction xs) auto

lemma loop_step_ok: "loop_step st verify send s out t \<Longrightarrow> loop_ok verify s \<Longrightarrow> loop_ok verify t"
proof (induction rule: loop_step.induct)
  case (admitted authorization r s c i)
  then show ?case using admit_ok by (auto simp: loop_ok_def)
next
  case (drawn s i c d w')
  have "(i, c, None) \<in> set (l_calls s)" using drawn(1) by (rule map_of_SomeD)
  note c = loop_okD(1) [OF drawn(3) this]
  show ?case
  proof (rule loop_okI; clarsimp)
    fix j e x assume "(j, e, x) \<in> set (AList.update i (c, Some d) (l_calls s))"
    then have "e = c \<or> (j, e, x) \<in> set (l_calls s)" using set_update_subset [of i "(c, Some d)" "l_calls s"] by auto
    then show "call_ok verify (l_vpn s) e" using c loop_okD(1) [OF drawn(3)] by blast
  next
    fix j e x assume "(j, e, Some x) \<in> set (AList.update i (c, Some d) (l_calls s))"
    then have "e = c \<and> x = d \<or> (j, e, Some x) \<in> set (l_calls s)"
      using set_update_subset [of i "(c, Some d)" "l_calls s"] by auto
    then show "\<exists>reply. draws (call_peer e) reply x" using drawn_reply [OF drawn(2)] loop_okD(2) [OF drawn(3)] by blast
  qed
next
  case (finished s i c d io a v')
  show ?case using loop_ok_vpn [OF finished(3) finish_keeps [OF finished(2)] set_delete_subset] by simp
next
  case (fired s io i)
  then show ?case using loop_ok_vpn [OF fired fire_keeps [of "l_vpn s" st io i], of "l_calls s"] by simp
qed (auto simp: loop_ok_def)

fun sent :: "vpn_answer http option list \<Rightarrow> vpn_answer http list" where
  "sent [] = []"
| "sent (None # outs) = sent outs"
| "sent (Some a # outs) = a # sent outs"

text \<open>One piece of work is one atomic event or none.\<close>

lemma loop_step_atomic:
  assumes "loop_step st verify send s out t" "loop_ok verify s"
  shows "\<exists>evs replies outs. sent (outs @ os) = (case out of None \<Rightarrow> sent os | Some a \<Rightarrow> a # sent os) \<and>
    (\<forall>rest. vpn_exec st verify next_reply evs (replies @ rest, l_vpn s) = (outs, rest, l_vpn t))"
  using assms
proof (induction rule: loop_step.induct)
  case (answered authorization r s a)
  then show ?case
    by (intro exI [of _ "[VpnRequest authorization r undefined]"] exI [of _ "[]"] exI [of _ "[Some a]"])
      (simp add: vpn_next_def admit_served)
next
  case (admitted authorization r s c i)
  show ?case by (intro exI [of _ "[]"]) simp
next
  case (drawn s i c d w')
  show ?case by (intro exI [of _ "[]"]) simp
next
  case (finished s i c d io a v')
  note c = loop_okD [OF finished(3) map_of_SomeD [OF finished(1)]]
  from c(2) obtain reply where "draws (call_peer c) reply d" by blast
  from finish_served [OF c(1) this finished(2)] obtain h r where
    "\<forall>rest. vpn_serve st verify io next_reply h r (reply # rest, l_vpn s) = (a, rest, v')" by blast
  then show ?case
    by (intro exI [of _ "[VpnRequest h r io]"] exI [of _ "[reply]"] exI [of _ "[Some a]"]) (simp add: vpn_next_def)
next
  case (fired s io i)
  show ?case
    by (intro exI [of _ "[VpnFire i io]"] exI [of _ "[]"] exI [of _ "[None]"]) (simp add: vpn_next_def)
next
  case (restarted s)
  show ?case
    by (intro exI [of _ "[VpnRestart]"] exI [of _ "[]"] exI [of _ "[None]"]) (simp add: vpn_next_def)
qed

lemma vpn_exec_append:
  "vpn_exec st verify send evs wv = (outs, wv') \<Longrightarrow> vpn_exec st verify send (evs @ evs2) wv =
     (case vpn_exec st verify send evs2 wv' of (outs2, wv2) \<Rightarrow> (outs @ outs2, wv2))"
proof (induction evs arbitrary: wv outs)
  case (Cons ev evs)
  obtain a wv1 where n: "vpn_next st verify send ev wv = (a, wv1)" by (cases "vpn_next st verify send ev wv") simp
  obtain outs1 where "vpn_exec st verify send evs wv1 = (outs1, wv')" "outs = a # outs1"
    using Cons.prems n by (cases "vpn_exec st verify send evs wv1") auto
  from Cons.IH [OF this(1)] this(2) n show ?case
    by (cases "vpn_exec st verify send evs2 wv'") simp
qed simp

lemma loop_run_atomic:
  assumes "loop_run st verify send s answers t" "loop_ok verify s"
  shows "\<exists>evs replies outs. vpn_exec st verify next_reply evs (replies, l_vpn s) = (outs, [], l_vpn t) \<and> sent outs = answers"
  using assms
proof (induction rule: loop_run.induct)
  case (stop s)
  show ?case by (intro exI [of _ "[]"]) simp
next
  case (step s out t answers u)
  from step(3) loop_step_ok [OF step(1,4)] obtain evs2 replies2 outs2 where
    2: "vpn_exec st verify next_reply evs2 (replies2, l_vpn t) = (outs2, [], l_vpn u)" "sent outs2 = answers" by blast
  from loop_step_atomic [OF step(1,4), of outs2] obtain evs replies outs where
    1: "sent (outs @ outs2) = (case out of None \<Rightarrow> sent outs2 | Some a \<Rightarrow> a # sent outs2)"
      "\<forall>rest. vpn_exec st verify next_reply evs (replies @ rest, l_vpn s) = (outs, rest, l_vpn t)" by blast
  from vpn_exec_append [OF 1(2) [rule_format], of evs2 replies2] 2(1)
  have "vpn_exec st verify next_reply (evs @ evs2) (replies @ replies2, l_vpn s) = (outs @ outs2, [], l_vpn u)" by simp
  with 1(1) 2(2) show ?case by blast
qed

text \<open>Property C25. Every run of the event loop, whatever runs while a handler waits for its key, ends in the state of a run of
  the atomic handlers and sends the same answers in the same order, each handler taking effect where it
  finishes; the replies of the EKM are those that the threads got.\<close>

theorem interleavings_are_atomic:
  assumes "loop_run st verify send (loop_start w v) answers t"
  shows "\<exists>evs replies outs. vpn_exec st verify next_reply evs (replies, v) = (outs, [], l_vpn t) \<and> sent outs = answers"
  using loop_run_atomic [OF assms] by (simp add: loop_start_def loop_ok_def)

section \<open>Keys under interleaving\<close>

text \<open>The identifier that a waiting handler holds.\<close>

definition held_by :: "(nat \<times> vpn_call \<times> (string \<times> bytes) http option) list \<Rightarrow> nat \<Rightarrow> string option" where
  "held_by cs i = (case map_of cs i of Some (c, Some (Inr (key_id, key))) \<Rightarrow> Some key_id | _ \<Rightarrow> None)"

lemma held_by_Some: "held_by cs i = Some x \<longleftrightarrow> (\<exists>c key. map_of cs i = Some (c, Some (Inr (x, key))))"
  by (auto simp: held_by_def split: option.splits prod.splits sum.splits)

lemma held_by_simps:
  "held_by [] j = None"
  "i \<notin> fst ` set cs \<Longrightarrow> held_by (cs @ [(i, c, None)]) j = held_by cs j"
  "held_by (AList.update i (c, Some (Inl e)) cs) j = (if j = i then None else held_by cs j)"
  "held_by (AList.update i (c, Some (Inr (x, key))) cs) j = (if j = i then Some x else held_by cs j)"
  "held_by (AList.delete i cs) j = (if j = i then None else held_by cs j)"
  by (auto simp: held_by_def update_conv' delete_conv' map_add_def map_of_eq_None_iff
      dest!: map_of_eq_None_iff [THEN iffD2] split: option.split)

lemma finish_announces:
  assumes "finish st io c d v = (a, v')"
  shows "announced_id (Some a) = [] \<or> (\<exists>x key. announced_id (Some a) = [x] \<and> d = Inr (x, key))"
  using assms
  by (cases c; cases d; cases "wg_public_key io")
    (auto simp: finish_start_def finish_refresh_def announced_id_def
      split: sum.splits prod.splits py_error.splits)

lemma admit_announces: "admit verify h r v = Inl a \<Longrightarrow> announced_id (Some a) = []"
  by (auto simp: admit_def announced_id_def http_fail_def
      split: if_splits sum.splits vpn_route.splits option.splits prod.splits)

text \<open>No identifier is held twice, and those held are spent.\<close>

definition held_ok :: "string set \<Rightarrow> (nat \<times> vpn_call \<times> (string \<times> bytes) http option) list \<Rightarrow> bool" where
  "held_ok S cs \<longleftrightarrow>
     (\<forall>i x. held_by cs i = Some x \<longrightarrow> x \<in> S) \<and>
     (\<forall>i j x. held_by cs i = Some x \<longrightarrow> held_by cs j = Some x \<longrightarrow> i = j)"

context ekm_service
begin

lemma loop_step_announces:
  assumes "loop_step st verify send s out t" "held_ok (spent (l_world s)) (l_calls s)"
  shows "held_ok (spent (l_world t)) (l_calls t) \<and> spent (l_world s) \<subseteq> spent (l_world t) \<and>
    (\<forall>j x. held_by (l_calls t) j = Some x \<longrightarrow> (\<exists>i. held_by (l_calls s) i = Some x) \<or> x \<notin> spent (l_world s)) \<and>
    (announced_id out = [] \<or>
     (\<exists>i x. announced_id out = [x] \<and> held_by (l_calls s) i = Some x \<and> (\<forall>j. held_by (l_calls t) j \<noteq> Some x)))"
  using assms
proof (induction rule: loop_step.induct)
  case (answered authorization r s a)
  then show ?case using admit_announces by blast
next
  case (admitted authorization r s c i)
  then show ?case by (auto simp: held_ok_def held_by_simps announced_id_def)
next
  case (drawn s i c d w')
  from new_key_spent [OF drawn(2)]
  have n: "spent (l_world s) \<subseteq> spent w'" "\<And>x key. d = Inr (x, key) \<Longrightarrow> x \<notin> spent (l_world s) \<and> x \<in> spent w'"
    by auto
  show ?case
  proof (cases d)
    case (Inl e)
    then show ?thesis using drawn(3) n(1) by (auto simp: held_ok_def held_by_simps announced_id_def)
  next
    case (Inr kk)
    obtain x key where kk: "kk = (x, key)" by (cases kk)
    then have x: "x \<notin> spent (l_world s)" "x \<in> spent w'" using n(2) Inr by auto
    then have "\<And>j. held_by (l_calls s) j \<noteq> Some x" using drawn(3) by (auto simp: held_ok_def)
    then show ?thesis using drawn(3) n(1) x Inr kk
      by (auto simp: held_ok_def held_by_simps announced_id_def)
  qed
next
  case (finished s i c d io a v')
  have keep: "held_ok (spent (l_world s)) (AList.delete i (l_calls s))"
    using finished(3) by (auto simp: held_ok_def held_by_simps)
  from finish_announces [OF finished(2)] show ?case
  proof
    assume "announced_id (Some a) = []"
    then show ?thesis using keep by (auto simp: held_by_simps)
  next
    assume "\<exists>x key. announced_id (Some a) = [x] \<and> d = Inr (x, key)"
    then obtain x key where x: "announced_id (Some a) = [x]" "d = Inr (x, key)" by blast
    with finished(1) have "held_by (l_calls s) i = Some x" by (auto simp: held_by_Some)
    moreover from this have "held_by (AList.delete i (l_calls s)) j \<noteq> Some x" for j
      using finished(3) by (auto simp: held_ok_def held_by_simps)
    ultimately show ?thesis using keep x(1) by (auto simp: held_by_simps)
  qed
qed (auto simp: held_ok_def held_by_simps announced_id_def)

lemma loop_run_announces:
  assumes "loop_run st verify send s answers t" "held_ok (spent (l_world s)) (l_calls s)"
  shows "distinct (concat (map (\<lambda>a. announced_id (Some a)) answers)) \<and>
    (\<forall>x \<in> set (concat (map (\<lambda>a. announced_id (Some a)) answers)).
       x \<in> spent (l_world t) \<and> ((\<exists>i. held_by (l_calls s) i = Some x) \<or> x \<notin> spent (l_world s))) \<and>
    spent (l_world s) \<subseteq> spent (l_world t)"
  using assms
proof (induction rule: loop_run.induct)
  case (step s out t answers u)
  let ?ids = "concat (map (\<lambda>a. announced_id (Some a)) answers)"
  note l = loop_step_announces [OF step(1,4)]
  from l step(3) have IH: "distinct ?ids" "spent (l_world t) \<subseteq> spent (l_world u)"
    "\<forall>x \<in> set ?ids. x \<in> spent (l_world u) \<and> ((\<exists>i. held_by (l_calls t) i = Some x) \<or> x \<notin> spent (l_world t))"
    by blast+
  have ids: "concat (map (\<lambda>a. announced_id (Some a)) (case out of None \<Rightarrow> answers | Some a \<Rightarrow> a # answers)) =
      announced_id out @ ?ids" by (cases out) (simp_all add: announced_id_def)
  have old: "\<forall>x \<in> set ?ids. (\<exists>i. held_by (l_calls s) i = Some x) \<or> x \<notin> spent (l_world s)"
    using IH(3) l by blast
  have new: "x \<in> spent (l_world s) \<and> (\<exists>i. held_by (l_calls s) i = Some x) \<and> x \<notin> set ?ids"
    if "x \<in> set (announced_id out)" for x
  proof -
    from that l obtain i where i: "held_by (l_calls s) i = Some x" "\<forall>j. held_by (l_calls t) j \<noteq> Some x" by auto
    with step(4) have "x \<in> spent (l_world s)" by (auto simp: held_ok_def)
    with i l IH(3) show ?thesis by blast
  qed
  have "distinct (announced_id out)" using l by auto
  then show ?case unfolding ids using IH old new l by auto
qed simp

end

text \<open>Property C26. Whatever interleaves with the handlers that wait, over any run against the EKM no key identifier is announced
  to two requests, and none that was spent before the run.\<close>

theorem keys_announced_once_interleaved:
  assumes "loop_run st verify (ekm_get env f h) (loop_start e v) answers t"
  shows "let ids = concat (map (\<lambda>a. announced_id (Some a)) answers)
    in distinct ids \<and> set ids \<inter> spent_keys e = {} \<and> set ids \<subseteq> spent_keys (l_world t)"
  using ekm_http.loop_run_announces [OF assms]
  by (auto simp: loop_start_def held_ok_def held_by_simps)

section \<open>Two refreshes at once\<close>

text \<open>Two handlers are admitted, their threads fetch keys in turn, and the second one finishes first.\<close>

lemma overlapping_run:
  assumes "admit verify h r v = Inr c"
  shows "\<exists>a b t. loop_run st verify send (loop_start w v) [b, a] t"
proof -
  obtain d1 w1 where d1: "vpn_new_key send (call_peer c) w = (d1, w1)" by (cases "vpn_new_key send (call_peer c) w")
  obtain d2 w2 where d2: "vpn_new_key send (call_peer c) w1 = (d2, w2)" by (cases "vpn_new_key send (call_peer c) w1")
  obtain b v1 where b: "finish st io c d2 v = (b, v1)" by (cases "finish st io c d2 v")
  obtain a v2 where a: "finish st io c d1 v1 = (a, v2)" by (cases "finish st io c d1 v1")
  let ?s = "\<lambda>w v cs. \<lparr> l_world = w, l_vpn = v, l_calls = cs \<rparr>"
  note step = loop_step.admitted loop_step.drawn loop_step.finished
  have 1: "loop_step st verify send (?s w v []) None (?s w v [(0, c, None)])"
    using step(1) [of verify h r "?s w v []" c 0 st send] assms by simp
  have 2: "loop_step st verify send (?s w v [(0, c, None)]) None (?s w v [(0, c, None), (1, c, None)])"
    using step(1) [of verify h r "?s w v [(0, c, None)]" c 1 st send] assms by simp
  have 3: "loop_step st verify send (?s w v [(0, c, None), (1, c, None)]) None (?s w1 v [(0, c, Some d1), (1, c, None)])"
    using step(2) [of "?s w v [(0, c, None), (1, c, None)]" 0 c send d1 w1 st verify] d1 by simp
  have 4: "loop_step st verify send (?s w1 v [(0, c, Some d1), (1, c, None)]) None (?s w2 v [(0, c, Some d1), (1, c, Some d2)])"
    using step(2) [of "?s w1 v [(0, c, Some d1), (1, c, None)]" 1 c send d2 w2 st verify] d2 by simp
  have 5: "loop_step st verify send (?s w2 v [(0, c, Some d1), (1, c, Some d2)]) (Some b) (?s w2 v1 [(0, c, Some d1)])"
    using step(3) [of "?s w2 v [(0, c, Some d1), (1, c, Some d2)]" 1 c d2 st io b v1 verify send] b by simp
  have 6: "loop_step st verify send (?s w2 v1 [(0, c, Some d1)]) (Some a) (?s w2 v2 [])"
    using step(3) [of "?s w2 v1 [(0, c, Some d1)]" 0 c d1 st io a v2 verify send] a by simp
  have "loop_run st verify send (?s w v []) [b, a] (?s w2 v2 [])"
    using loop_run.step [OF 1 loop_run.step [OF 2 loop_run.step [OF 3 loop_run.step [OF 4
      loop_run.step [OF 5 loop_run.step [OF 6 loop_run.stop]]]]]] by simp
  then show ?thesis unfolding loop_start_def by blast
qed

lemma demo_admitted:
  "admit (static_verify ''t'') ''Bearer t'' (Refresh (JObj [(''public_key'', JStr demo_pubkey)])) demo_vpn =
     Inr (WaitRefresh demo_pubkey ''QKD2'')"
proof -
  have "bearer_dep (static_verify ''t'') ''Bearer t'' = Inr [(''sub'', JStr ''static'')]"
    "RefreshConnection (JObj [(''public_key'', JStr demo_pubkey)]) = Some demo_pubkey" by code_simp+
  then show ?thesis by (simp add: admit_def demo_tunnel_run(2))
qed

theorem interleavings_are_atomic_witness:
  "\<exists>a b t evs replies outs.
     loop_run demo_settings (static_verify ''t'') demo_send (loop_start 1 demo_vpn) [b, a] t \<and>
     vpn_exec demo_settings (static_verify ''t'') next_reply evs (replies, demo_vpn) = (outs, [], l_vpn t) \<and> sent outs = [b, a]"
proof -
  obtain a b t where r: "loop_run demo_settings (static_verify ''t'') demo_send (loop_start 1 demo_vpn) [b, a] t"
    using overlapping_run [OF demo_admitted, where st = demo_settings and send = demo_send and w = 1] by blast
  with interleavings_are_atomic [OF r] show ?thesis by blast
qed

theorem keys_announced_once_interleaved_witness:
  "\<exists>a b t. loop_run demo_settings (static_verify ''t'') (ekm_get demo_env demo_fresh ''Bearer s'') (loop_start demo_ekm demo_vpn) [b, a] t \<and>
     distinct (announced_id (Some b) @ announced_id (Some a))"
proof -
  obtain a b t where
    r: "loop_run demo_settings (static_verify ''t'') (ekm_get demo_env demo_fresh ''Bearer s'') (loop_start demo_ekm demo_vpn) [b, a] t"
    using overlapping_run [OF demo_admitted, where st = demo_settings and send = "ekm_get demo_env demo_fresh ''Bearer s''"
        and w = demo_ekm] by blast
  with keys_announced_once_interleaved [OF r] show ?thesis by (auto simp: Let_def)
qed

end

