(* ===== verification/AnalysisDouble.thy ===== *)
theory AnalysisDouble
  imports Doubles CompareProperties
begin

text \<open>
  The equations, Table 9 and the scalars of \<open>src/qkd_ekm/analysis/\<close> in binary64, each operation rounded as
  Python rounds it, the files as pandas and \<open>json\<close> write them, and that the comparison passes on them. The
  exact versions are in \<open>Analysis\<close>.
\<close>

section \<open>Equations\<close>

definition fl_div :: "rat \<Rightarrow> rat \<Rightarrow> rat py" where
  "fl_div a b = map_sum id fl (py_div a b)"

lemma fl_div_Inr [simp]: "b \<noteq> 0 \<Longrightarrow> fl_div a b = Inr (fl (a / b))"
  by (simp add: fl_div_def)

definition demand_fl :: "rat \<Rightarrow> rat \<Rightarrow> rat \<Rightarrow> rat \<Rightarrow> rat \<Rightarrow> rat \<Rightarrow> rat py" where
  "demand_fl tau_e tau_v a_e a_v n_e n_v =
     bind_py (fl_div (fl (a_e * n_e)) tau_e) (\<lambda>x.
     bind_py (fl_div (fl (a_v * n_v)) tau_v) (\<lambda>y. Inr (fl (x + y))))"

definition base_demand_fl :: "rat py" where
  "base_demand_fl = demand_fl 900 3600 1 1 1 1"

definition ceiling_fl :: "rat \<Rightarrow> rat \<Rightarrow> rat \<Rightarrow> rat py" where
  "ceiling_fl r D alpha = fl_div (fl (alpha * r)) D"

definition endurance_fl :: "rat \<Rightarrow> rat \<Rightarrow> rat \<Rightarrow> rat py" where
  "endurance_fl B D beta = fl_div (fl (beta * B)) D"

definition depletion_fl :: "rat \<Rightarrow> rat \<Rightarrow> rat \<Rightarrow> rat option" where
  "depletion_fl B D r_u = (let net = fl (D - r_u) in if net \<le> 0 then None else Some (fl (B / net)))"

definition refill_fl :: "rat \<Rightarrow> rat \<Rightarrow> rat \<Rightarrow> rat option" where
  "refill_fl D t_out r_u =
     (let net = fl (r_u - D) in if net \<le> 0 then None else Some (fl (fl (D * t_out) / net)))"

definition reserve_fl :: "rat \<Rightarrow> rat \<Rightarrow> rat \<Rightarrow> rat \<Rightarrow> rat py" where
  "reserve_fl B D t_out_s r_u =
     (case depletion_fl B D r_u of
        None \<Rightarrow> Inr 100
      | Some t_dep \<Rightarrow>
          bind_py (fl_div t_out_s t_dep) (\<lambda>q. Inr (max 0 (min 100 (fl (100 * fl (1 - q)))))))"

section \<open>Table 9 and the scalars\<close>

definition table9_row_fl :: "rat \<Rightarrow> rat \<Rightarrow> rat \<Rightarrow> int \<Rightarrow> table_row py" where
  "table9_row_fl r B D_base p =
     (let D_row = fl (D_base * of_int p) in
      bind_py (fl_div r D_row) (\<lambda>headroom.
      bind_py (endurance_fl B D_row 1) (\<lambda>endurance.
      Inr \<lparr> tr_pairs = p, tr_demand = D_row, tr_headroom = headroom, tr_endurance_h = fl (endurance / 3600),
            tr_refill_min = map_option (\<lambda>t. fl (t / 60)) (refill_fl D_row 3600 r) \<rparr>)))"

definition table9_fl :: "rat \<Rightarrow> rat \<Rightarrow> int list \<Rightarrow> table_row list py" where
  "table9_fl r B pairs = bind_py base_demand_fl (\<lambda>D_base. map_py (table9_row_fl r B D_base) pairs)"

definition opt_div_fl :: "rat option \<Rightarrow> rat \<Rightarrow> rat py" where
  "opt_div_fl x n = (case x of None \<Rightarrow> Inl TypeError | Some q \<Rightarrow> fl_div q n)"

definition run_scalars_fl :: "(string \<times> json) list py" where
  "run_scalars_fl =
     bind_py base_demand_fl (\<lambda>D.
     bind_py (ceiling_fl SOURCE_RATE D 1) (\<lambda>mQ.
     bind_py (reserve_fl INVENTORY (fl (D * 1000)) (24 * 3600) 0) (\<lambda>r1.
     bind_py (reserve_fl INVENTORY (fl (D * 10000)) (24 * 3600) 0) (\<lambda>r10.
     bind_py (opt_div_fl (depletion_fl INVENTORY (fl (D * 50000)) 0) 3600) (\<lambda>d50.
     bind_py (opt_div_fl (refill_fl (fl (D * 1000)) 3600 SOURCE_RATE) 60) (\<lambda>f1.
     bind_py (opt_div_fl (refill_fl (fl (D * 10000)) 3600 SOURCE_RATE) 60) (\<lambda>f10.
     bind_py (opt_div_fl (refill_fl (fl (D * 50000)) 3600 SOURCE_RATE) 3600) (\<lambda>f50.
     Inr [(''D'', JFloat D), (''mQ'', JFloat mQ),
          (''reserve_24h_1000_pct'', JFloat r1), (''reserve_24h_10000_pct'', JFloat r10),
          (''depletion_50000_h'', JFloat d50), (''refill_1h_1000_min'', JFloat f1),
          (''refill_1h_10000_min'', JFloat f10), (''refill_1h_50000_h'', JFloat f50)]))))))))"

section \<open>How far rounding goes\<close>

text \<open>One rounded operation on operands that are a few units off.\<close>

lemma fl_mult: "rel m x a \<Longrightarrow> rel n y b \<Longrightarrow> small m \<Longrightarrow> small n \<Longrightarrow> small (m + n + 1 / 10) \<Longrightarrow> 1 / 10 ^ 6 \<le> a * b \<Longrightarrow>
    rel (m + n + 6 / 10) (fl (x * y)) (a * b)"
  using rel_fl [OF rel_mult] by (force elim: rel_weaken)

lemma fl_quot: "rel m x a \<Longrightarrow> rel n y b \<Longrightarrow> small m \<Longrightarrow> small n \<Longrightarrow> small (m + n + 1 / 10) \<Longrightarrow> 1 / 10 ^ 6 \<le> a / b \<Longrightarrow>
    rel (m + n + 6 / 10) (fl (x / y)) (a / b)"
  using rel_fl [OF rel_div] by (force elim: rel_weaken)

text \<open>The demand of one pair.\<close>

definition D_fl :: rat where
  "D_fl = fl (fl (fl 1 / 900) + fl (fl 1 / 3600))"

lemma base_demand_fl: "base_demand_fl = Inr D_fl"
  by (simp add: base_demand_fl_def demand_fl_def D_fl_def)

lemma D_units: "rel 2 D_fl (1 / 720)"
proof -
  have one: "rel (1 / 2) (fl 1) 1" using rel_fl [OF rel_exact [of 1]] by (simp add: small_def)
  have "rel (11 / 10) (fl (fl 1 / 900)) (1 / 900)" "rel (11 / 10) (fl (fl 1 / 3600)) (1 / 3600)"
    using fl_quot [OF one rel_exact, of 900] fl_quot [OF one rel_exact, of 3600] by (simp_all add: small_def)
  from rel_add [OF this] have "rel (11 / 10) (fl (fl 1 / 900) + fl (fl 1 / 3600)) (1 / 720)" by simp
  from rel_fl [OF this] have "rel (16 / 10) D_fl (1 / 720)" by (simp add: small_def D_fl_def)
  then show ?thesis by (rule rel_weaken) simp
qed

lemma demand_units:
  assumes "1 \<le> P" "P \<le> 60000"
  shows "rel 3 (fl (D_fl * P)) (P / 720)"
proof -
  have "rel (2 + 0 + 6 / 10) (fl (D_fl * P)) (1 / 720 * P)"
    by (rule fl_mult [OF D_units rel_exact]) (use assms in \<open>simp_all add: small_def\<close>)
  then show ?thesis by (auto elim: rel_weaken)
qed

lemma headroom_units:
  assumes "1 \<le> P" "P \<le> 60000"
  shows "rel 4 (fl (SOURCE_RATE / fl (D_fl * P))) (SOURCE_RATE / (P / 720))"
proof -
  have "rel (0 + 3 + 6 / 10) (fl (SOURCE_RATE / fl (D_fl * P))) (SOURCE_RATE / (P / 720))"
    by (rule fl_quot [OF rel_exact demand_units [OF assms]])
      (use assms in \<open>simp_all add: small_def SOURCE_RATE_def pos_le_divide_eq\<close>)
  then show ?thesis by (rule rel_weaken) simp
qed

lemma endurance_units:
  assumes "1 \<le> P" "P \<le> 60000"
  shows "rel 6 (fl (fl (fl (1 * INVENTORY) / fl (D_fl * P)) / 3600)) (INVENTORY / (P / 720) / 3600)"
proof -
  have "rel (1 / 2) (fl (1 * INVENTORY)) INVENTORY"
    using rel_fl [OF rel_exact [of INVENTORY]] by (simp add: small_def INVENTORY_def)
  then have "rel (1 / 2 + 3 + 6 / 10) (fl (fl (1 * INVENTORY) / fl (D_fl * P))) (INVENTORY / (P / 720))"
    by (rule fl_quot [OF _ demand_units [OF assms]])
      (use assms in \<open>simp_all add: small_def INVENTORY_def pos_le_divide_eq\<close>)
  from fl_quot [OF this rel_exact [of 3600]] assms
  have "rel (1 / 2 + 3 + 6 / 10 + 0 + 6 / 10) (fl (fl (fl (1 * INVENTORY) / fl (D_fl * P)) / 3600))
      (INVENTORY / (P / 720) / 3600)" by (simp add: small_def INVENTORY_def pos_le_divide_eq)
  then show ?thesis by (rule rel_weaken) simp
qed

text \<open>Up to 50,000 pairs the source outruns the demand by enough.\<close>

lemma surplus_units:
  assumes "1 \<le> P" "P \<le> 50000"
  shows "rel 17 (fl (SOURCE_RATE - fl (D_fl * P))) (SOURCE_RATE - P / 720)"
proof -
  have P: "P \<le> 60000" using assms by simp
  have "rel 16 (SOURCE_RATE - fl (D_fl * P)) (SOURCE_RATE - P / 720)"
    by (rule rel_diff [OF rel_exact demand_units [OF assms(1) P]]) (use assms in \<open>simp_all add: SOURCE_RATE_def\<close>)
  from rel_fl [OF this] assms have "rel (16 + 1 / 2) (fl (SOURCE_RATE - fl (D_fl * P))) (SOURCE_RATE - P / 720)"
    by (simp add: small_def SOURCE_RATE_def)
  then show ?thesis by (rule rel_weaken) simp
qed

lemma refill_units:
  assumes "1 \<le> P" "P \<le> 50000" "d \<in> {60, 3600}" "1 / 10 ^ 6 \<le> P / 720 * 3600 / (SOURCE_RATE - P / 720) / d"
  shows "\<exists>t. refill_fl (fl (D_fl * P)) 3600 SOURCE_RATE = Some t \<and>
    rel 23 (fl (t / d)) (P / 720 * 3600 / (SOURCE_RATE - P / 720) / d)"
proof -
  have P: "P \<le> 60000" using assms by simp
  let ?net = "fl (SOURCE_RATE - fl (D_fl * P))"
  have pos: "0 < ?net" using rel_pos [OF surplus_units [OF assms(1,2)]] by (simp add: small_def)
  have "rel (3 + 0 + 6 / 10) (fl (fl (D_fl * P) * 3600)) (P / 720 * 3600)"
    by (rule fl_mult [OF demand_units [OF assms(1) P] rel_exact]) (use assms in \<open>simp_all add: small_def\<close>)
  then have "rel (3 + 0 + 6 / 10 + 17 + 6 / 10) (fl (fl (fl (D_fl * P) * 3600) / ?net)) (P / 720 * 3600 / (SOURCE_RATE - P / 720))"
  proof (rule fl_quot [OF _ surplus_units [OF assms(1,2)]])
    show "1 / 10 ^ 6 \<le> P / 720 * 3600 / (SOURCE_RATE - P / 720)"
      using assms by (simp add: SOURCE_RATE_def pos_le_divide_eq)
  qed (simp_all add: small_def)
  from fl_quot [OF this rel_exact [of d]] assms(3,4)
  have "rel (3 + 0 + 6 / 10 + 17 + 6 / 10 + 0 + 6 / 10) (fl (fl (fl (fl (D_fl * P) * 3600) / ?net) / d))
      (P / 720 * 3600 / (SOURCE_RATE - P / 720) / d)" by (auto simp: small_def)
  then have "rel 23 (fl (fl (fl (fl (D_fl * P) * 3600) / ?net) / d)) (P / 720 * 3600 / (SOURCE_RATE - P / 720) / d)"
    by (rule rel_weaken) simp
  with pos show ?thesis by (simp add: refill_fl_def Let_def)
qed

lemma no_refill: "refill_fl (fl (D_fl * 60000)) 3600 SOURCE_RATE = None"
proof -
  have "rel 3 (fl (D_fl * 60000)) (60000 / 720)" using demand_units [of 60000] by simp
  then have "\<bar>fl (D_fl * 60000) - 60000 / 720\<bar> \<le> 1 / 10" by (rule rel_abs) simp_all
  then have "SOURCE_RATE - fl (D_fl * 60000) \<le> 0" unfolding SOURCE_RATE_def by linarith
  from fl_nonpos [OF this] show ?thesis by (simp add: refill_fl_def Let_def)
qed

section \<open>The table and the scalars\<close>

text \<open>A row of numbers that are a few units off.\<close>

definition double :: "rat \<Rightarrow> bool" where
  "double v \<longleftrightarrow> (\<exists>x. v = fl x)"

lemma double_fl [simp]: "double (fl x)"
  by (auto simp: double_def)

definition row_units :: "table_row \<Rightarrow> table_row \<Rightarrow> bool" where
  "row_units a b \<longleftrightarrow>
     tr_pairs a = tr_pairs b \<and> rel 3 (tr_demand a) (tr_demand b) \<and> rel 4 (tr_headroom a) (tr_headroom b) \<and>
     rel 6 (tr_endurance_h a) (tr_endurance_h b) \<and>
     rel_option (\<lambda>x y. double x \<and> rel 23 x y) (tr_refill_min a) (tr_refill_min b) \<and>
     double (tr_demand a) \<and> double (tr_headroom a) \<and> double (tr_endurance_h a)"

lemma table9_row_units:
  assumes "p \<in> {1, 1000, 10000, 50000, 60000}"
  shows "\<exists>a b. table9_row_fl SOURCE_RATE INVENTORY D_fl p = Inr a \<and> table9_row SOURCE_RATE INVENTORY (1 / 720) p = Inr b \<and>
    row_units a b"
proof -
  let ?P = "of_int p :: rat"
  have P: "1 \<le> ?P" "?P \<le> 60000" using assms by auto
  note units = demand_units [OF P] headroom_units [OF P] endurance_units [OF P]
  have nz: "fl (D_fl * ?P) \<noteq> 0" using rel_pos [OF units(1)] by (simp add: small_def)
  have "rel_option (\<lambda>x y. double x \<and> rel 23 x y) (map_option (\<lambda>t. fl (t / 60)) (refill_fl (fl (D_fl * ?P)) 3600 SOURCE_RATE))
      (map_option (\<lambda>t. t / 60) (refill_s (1 / 720 * ?P) 3600 SOURCE_RATE))"
  proof (cases "p = 60000")
    case True
    then show ?thesis using no_refill by (simp add: refill_s_def SOURCE_RATE_def)
  next
    case False
    with assms have p: "?P \<le> 50000" "1 / 10 ^ 6 \<le> ?P / 720 * 3600 / (SOURCE_RATE - ?P / 720) / 60"
      by (auto simp: SOURCE_RATE_def)
    from refill_units [OF P(1) p(1) _ p(2)] p(1) show ?thesis by (auto simp: refill_s_def SOURCE_RATE_def Let_def)
  qed
  then show ?thesis using units nz P
    by (simp add: table9_row_fl_def table9_row_def endurance_fl_def endurance_s_def Let_def row_units_def)
qed

lemma table9_units:
  "\<exists>as bs. table9_fl SOURCE_RATE INVENTORY TABLE9_PAIRS = Inr as \<and> table9 SOURCE_RATE INVENTORY TABLE9_PAIRS = Inr bs \<and>
     list_all2 row_units as bs"
proof -
  have D: "base_demand = Inr (1 / 720)" by (simp add: base_demand_def demand_rate_def)
  have "\<exists>as bs. map_py (table9_row_fl SOURCE_RATE INVENTORY D_fl) ps = Inr as \<and>
      map_py (table9_row SOURCE_RATE INVENTORY (1 / 720)) ps = Inr bs \<and> list_all2 row_units as bs"
    if "set ps \<subseteq> {1, 1000, 10000, 50000, 60000}" for ps
    using that
  proof (induction ps)
    case (Cons p ps)
    from Cons.prems have p: "p \<in> {1, 1000, 10000, 50000, 60000}" and ps: "set ps \<subseteq> {1, 1000, 10000, 50000, 60000}" by simp_all
    from table9_row_units [OF p] obtain a b where "table9_row_fl SOURCE_RATE INVENTORY D_fl p = Inr a"
      "table9_row SOURCE_RATE INVENTORY (1 / 720) p = Inr b" "row_units a b" by blast
    moreover from Cons.IH [OF ps] obtain as bs where "map_py (table9_row_fl SOURCE_RATE INVENTORY D_fl) ps = Inr as"
      "map_py (table9_row SOURCE_RATE INVENTORY (1 / 720)) ps = Inr bs" "list_all2 row_units as bs" by blast
    ultimately show ?case by simp
  qed simp
  from this [of TABLE9_PAIRS] show ?thesis
    by (simp add: table9_fl_def table9_def base_demand_fl D TABLE9_PAIRS_def)
qed

lemma depletion_units:
  assumes "1 \<le> P" "P \<le> 60000"
  shows "\<exists>T. depletion_fl INVENTORY (fl (D_fl * P)) 0 = Some T \<and> rel 5 T (INVENTORY / (P / 720))"
proof -
  have "rel (3 + 1 / 2) (fl (fl (D_fl * P) - 0)) (P / 720)"
    using rel_fl [OF demand_units [OF assms]] assms by (simp add: small_def)
  note net = this
  have "rel (0 + (3 + 1 / 2) + 6 / 10) (fl (INVENTORY / fl (fl (D_fl * P) - 0))) (INVENTORY / (P / 720))"
    by (rule fl_quot [OF rel_exact net])
      (use assms in \<open>simp_all add: small_def INVENTORY_def pos_le_divide_eq\<close>)
  then have "rel 5 (fl (INVENTORY / fl (fl (D_fl * P) - 0))) (INVENTORY / (P / 720))" by (rule rel_weaken) simp
  moreover have "0 < fl (fl (D_fl * P) - 0)" using rel_pos [OF net] by (simp add: small_def)
  ultimately show ?thesis by (simp add: depletion_fl_def Let_def)
qed

text \<open>The reserve after a day, for 1,000 and 10,000 pairs.\<close>

lemma reserve_units:
  assumes "P \<in> {1000, 10000}"
  shows "\<exists>x. reserve_fl INVENTORY (fl (D_fl * P)) (24 * 3600) 0 = Inr x \<and>
    rel 7 x (100 * (1 - 86400 / (INVENTORY / (P / 720))))"
proof -
  have P: "1 \<le> P" "P \<le> 60000" using assms by auto
  from depletion_units [OF P] obtain T where
    T: "depletion_fl INVENTORY (fl (D_fl * P)) 0 = Some T" "rel 5 T (INVENTORY / (P / 720))" by blast
  let ?q = "86400 / (INVENTORY / (P / 720))"
  have "rel (0 + 5 + 6 / 10) (fl (86400 / T)) ?q"
    by (rule fl_quot [OF rel_exact T(2)]) (use assms in \<open>auto simp: small_def INVENTORY_def\<close>)
  then have "rel 6 (fl (86400 / T)) ?q" by (rule rel_weaken) simp
  from rel_diff [OF rel_exact [of 1] this, of 4] assms have "rel 4 (1 - fl (86400 / T)) (1 - ?q)"
    by (auto simp: INVENTORY_def)
  from rel_fl [OF this] assms have "rel (4 + 1 / 2) (fl (1 - fl (86400 / T))) (1 - ?q)"
    by (auto simp: small_def INVENTORY_def)
  from fl_mult [OF rel_exact [of 100] this] assms
  have "rel (0 + (4 + 1 / 2) + 6 / 10) (fl (100 * fl (1 - fl (86400 / T)))) (100 * (1 - ?q))"
    by (auto simp: small_def INVENTORY_def)
  then have r: "rel 7 (fl (100 * fl (1 - fl (86400 / T)))) (100 * (1 - ?q))" by (rule rel_weaken) simp
  have "0 < fl (100 * fl (1 - fl (86400 / T)))" using rel_pos [OF r] by (simp add: small_def)
  moreover have "\<bar>fl (100 * fl (1 - fl (86400 / T))) - 100 * (1 - ?q)\<bar> \<le> 1"
    by (rule rel_abs [OF r]) (use assms in \<open>auto simp: INVENTORY_def\<close>)
  moreover have "100 * (1 - ?q) \<le> 99" using assms by (auto simp: INVENTORY_def)
  ultimately have "max 0 (min 100 (fl (100 * fl (1 - fl (86400 / T))))) = fl (100 * fl (1 - fl (86400 / T)))" by linarith
  moreover have "T \<noteq> 0" using rel_pos [OF T(2)] by (simp add: small_def)
  ultimately show ?thesis using T(1) r by (simp add: reserve_fl_def)
qed

lemma run_scalars_units: "\<exists>vals exact. run_scalars_fl = Inr vals \<and> run_scalars = Inr exact \<and> reads_scalars (JObj vals) exact"
proof -
  have ps: "1 \<le> P" "P \<le> 60000" "P \<le> 50000" if "P \<in> {1000, 10000, 50000}" for P :: rat using that by auto
  obtain r1 where r1: "reserve_fl INVENTORY (fl (D_fl * 1000)) (24 * 3600) 0 = Inr r1"
    "rel 7 r1 (100 * (1 - 86400 / (INVENTORY / (1000 / 720))))" using reserve_units [of 1000] by auto
  obtain r10 where r10: "reserve_fl INVENTORY (fl (D_fl * 10000)) (24 * 3600) 0 = Inr r10"
    "rel 7 r10 (100 * (1 - 86400 / (INVENTORY / (10000 / 720))))" using reserve_units [of 10000] by auto
  obtain T where T: "depletion_fl INVENTORY (fl (D_fl * 50000)) 0 = Some T" "rel 5 T (INVENTORY / (50000 / 720))"
    using depletion_units [of 50000] by auto
  have d50: "rel (5 + 0 + 6 / 10) (fl (T / 3600)) (INVENTORY / (50000 / 720) / 3600)"
    by (rule fl_quot [OF T(2) rel_exact]) (simp_all add: small_def INVENTORY_def)
  obtain f1 where f1: "refill_fl (fl (D_fl * 1000)) 3600 SOURCE_RATE = Some f1"
    "rel 23 (fl (f1 / 60)) (1000 / 720 * 3600 / (SOURCE_RATE - 1000 / 720) / 60)"
    using refill_units [of 1000 60] by (auto simp: SOURCE_RATE_def)
  obtain f10 where f10: "refill_fl (fl (D_fl * 10000)) 3600 SOURCE_RATE = Some f10"
    "rel 23 (fl (f10 / 60)) (10000 / 720 * 3600 / (SOURCE_RATE - 10000 / 720) / 60)"
    using refill_units [of 10000 60] by (auto simp: SOURCE_RATE_def)
  obtain f50 where f50: "refill_fl (fl (D_fl * 50000)) 3600 SOURCE_RATE = Some f50"
    "rel 23 (fl (f50 / 3600)) (50000 / 720 * 3600 / (SOURCE_RATE - 50000 / 720) / 3600)"
    using refill_units [of 50000 3600] by (auto simp: SOURCE_RATE_def)
  have one: "rel (1 / 2) (fl (1 * SOURCE_RATE)) SOURCE_RATE"
    using rel_fl [OF rel_exact [of SOURCE_RATE]] by (simp add: small_def SOURCE_RATE_def)
  have mQ: "rel (1 / 2 + 2 + 6 / 10) (fl (fl (1 * SOURCE_RATE) / D_fl)) (SOURCE_RATE / (1 / 720))"
    by (rule fl_quot [OF one D_units]) (simp_all add: small_def SOURCE_RATE_def)
  have D: "D_fl \<noteq> 0" using rel_pos [OF D_units] by (simp add: small_def)
  let ?vals = "[(''D'', JFloat D_fl), (''mQ'', JFloat (fl (fl (1 * SOURCE_RATE) / D_fl))),
      (''reserve_24h_1000_pct'', JFloat r1), (''reserve_24h_10000_pct'', JFloat r10),
      (''depletion_50000_h'', JFloat (fl (T / 3600))), (''refill_1h_1000_min'', JFloat (fl (f1 / 60))),
      (''refill_1h_10000_min'', JFloat (fl (f10 / 60))), (''refill_1h_50000_h'', JFloat (fl (f50 / 3600)))]"
  have vals: "run_scalars_fl = Inr ?vals"
    using D by (simp add: run_scalars_fl_def base_demand_fl ceiling_fl_def r1(1) [simplified] r10(1) [simplified] T(1) f1(1) f10(1) f50(1) opt_div_fl_def)
  note abs = rel_abs [where eps = "1 / 10000000"]
  have "reads_scalars (JObj ?vals) exact" if "run_scalars = Inr exact" for exact
  proof -
    have "\<bar>D_fl - 1 / 720\<bar> \<le> 1 / 10000000" by (rule abs [OF D_units]) simp_all
    moreover have "\<bar>fl (fl (1 * SOURCE_RATE) / D_fl) - 238725 / 4\<bar> \<le> 1 / 10000000"
      using abs [OF mQ] by (simp add: SOURCE_RATE_def)
    moreover have "\<bar>r1 - 100 * (1 - 120000 / 3275971)\<bar> \<le> 1 / 10000000" using abs [OF r1(2)] by (simp add: INVENTORY_def)
    moreover have "\<bar>r10 - 100 * (1 - 1200000 / 3275971)\<bar> \<le> 1 / 10000000" using abs [OF r10(2)] by (simp add: INVENTORY_def)
    moreover have "\<bar>fl (T / 3600) - 3275971 / 250000\<bar> \<le> 1 / 10000000" using abs [OF d50] by (simp add: INVENTORY_def)
    moreover have "\<bar>fl (f1 / 60) - 9600 / 9389\<bar> \<le> 1 / 10000000" using abs [OF f1(2)] by (simp add: SOURCE_RATE_def)
    moreover have "\<bar>fl (f10 / 60) - 96000 / 7949\<bar> \<le> 1 / 10000000" using abs [OF f10(2)] by (simp add: SOURCE_RATE_def)
    moreover have "\<bar>fl (f50 / 3600) - 8000 / 1549\<bar> \<le> 1 / 10000000" using abs [OF f50(2)] by (simp add: SOURCE_RATE_def)
    ultimately show ?thesis
      using that unfolding run_scalars_value sum.inject
      by (elim subst) (simp add: reads_scalars_def py_get_def as_num_def)
  qed
  with vals show ?thesis unfolding run_scalars_value by blast
qed

section \<open>The files\<close>

text \<open>The rows that \<open>DictReader\<close> gives of what \<open>to_csv\<close> wrote; \<open>shw\<close> is \<open>repr\<close> of a float.\<close>

definition csv_of :: "(rat \<Rightarrow> string) \<Rightarrow> table_row list \<Rightarrow> csv_row list" where
  "csv_of shw rows =
     map (\<lambda>r. [(''pairs'', Some (str_int (tr_pairs r))), (''demand'', Some (shw (tr_demand r))),
        (''headroom'', Some (shw (tr_headroom r))), (''endurance_h'', Some (shw (tr_endurance_h r))),
        (''refill_min'', Some (case tr_refill_min r of None \<Rightarrow> [] | Some t \<Rightarrow> shw t))]) rows"

text \<open>The contract of \<open>repr\<close>: its text is read back as a decimal that rounds to the same float.\<close>

definition reprs :: "(rat \<Rightarrow> string) \<Rightarrow> bool" where
  "reprs shw \<longleftrightarrow> (\<forall>x. \<exists>q. as_float (Some (shw (fl x))) = Inr (Some (FNum q)) \<and> fl q = fl x)"

lemma cell_reads:
  assumes "reprs shw" "double v" "rel n v y" "0 \<le> n" "n \<le> 23" "y \<le> 10 ^ 6"
  shows "reads_cell (Some (shw v)) (Some y)"
proof -
  obtain q where q: "as_float (Some (shw v)) = Inr (Some (FNum q))" "fl q = v"
    using assms(1,2) by (auto simp: reprs_def double_def)
  have y: "0 < y" using assms(3) by (simp add: rel_def)
  have "n * y \<le> 23 * 10 ^ 6" using assms(4-6) y by (intro mult_mono) simp_all
  then have v: "\<bar>v - y\<bar> \<le> 1 / 100000" by (intro rel_abs [OF assms(3,4)]) simp
  have e: "\<bar>v - q\<bar> \<le> \<bar>q\<bar> / 2 ^ 53 + 1 / 2 ^ 100" using fl_near [of q] q(2) by simp
  then have "\<bar>v - q\<bar> \<le> \<bar>q\<bar> / 2 + 1" by (rule order_trans) simp
  moreover have "y \<le> 1000000" using assms(6) by simp
  ultimately have "\<bar>q\<bar> \<le> 4000000" using v y by (simp only: abs_le_iff abs_if split: if_splits) linarith+
  then have "\<bar>q\<bar> \<le> 4 * 10 ^ 6" by simp
  then have "\<bar>q\<bar> / 2 ^ 53 + 1 / 2 ^ 100 \<le> 4 * 10 ^ 6 / 2 ^ 53 + 1 / 2 ^ 100" by (intro add_mono divide_right_mono) simp_all
  also have "\<dots> \<le> (1 / 100000 :: rat)" by simp
  finally have "\<bar>q - y\<bar> \<le> 1 / 20000" using e v by linarith
  with q(1) show ?thesis by (simp add: reads_cell_def)
qed

lemma as_float_blank: "as_float (Some []) = Inr None"
  by (simp add: as_float_def strip_def)

lemma row_reads:
  assumes "reprs shw" "row_units a b" "tr_pairs b \<in> {1, 1000, 10000, 50000, 60000}"
    and "tr_demand b \<le> 10 ^ 6" "tr_headroom b \<le> 10 ^ 6" "tr_endurance_h b \<le> 10 ^ 6"
    and "pred_option (\<lambda>t. t \<le> 10 ^ 6) (tr_refill_min b)" "row \<in> set (csv_of shw [a])"
  shows "reads_row row b"
proof -
  note cell = cell_reads [OF assms(1)]
  have refill: "reads_cell (Some (case tr_refill_min a of None \<Rightarrow> [] | Some t \<Rightarrow> shw t)) (tr_refill_min b)"
    using assms(2,7) cell [of _ 23]
    by (cases "tr_refill_min a"; cases "tr_refill_min b") (auto simp: row_units_def reads_cell_def as_float_blank)
  show ?thesis
    using assms(2-6,8) refill cell [of _ 3] cell [of _ 4] cell [of _ 6]
    by (auto simp: py_float_int row_units_def reads_row_def csv_of_def row_text_def row_pairs_def)
qed

lemma csv_reads:
  assumes "reprs shw" "list_all2 row_units as bs" "table9 SOURCE_RATE INVENTORY TABLE9_PAIRS = Inr bs"
  shows "list_all2 reads_row (csv_of shw as) bs"
proof -
  have bs: "\<forall>b \<in> set bs. tr_pairs b \<in> {1, 1000, 10000, 50000, 60000} \<and> tr_demand b \<le> 10 ^ 6 \<and>
      tr_headroom b \<le> 10 ^ 6 \<and> tr_endurance_h b \<le> 10 ^ 6 \<and> pred_option (\<lambda>t. t \<le> 10 ^ 6) (tr_refill_min b)"
    using assms(3) unfolding table9_value sum.inject by (elim subst) simp
  show ?thesis
    using assms(2) bs
  proof (induction rule: list_all2_induct)
    case (Cons a as b bs)
    then have "reads_row (hd (csv_of shw [a])) b"
      by (intro row_reads [OF assms(1) Cons.hyps(1)]) (auto simp: csv_of_def)
    with Cons show ?case by (simp add: csv_of_def)
  qed (simp add: csv_of_def)
qed

text \<open>Property C18. With every operation of \<open>run_all\<close> rounded to a double and the results written as \<open>repr\<close> writes them,
  \<open>compare.py --only analysis\<close> exits with status 0 against the published numbers: the rounding errors of Table 9
  and of the eight scalars stay far below the tolerances.\<close>

theorem double_analysis_reproduced:
  assumes "reprs shw" and "x_paper exp1 = PAPER_NUMBERS"
  shows "\<exists>rows vals cks. table9_fl SOURCE_RATE INVENTORY TABLE9_PAIRS = Inr rows \<and> run_scalars_fl = Inr vals \<and>
    compare_main fmt1 (Some ''analysis'')
      (res\<lparr>r_table9 := Some (csv_of shw rows), r_scalars := Some (JObj vals)\<rparr>) exp1 = Inr (0, cks) \<and>
    list_all passed cks"
proof -
  obtain as bs where rows: "table9_fl SOURCE_RATE INVENTORY TABLE9_PAIRS = Inr as"
    "table9 SOURCE_RATE INVENTORY TABLE9_PAIRS = Inr bs" "list_all2 row_units as bs" using table9_units by blast
  obtain vals exact where vals: "run_scalars_fl = Inr vals" "run_scalars = Inr exact" "reads_scalars (JObj vals) exact"
    using run_scalars_units by blast
  let ?res = "res\<lparr>r_table9 := Some (csv_of shw as), r_scalars := Some (JObj vals)\<rparr>"
  obtain cks where "compare_main fmt1 (Some ''analysis'') ?res exp1 = Inr (0, cks)" "\<forall>c \<in> set cks. passed c"
    using published_analysis_reproduced [OF rows(2) vals(2) _ csv_reads [OF assms(1) rows(3,2)] _ vals(3) assms(2), of ?res fmt1]
    by auto
  with rows(1) vals(1) show ?thesis by (auto simp: list_all_iff)
qed

lemma exact_text_reprs: "reprs exact_text"
proof -
  have "strip (exact_text x) \<noteq> []" for x
    using exact_text_reads [of x] by (auto simp: py_float_def signed_def parse_decimal_def partition_at_def split: if_splits)
  then show ?thesis by (simp add: reprs_def as_float_def exact_text_reads)
qed

theorem double_analysis_reproduced_witness:
  "\<exists>rows vals cks. table9_fl SOURCE_RATE INVENTORY TABLE9_PAIRS = Inr rows \<and> run_scalars_fl = Inr vals \<and>
     compare_main (\<lambda>_. []) (Some ''analysis'')
       (demo_results\<lparr>r_table9 := Some (csv_of exact_text rows), r_scalars := Some (JObj vals)\<rparr>)
       (demo_expected\<lparr>x_paper := PAPER_NUMBERS\<rparr>) = Inr (0, cks) \<and> list_all passed cks"
  by (rule double_analysis_reproduced [OF exact_text_reprs]) simp

end
