(* ===== verification/Spec2Isabelle.thy ===== *)
theory Spec2Isabelle
  imports ModelProperties ModelReport ModelSeeded SimApp EkmService EndToEnd Rotate Calibrate SimMain
    CompareProperties LogLines VpnInterleaving AnalysisDouble
begin

text \<open>
  A verification development for qkd-ekm-lifecycle: an external key manager (EKM) that hands out QKD
  keys, the services around it, and an enumerable reference model of its key lifecycle.

  \<^bold>\<open>The program.\<close> A KME (in the repository the simulator \<open>qkdsim\<close>) issues keys in pairs: one side asks for
  new keys (\<open>enc_keys\<close>), the other fetches the same keys by identifier (\<open>dec_keys\<close>). The EKM pulls
  keys into a pool per peer (\<open>ekm/pool.py\<close>), binds each key it hands out to one purpose and object in
  SQLite (\<open>ekm/store.py\<close>), wraps and unwraps for Cloud KMS and delivers new keys to the VPN and the
  upload server (\<open>ekm/app.py\<close>). The VPN server (\<open>vpn/app.py\<close>) installs such a key as a WireGuard
  pre-shared key and tells the client its identifier; the client (\<open>client/cli.py\<close>) fetches the key
  from its own KME and installs it too. The upload server (\<open>upload/app.py\<close>) does the same for files.
  \<open>model/\<close> enumerates every state of an abstract lifecycle and checks nine state and four step
  properties. Around them: \<open>ekm/rotate.py\<close> rotates a Cloud KMS key onto the next path of the EKM;
  \<open>qkd/heqa.py\<close> and \<open>scripts/capture_qkd.py\<close> read the monitoring values of an appliance, from which
  \<open>analysis/\<close> computes capacity figures; \<open>scripts/model_calibrate.py\<close> sweeps the readings of the model,
  \<open>scripts/redact.py\<close> turns service logs into transcripts, and \<open>scripts/compare.py\<close> holds all results
  against the published numbers.

  \<^bold>\<open>The theories.\<close> \<open>QkdPrelude\<close>: Python errors as values, strings, JSON, shared lemmas. \<open>Web\<close>: HTTP
  errors and the envelope. \<open>Crypto\<close>, \<open>Auth\<close>: \<open>common/crypto.py\<close>, \<open>common/auth.py\<close>. \<open>EkmStore\<close>,
  \<open>KeyPool\<close>, \<open>EkmApp\<close>: the EKM; \<open>EkmService\<close>: its runs, with restarts and a crash. \<open>Etsi014\<close>,
  \<open>SimStore\<close>, \<open>SimApp\<close>: the ETSI 014 client and the simulator. \<open>EkmClient\<close>: the client of the EKM,
  its quoting, and the EKM's routing of the decoded path; \<open>KeyService\<close>: the locale \<open>key_service\<close> for a
  service that delivers every key once, interpreted by the EKM behind that client. \<open>Ipv4\<close>, \<open>VpnApp\<close>:
  the VPN control API with its timers as tasks; \<open>VpnService\<close>, \<open>VpnProperties\<close>: its runs; \<open>VpnInterleaving\<close>: its
  handlers cut at their \<open>await\<close>, with everything that may run meanwhile. \<open>WireGuard\<close>:
  the commands of both sides over a runner parameter. \<open>UploadApp\<close>: the upload server, with the locale
  \<open>object_sink\<close>. \<open>ClientCli\<close>, \<open>ClientProperties\<close>: the client's commands. \<open>TunnelKeys\<close>, \<open>EndToEnd\<close>: KME,
  EKM, VPN, upload server and client together. \<open>Lifecycle\<close>: \<open>ekm/lifecycle.py\<close>, used by the service and
  by the model. \<open>ModelState\<close>, \<open>ModelEvents\<close>, \<open>ModelChecks\<close>, \<open>ModelInvariants\<close>, \<open>ModelProperties\<close>,
  \<open>ModelEnumerate\<close>, \<open>ModelSeeded\<close>, \<open>ModelReport\<close>: the reference model, its reachable states and its
  tool; \<open>Calibrate\<close>: the sweep of its readings. \<open>EntryPoints\<close>: \<open>common/settings.py\<close> and what the EKM, VPN and
  upload entry points make of the environment; \<open>SimMonitor\<close>, \<open>SimMain\<close>: the monitoring routes of the simulator,
  its routing and its start. \<open>Rotate\<close>: key rotation, over a parameter for Cloud KMS. \<open>Heqa\<close>, \<open>Capture\<close>: the
  monitoring client, the capture script, and both against the simulator. \<open>PyValues\<close>: decoded JSON, decimal
  numbers and lines as Python reads and prints them. \<open>Analysis\<close>: \<open>analysis/\<close> over rationals; \<open>Doubles\<close>:
  rounding to binary64 and its error; \<open>AnalysisDouble\<close>: the equations, Table 9 and the scalars in doubles. \<open>Compare\<close>, \<open>CompareProperties\<close>:
  the comparison script. \<open>Regex\<close>: the part of \<open>re\<close> that the redaction uses; \<open>Redact\<close>, \<open>LogLines\<close>: the
  redaction and the lines of \<open>common/log.py\<close> it reads.

  \<^bold>\<open>How state and operations correspond.\<close> A Python object is a record (\<open>store\<close>, \<open>pool\<close>, \<open>ekm\<close>,
  \<open>key_store\<close>, \<open>vpn\<close>); a dictionary that keeps its insertion order is an association list; a method or
  handler is a function from the state (and what the outside gives: time, nonces, the answers of
  commands and of the file system) to its result and the new state, errors being \<open>Inl\<close>. On the hosts that run
  \<open>wg\<close> every file operation may fail with OSError and a failing write may leave part of its text: \<open>disk\<close>, a parameter
  of \<open>with_psk_file\<close>, \<open>write_conf\<close>, \<open>ensure_private_key\<close> and the client's commands; so may storing an object
  (\<open>ds_disk\<close>) and writing the peers file (\<open>file_write\<close>). The client stamps every command it runs with the time
  (\<open>c_ran\<close>), so that the order of waiting and installing is part of its state. Runs are lists of events; the pool's
  two loops are the step relation \<open>pool_step\<close>, which interleaves the sections its lock delimits.

  \<^bold>\<open>What the theorems show.\<close> Numbered properties are stated next to the component they are about. End to
  end: after a successful connect both ends hold one key, after a successful refresh the same key waits
  at the server for the announced moment, before which the client did not install it, and an upload stores
  the plaintext; every key the EKM holds
  can be fetched on the other side, whatever ran before. Over all runs: identifiers are delivered and
  announced once, bindings are one to one, a wrapped key unwraps, a key of an external key id never
  changes, tunnel addresses are unique and bounded, handlers that overlap while they wait for a key
  behave as if each ran at once, a buffer never exceeds its target and is first in
  first out. For the reference model: every reachable state satisfies I1 to I9, every step G1 to G4, for
  every reading of the rules, and the enumeration returns exactly the reachable states and steps, in
  finitely many rounds; the sweep reports a match exactly when a reading of its plan has the published counts.
  On errors: what a failed client command, a failed deletion or a failed hand-over of a key leaves behind.
  For the tools: a rotation promotes only the version that KMS answered last, as enabled; a simulator with default rates gives the published Table 9 through capture and
  analysis; exit status 0 of the comparison means that the selected results agree, every count, cell, scalar and event, and what the analysis
  computes in doubles passes it; no UUID and no e-mail address survives redaction, and each service's lines keep
  their order. Some theorems state what the code does against its intention; they are the
  findings of the manifest.

  \<^bold>\<open>Bounds and fuel.\<close> Loops over data are structural recursion. The enumeration's loop is
  \<open>partial_function\<close> and that it returns is proved, so no fuel is chosen. Runs are over arbitrary finite
  lists of events. Machine integers are bytes (\<open>8 word\<close>) in the cryptographic helpers; Python integers
  are \<open>int\<close>, times rationals or microseconds. A float of the analysis is a rational in \<open>Analysis\<close> and a double
  in \<open>AnalysisDouble\<close>, where every operation rounds to nearest, ties to even; the errors add up to at most 23
  units of \<open>1 / 2 ^ 50\<close>, against tolerances of a ten-millionth. The comparison subtracts doubles as well. Overflow to infinity is outside the range, but an
  integer that no double holds raises OverflowError where the code divides it or subtracts a float. Rotation polls at most sixty times, as the code does.

  \<^bold>\<open>Not modelled.\<close> AES-GCM, the verification of Google tokens, \<open>uuid4\<close>, Cloud Storage and \<open>wg\<close> itself are
  parameters with their documented contracts as named hypotheses (\<open>aead_ok\<close>, injectivity of identifiers).
  HTTP transport, TLS, FastAPI, SQLite's engine, asyncio's scheduler and typer are not modelled beyond
  the behaviour the code relies on. Also parameters: PyJWT (\<open>jwt_ok\<close>), the Cloud KMS client and \<open>repr\<close> of a float (\<open>reprs\<close>). Left out are
  what the services log and when, log handlers, file modes and which directories exist, errors of reading the file to
  upload and of the stores' own files, the framework's refusal of a request body that is not JSON, uvicorn, argparse and printing,
  the process pool of the sweep, drawing and the QBER bars, infinite and NaN floats in JSON and in settings,
  infrastructure code and tests.
\<close>

end
